(* ===== verification/Prelude.thy ===== *)
theory Prelude
  imports Main "HOL-Library.Word"
begin

text \<open>
  Shared vocabulary of the development: the collections of rewrite rules the component
  theories fill, results of fallible code, single-character splitting and joining of
  strings (\<open>strings.Split\<close>/\<open>String.prototype.split\<close> and their inverses), decimal
  notation, searching a list for the first match and its index, and removal by index.
  Strings are HOL strings: one \<open>char\<close> is one byte of a Go string and one Latin-1 code
  unit of a JavaScript string.
\<close>

section \<open>Collections and abbreviations\<close>

named_theorems go_simps \<open>equations of the Go library functions the sources call\<close>
named_theorems js_simps \<open>equations of the JavaScript built-ins the sources call\<close>
named_theorems conf_simps \<open>projections and updates of a configuration\<close>

type_synonym ('e, 'a) result = "'e + 'a"
type_synonym u8 = "8 word"
type_synonym u32 = "32 word"

abbreviation Err :: "'e \<Rightarrow> ('e, 'a) result" where "Err \<equiv> Inl"
abbreviation Ok :: "'a \<Rightarrow> ('e, 'a) result" where "Ok \<equiv> Inr"

fun bind_result :: "('e, 'a) result \<Rightarrow> ('a \<Rightarrow> ('e, 'b) result) \<Rightarrow> ('e, 'b) result" where
  "bind_result (Inl e) f = Inl e"
| "bind_result (Inr a) f = f a"

lemma bind_result_Ok_iff:
  "bind_result r f = Inr b \<longleftrightarrow> (\<exists>a. r = Inr a \<and> f a = Inr b)"
  by (cases r) auto

text \<open>\<open>map_result f xs\<close> maps a fallible function and stops at the first failure, as a loop with
  an early return, a panic or an exception does.\<close>

fun map_result :: "('a \<Rightarrow> ('e, 'b) result) \<Rightarrow> 'a list \<Rightarrow> ('e, 'b list) result" where
  "map_result f [] = Inr []"
| "map_result f (x # xs) =
     (case f x of Inl e \<Rightarrow> Inl e
      | Inr y \<Rightarrow> (case map_result f xs of Inl e \<Rightarrow> Inl e | Inr ys \<Rightarrow> Inr (y # ys)))"

lemma map_result_cong [fundef_cong]:
  "xs = ys \<Longrightarrow> (\<And>x. x \<in> set ys \<Longrightarrow> f x = g x) \<Longrightarrow> map_result f xs = map_result g ys"
  by (induction xs arbitrary: ys) (auto split: sum.splits)

lemma map_result_exists:
  "(\<And>x. x \<in> set xs \<Longrightarrow> \<exists>y. f x = Inr y) \<Longrightarrow> \<exists>ys. map_result f xs = Inr ys"
proof (induction xs)
  case (Cons x xs)
  then obtain y ys where "f x = Inr y" "map_result f xs = Inr ys" by fastforce
  then show ?case by simp
qed simp

lemma map_result_all_Ok:
  "(\<And>x. x \<in> set xs \<Longrightarrow> f x = Inr (g x)) \<Longrightarrow> map_result f xs = Inr (map g xs)"
  by (induction xs) auto

lemma map_result_of_map:
  "(\<And>x. x \<in> set xs \<Longrightarrow> g (f x) = Inr x) \<Longrightarrow> map_result g (map f xs) = Inr xs"
  by (induction xs) auto

lemma map_result_length: "map_result f xs = Inr ys \<Longrightarrow> length ys = length xs"
  by (induction xs arbitrary: ys) (auto split: sum.splits)

section \<open>First match and its index\<close>

fun index_where :: "('a \<Rightarrow> bool) \<Rightarrow> 'a list \<Rightarrow> nat option" where
  "index_where P [] = None"
| "index_where P (x # xs) = (if P x then Some 0 else map_option Suc (index_where P xs))"

lemma index_where_None: "index_where P xs = None \<longleftrightarrow> (\<forall>x \<in> set xs. \<not> P x)"
  by (induction xs) auto

lemma index_where_Some:
  "index_where P xs = Some i \<Longrightarrow> i < length xs \<and> P (xs ! i) \<and> (\<forall>j < i. \<not> P (xs ! j))"
proof (induction xs arbitrary: i)
  case (Cons x xs)
  show ?case
  proof (cases "P x")
    case False
    with Cons.prems obtain j where "index_where P xs = Some j" and "i = Suc j" by auto
    with Cons.IH [of j] False show ?thesis by (auto simp: less_Suc_eq_0_disj)
  qed (use Cons.prems in auto)
qed simp

lemma index_where_hit: "index_where P xs = Some i \<Longrightarrow> P (xs ! i)"
  and index_where_bound: "index_where P xs = Some i \<Longrightarrow> i < length xs"
  by (auto dest: index_where_Some)

lemma index_where_split:
  assumes "index_where P xs = Some i"
  shows "\<exists>ys x zs. xs = ys @ x # zs \<and> length ys = i \<and> P x \<and> (\<forall>y \<in> set ys. \<not> P y)"
  using assms
proof (induction xs arbitrary: i)
  case (Cons x xs)
  show ?case
  proof (cases "P x")
    case True
    with Cons.prems show ?thesis
      by (intro exI [of _ "[]"]) auto
  next
    case False
    with Cons.prems obtain j where j: "index_where P xs = Some j" "i = Suc j" by auto
    from Cons.IH [OF j(1)] obtain ys y zs where
      "xs = ys @ y # zs" "length ys = j" "P y" "\<forall>y \<in> set ys. \<not> P y" by blast
    with False j show ?thesis
      by (intro exI [of _ "x # ys"] exI [of _ y] exI [of _ zs]) auto
  qed
qed simp

lemma index_where_append:
  "index_where P (xs @ ys) =
     (case index_where P xs of Some i \<Rightarrow> Some i
      | None \<Rightarrow> map_option ((+) (length xs)) (index_where P ys))"
proof (induction xs)
  case Nil
  then show ?case by (cases "index_where P ys") auto
next
  case (Cons x xs)
  then show ?case by (cases "index_where P ys") (auto split: option.splits)
qed

lemma index_where_find: "map_option ((!) xs) (index_where P xs) = find P xs"
  by (induction xs) (auto simp: option.map_comp comp_def)

lemma find_append:
  "find P (xs @ ys) = (case find P xs of None \<Rightarrow> find P ys | Some x \<Rightarrow> Some x)"
  by (induction xs) auto

lemma index_where_update: "P y = P (xs ! i) \<Longrightarrow> index_where P (xs[i := y]) = index_where P xs"
proof (induction xs arbitrary: i)
  case (Cons x xs)
  then show ?case by (cases i) auto
qed simp

text \<open>\<open>append(s[:i], s[i+1:]...)\<close>\<close>

definition remove_nth :: "nat \<Rightarrow> 'a list \<Rightarrow> 'a list" where
  "remove_nth i xs = take i xs @ drop (Suc i) xs"

lemma remove_nth_append [simp]: "remove_nth (length ys) (ys @ x # zs) = ys @ zs"
  by (simp add: remove_nth_def)

lemma set_remove_nth: "set (remove_nth i xs) \<subseteq> set xs"
  by (auto simp: remove_nth_def dest: in_set_takeD in_set_dropD)

lemma list_all_remove_nth: "list_all P xs \<Longrightarrow> list_all P (remove_nth i xs)"
  using set_remove_nth [of i xs] by (auto simp: list_all_iff)

lemma list_all_nth: "i < length xs \<Longrightarrow> list_all P xs \<Longrightarrow> P (xs ! i)"
  by (simp add: list_all_length)

lemma length_remove_nth: "i < length xs \<Longrightarrow> length (remove_nth i xs) = length xs - 1"
  by (simp add: remove_nth_def)

lemma map_remove_nth: "map f (remove_nth i xs) = remove_nth i (map f xs)"
  by (simp add: remove_nth_def take_map drop_map)

lemma distinct_remove_nth: "distinct xs \<Longrightarrow> distinct (remove_nth i xs)"
  unfolding remove_nth_def
  by (auto simp: set_take_disj_set_drop_if_distinct)

lemma map_list_update_same: "f y = f (xs ! i) \<Longrightarrow> map f (xs[i := y]) = map f xs"
  by (metis list_update_id map_update)

section \<open>Splitting and joining at a separator character\<close>

fun split_on :: "char \<Rightarrow> string \<Rightarrow> string list" where
  "split_on c [] = [[]]"
| "split_on c (x # xs) =
     (if x = c then [] # split_on c xs
      else (case split_on c xs of [] \<Rightarrow> [[x]] | w # ws \<Rightarrow> (x # w) # ws))"

fun join_with :: "char \<Rightarrow> string list \<Rightarrow> string" where
  "join_with c [] = []"
| "join_with c [w] = w"
| "join_with c (w # v # ws) = w @ c # join_with c (v # ws)"

lemma split_on_not_Nil [simp]: "split_on c s \<noteq> []"
  by (induction s) (auto split: list.splits)

lemma join_with_Cons: "ws \<noteq> [] \<Longrightarrow> join_with c (w # ws) = w @ c # join_with c ws"
  by (cases ws) auto

lemma join_split: "join_with c (split_on c s) = s"
proof (induction s)
  case (Cons x xs)
  obtain w ws where w: "split_on c xs = w # ws"
    by (cases "split_on c xs") auto
  show ?case
  proof (cases "x = c")
    case True
    with Cons show ?thesis by (simp add: join_with_Cons)
  next
    case False
    with Cons w show ?thesis by (cases ws) auto
  qed
qed simp

lemma split_on_no_sep: "c \<notin> set w \<Longrightarrow> split_on c w = [w]"
  by (induction w) auto

lemma split_on_append: "c \<notin> set w \<Longrightarrow> split_on c (w @ c # s) = w # split_on c s"
  by (induction w) auto

lemma split_join:
  "ws \<noteq> [] \<Longrightarrow> (\<forall>w \<in> set ws. c \<notin> set w) \<Longrightarrow> split_on c (join_with c ws) = ws"
  by (induction c ws rule: join_with.induct) (auto simp: split_on_no_sep split_on_append)

lemma split_on_free_of_sep: "w \<in> set (split_on c s) \<Longrightarrow> c \<notin> set w"
proof (induction s arbitrary: w)
  case (Cons x xs)
  then show ?case by (cases "split_on c xs") (auto split: if_splits)
qed simp

section \<open>Decimal notation\<close>

definition to_lower :: "char \<Rightarrow> char" where
  "to_lower c = (if 65 \<le> (of_char c :: nat) \<and> (of_char c :: nat) \<le> 90 then char_of (of_char c + 32 :: nat) else c)"

definition to_upper :: "char \<Rightarrow> char" where
  "to_upper c = (if 97 \<le> (of_char c :: nat) \<and> (of_char c :: nat) \<le> 122 then char_of (of_char c - 32 :: nat) else c)"

definition digit_char :: "nat \<Rightarrow> char" where "digit_char n = char_of (48 + n)"

definition digit_val :: "char \<Rightarrow> nat" where "digit_val c = of_char c - 48"

definition is_digit :: "char \<Rightarrow> bool" where
  "is_digit c \<longleftrightarrow> 48 \<le> (of_char c :: nat) \<and> (of_char c :: nat) \<le> 57"

definition digits_val :: "string \<Rightarrow> nat" where
  "digits_val ds = foldl (\<lambda>a c. 10 * a + digit_val c) 0 ds"

fun show_nat :: "nat \<Rightarrow> string" where
  "show_nat n =
     (if n < 10 then [digit_char n] else show_nat (n div 10) @ [digit_char (n mod 10)])"

declare show_nat.simps [simp del]

lemma digit_val_char [simp]: "n < 10 \<Longrightarrow> digit_val (digit_char n) = n"
  by (simp add: digit_val_def digit_char_def)

lemma is_digit_char [simp]: "n < 10 \<Longrightarrow> is_digit (digit_char n)"
  by (simp add: is_digit_def digit_char_def)

lemma digits_val_snoc [simp]: "digits_val (ds @ [c]) = 10 * digits_val ds + digit_val c"
  by (simp add: digits_val_def)

lemma digits_val_Nil [simp]: "digits_val [] = 0"
  and digits_val_single [simp]: "digits_val [c] = digit_val c"
  by (simp_all add: digits_val_def)

lemma show_nat_not_Nil [simp]: "show_nat n \<noteq> []"
  by (subst show_nat.simps) simp

lemma show_nat_digits: "list_all is_digit (show_nat n)"
proof (induction n rule: show_nat.induct)
  case (1 n)
  show ?case
  proof (cases "n < 10")
    case True
    then show ?thesis by (subst show_nat.simps) simp
  next
    case False
    with 1 show ?thesis by (subst show_nat.simps) simp
  qed
qed

lemma digits_val_show_nat [simp]: "digits_val (show_nat n) = n"
proof (induction n rule: show_nat.induct)
  case (1 n)
  show ?case
  proof (cases "n < 10")
    case True
    then show ?thesis by (subst show_nat.simps) simp
  next
    case False
    with 1 show ?thesis by (subst show_nat.simps) simp
  qed
qed

lemma is_digit_neq:
  "is_digit c \<Longrightarrow> c \<noteq> CHR ''.''" "is_digit c \<Longrightarrow> c \<noteq> CHR '':''" "is_digit c \<Longrightarrow> c \<noteq> CHR ''-''"
  "is_digit c \<Longrightarrow> c \<noteq> CHR ''+''" "is_digit c \<Longrightarrow> c \<noteq> CHR '' ''"
  by (auto simp: is_digit_def)

lemma digits_avoid:
  assumes "list_all is_digit ds"
  shows "CHR ''.'' \<notin> set ds" "CHR '':'' \<notin> set ds" "CHR ''-'' \<notin> set ds" "CHR ''+'' \<notin> set ds"
  using assms by (auto simp: list_all_iff dest: is_digit_neq bspec)

section \<open>Dotted quads\<close>

text \<open>
  The textual IPv4 notation that the front end, the REST API and the storage exchange. The
  locale is the contract of a type that is written to and read from that notation; its
  instances are the Go byte arrays (theory \<open>IpUtils\<close>) and the JavaScript number arrays
  (theory \<open>JsBase\<close>).
\<close>

definition dotted :: "nat list \<Rightarrow> string" where
  "dotted ns = join_with (CHR ''.'') (map show_nat ns)"

definition quad :: "nat list \<Rightarrow> bool" where
  "quad ns \<longleftrightarrow> length ns = 4 \<and> list_all (\<lambda>n. n < 256) ns"

lemma split_dotted: "ns \<noteq> [] \<Longrightarrow> split_on (CHR ''.'') (dotted ns) = map show_nat ns"
  unfolding dotted_def
  by (rule split_join) (auto simp: digits_avoid(1) show_nat_digits)

lemma dotted_chars: "c \<in> set (dotted ns) \<Longrightarrow> is_digit c \<or> c = CHR ''.''"
proof -
  have "c \<in> set (join_with d ws) \<Longrightarrow> c = d \<or> (\<exists>w \<in> set ws. c \<in> set w)" for d ws
    by (induction d ws rule: join_with.induct) auto
  then show "c \<in> set (dotted ns) \<Longrightarrow> ?thesis"
    using show_nat_digits by (fastforce simp: dotted_def list_all_iff)
qed

lemma dotted_not_Nil: "ns \<noteq> [] \<Longrightarrow> dotted ns \<noteq> []"
  by (cases ns; cases "tl ns") (auto simp: dotted_def)

lemma quad_cases: "quad ns \<Longrightarrow> \<exists>a b c d. ns = [a, b, c, d] \<and> a < 256 \<and> b < 256 \<and> c < 256 \<and> d < 256"
  by (auto simp: quad_def numeral_eq_Suc length_Suc_conv)

locale dotted_quad =
  fixes render :: "'a \<Rightarrow> string"
    and parse :: "string \<Rightarrow> ('e, 'a) result"
    and octets :: "'a \<Rightarrow> nat list"
    and valid :: "'a \<Rightarrow> bool"
  assumes octets_quad: "valid a \<Longrightarrow> quad (octets a)"
    and octets_inj: "valid a \<Longrightarrow> valid b \<Longrightarrow> octets a = octets b \<Longrightarrow> a = b"
    and render_text: "valid a \<Longrightarrow> render a = dotted (octets a)"
    and parse_text: "quad ns \<Longrightarrow> \<exists>a. parse (dotted ns) = Inr a \<and> valid a \<and> octets a = ns"
begin

lemma parse_render: "valid a \<Longrightarrow> parse (render a) = Inr a"
  using parse_text [OF octets_quad] octets_inj render_text by metis

lemma render_inj: "valid a \<Longrightarrow> valid b \<Longrightarrow> render a = render b \<Longrightarrow> a = b"
  by (metis parse_render sum.inject(2))

end

end
