(* ===== verification/IpUtils.thy ===== *)
theory IpUtils
  imports Prelude
begin

text \<open>
  The Go number parsing the sources call (\<open>strconv.ParseInt\<close>, \<open>strconv.Atoi\<close>,
  \<open>strconv.FormatInt\<close>, base 10, 64 bits) and \<open>src/utils/iputils/iputils.go\<close>: the
  conversion between \<open>[4]byte\<close> addresses and their text. A panic of the Go code is a value
  of \<open>go_panic\<close>.
\<close>

section \<open>strconv\<close>

datatype num_error = ErrSyntax | ErrRange

definition int64_max :: int where "int64_max = 9223372036854775807"
definition int64_min :: int where "int64_min = - 9223372036854775808"

definition in_int64 :: "int \<Rightarrow> bool" where
  "in_int64 i \<longleftrightarrow> int64_min \<le> i \<and> i \<le> int64_max"

definition clamp_int64 :: "int \<Rightarrow> int \<times> num_error option" where
  "clamp_int64 i =
     (if i < int64_min then (int64_min, Some ErrRange)
      else if int64_max < i then (int64_max, Some ErrRange)
      else (i, None))"

fun go_ParseInt :: "string \<Rightarrow> int \<times> num_error option" where
  "go_ParseInt [] = (0, Some ErrSyntax)"
| "go_ParseInt (c # cs) =
     (let ds = (if c = CHR ''-'' \<or> c = CHR ''+'' then cs else c # cs) in
      if ds = [] \<or> \<not> list_all is_digit ds then (0, Some ErrSyntax)
      else clamp_int64 (if c = CHR ''-'' then - int (digits_val ds) else int (digits_val ds)))"

definition go_Atoi :: "string \<Rightarrow> int \<times> num_error option" where
  "go_Atoi s = go_ParseInt s"

definition go_FormatInt :: "int \<Rightarrow> string" where
  "go_FormatInt i = (if i < 0 then CHR ''-'' # show_nat (nat (- i)) else show_nat (nat i))"

lemma go_ParseInt_digits:
  "ds \<noteq> [] \<Longrightarrow> list_all is_digit ds \<Longrightarrow> go_ParseInt ds = clamp_int64 (int (digits_val ds))"
  by (cases ds) (auto simp: is_digit_neq)

lemma go_ParseInt_show_nat:
  "int n \<le> int64_max \<Longrightarrow> go_ParseInt (show_nat n) = (int n, None)"
  by (simp add: go_ParseInt_digits show_nat_digits clamp_int64_def int64_min_def)

lemma go_ParseInt_FormatInt: "in_int64 i \<Longrightarrow> go_ParseInt (go_FormatInt i) = (i, None)"
proof (cases "i < 0")
  case True
  assume "in_int64 i"
  with True show ?thesis
    by (simp add: go_FormatInt_def show_nat_digits clamp_int64_def in_int64_def)
next
  case False
  assume "in_int64 i"
  with False show ?thesis
    by (simp add: go_FormatInt_def go_ParseInt_show_nat in_int64_def)
qed

lemma go_ParseInt_in_int64: "in_int64 (fst (go_ParseInt s))"
  by (cases s) (auto simp: Let_def clamp_int64_def in_int64_def int64_min_def int64_max_def)

lemma go_Atoi_small: "n < 256 \<Longrightarrow> go_Atoi (show_nat n) = (int n, None)"
  by (simp add: go_Atoi_def go_ParseInt_show_nat int64_max_def)

section \<open>strings\<close>

definition go_is_space :: "char \<Rightarrow> bool" where
  "go_is_space c \<longleftrightarrow> c \<in> {CHR '' '', CHR 0x09, CHR 0x0A, CHR 0x0B, CHR 0x0C, CHR 0x0D}"

definition go_TrimSpace :: "string \<Rightarrow> string" where
  "go_TrimSpace s = rev (dropWhile go_is_space (rev (dropWhile go_is_space s)))"

definition go_before :: "char \<Rightarrow> string \<Rightarrow> string" where
  \<comment> \<open>\<open>s[:strings.Index(s, c)]\<close> when the index is not negative, else \<open>s\<close>\<close>
  "go_before c s = takeWhile (\<lambda>x. x \<noteq> c) s"

lemma go_TrimSpace_empty_iff: "go_TrimSpace s = [] \<longleftrightarrow> (\<forall>c \<in> set s. go_is_space c)"
proof -
  have "go_TrimSpace s = [] \<longleftrightarrow> (\<forall>c \<in> set (dropWhile go_is_space s). go_is_space c)"
    by (simp add: go_TrimSpace_def)
  also have "\<dots> \<longleftrightarrow> (\<forall>c \<in> set s. go_is_space c)"
    by (induction s) auto
  finally show ?thesis .
qed

section \<open>iputils\<close>

datatype go_panic = PanicNumError string num_error | PanicIndexOutOfRange | PanicNilMatch
  | PanicTypeAssertion | PanicSliceBounds | PanicNilDereference | PanicMessage string

definition zero_ip :: "u8 list" where "zero_ip = replicate 4 0"

fun fill_bytes :: "u8 list \<Rightarrow> nat \<Rightarrow> string list \<Rightarrow> (go_panic, u8 list) result" where
  "fill_bytes arr j [] = Inr arr"
| "fill_bytes arr j (piece # ps) =
     (case go_Atoi piece of
        (n, Some e) \<Rightarrow> Inl (PanicNumError piece e)
      | (n, None) \<Rightarrow>
          if j < length arr then fill_bytes (arr[j := word_of_int n]) (Suc j) ps
          else Inl PanicIndexOutOfRange)"

definition ToIpByteArray :: "u8 list \<Rightarrow> string \<Rightarrow> (go_panic, u8 list) result" where
  "ToIpByteArray byteArray ip =
     (if length (go_TrimSpace ip) = 0 then Inr byteArray
      else fill_bytes byteArray 0 (split_on (CHR ''.'') (go_before (CHR '':'') ip)))"

definition ToIpsByteArray :: "string list \<Rightarrow> (go_panic, u8 list list) result" where
  "ToIpsByteArray ips = map_result (ToIpByteArray zero_ip) ips"

definition ToIpString :: "u8 list \<Rightarrow> string" where
  "ToIpString ipArray = join_with (CHR ''.'') (map (\<lambda>b. show_nat (unat b)) ipArray)"

definition ToIpStringArray :: "u8 list list \<Rightarrow> string list" where
  "ToIpStringArray ipsArray = map ToIpString ipsArray"

lemma ToIpString_dotted: "ToIpString a = dotted (map unat a)"
  by (simp add: ToIpString_def dotted_def comp_def)

lemma dotted_not_blank: "ns \<noteq> [] \<Longrightarrow> go_TrimSpace (dotted ns) \<noteq> []"
proof -
  assume "ns \<noteq> []"
  then obtain c where c: "c \<in> set (dotted ns)"
    using dotted_not_Nil by (metis all_not_in_conv set_empty)
  then have "\<not> go_is_space c"
    by (drule_tac dotted_chars) (auto simp: go_is_space_def is_digit_def)
  with c show ?thesis by (auto simp: go_TrimSpace_empty_iff)
qed

lemma go_before_dotted: "go_before (CHR '':'') (dotted ns) = dotted ns"
  unfolding go_before_def
  by (auto dest!: dotted_chars is_digit_neq(2))

lemma ToIpByteArray_dotted:
  assumes "quad ns"
  shows "ToIpByteArray zero_ip (dotted ns) = Inr (map word_of_nat ns)"
proof -
  from quad_cases [OF assms] obtain a b c d where
    ns: "ns = [a, b, c, d]" and "a < 256" "b < 256" "c < 256" "d < 256" by blast
  then have "fill_bytes zero_ip 0 (map show_nat ns) = Inr (map word_of_nat ns)"
    by (simp add: zero_ip_def go_Atoi_small numeral_eq_Suc)
  then show ?thesis
    using ns by (simp add: ToIpByteArray_def dotted_not_blank go_before_dotted split_dotted)
qed

lemma unat_u8_bound: "unat (x :: u8) < 256"
  using unsigned_less [of x] by simp

lemma uint_u8_bound: "uint (b :: u8) < 256"
proof -
  have "int (unat b) < 256" using unat_u8_bound [of b] by linarith
  then show ?thesis by (metis uint_nat)
qed

lemma map_unat_of_nat: "list_all (\<lambda>n. n < 256) ns \<Longrightarrow> map unat (map word_of_nat ns :: u8 list) = ns"
  by (induction ns) (auto simp: unat_of_nat)

text \<open>Four bytes and their text are inverse to each other.\<close>

interpretation goip: dotted_quad ToIpString "ToIpByteArray zero_ip" "map unat" "\<lambda>a. length a = 4"
proof (unfold_locales, goal_cases)
  case (1 a)
  then show ?case by (auto simp: quad_def list_all_iff unat_u8_bound)
next
  case (2 a b)
  then show ?case by (metis list.inj_map_strong unsigned_word_eqI)
next
  case (3 a)
  then show ?case by (simp add: ToIpString_dotted)
next
  case (4 ns)
  then have "ToIpByteArray zero_ip (dotted ns) = Inr (map word_of_nat ns)"
    by (rule ToIpByteArray_dotted)
  moreover have "map unat (map word_of_nat ns :: u8 list) = ns"
    using 4 by (intro map_unat_of_nat) (simp add: quad_def)
  ultimately show ?case
    using 4 by (auto simp: quad_def)
qed

end
