(* ===== verification/LocalVo.thy ===== *)
theory LocalVo
  imports IpUtils
begin

text \<open>
  The configuration the server works on: \<open>src/events/local/localvo/\<close>. A pointer into the
  slice \<open>Envs\<close> or \<open>Hostnames\<close> is its index, so an update through a pointer is an update
  at that index. An \<open>error\<close> value is its message. \<open>now\<close> stands for
  \<open>time.Now().UnixNano()\<close>. The regular expression engine is the parameter \<open>re\<close> of
  \<open>FindHostnameByName\<close>.
\<close>

section \<open>Data\<close>

record DNSServer =
  dnsIp :: string
  dnsPort :: int

record Hostname =
  hId :: int
  hHostname :: string
  hIp :: string
  hTarget :: string
  hTtl :: int
  hType :: string

record Env =
  envName :: string
  Hostnames :: "Hostname list"

record Configuration =
  Version :: int
  RemoteDnsServers :: "DNSServer list"
  Envs :: "Env list"
  ActiveEnv :: string
  WebServerPort :: int
  DnsServerPort :: int
  DefaultDns :: "bool option"
  LogLevel :: string
  LogFile :: string
  RegisterContainerNames :: "bool option"
  HostMachineHostname :: string
  Domain :: string
  DpsNetwork :: "bool option"
  DpsNetworkAutoConnect :: "bool option"

section \<open>Remote servers (dnsserver.go)\<close>

definition GetIpArray :: "DNSServer \<Rightarrow> (go_panic, u8 list) result" where
  "GetIpArray s = ToIpByteArray zero_ip (dnsIp s)"

definition GetAddress :: "DNSServer \<Rightarrow> string" where
  "GetAddress s = dnsIp s @ CHR '':'' # go_FormatInt (dnsPort s)"

definition ServersToByteArray :: "DNSServer list \<Rightarrow> (go_panic, u8 list list) result" where
  "ServersToByteArray servers = map_result GetIpArray servers"

definition ToIpsStringArray :: "DNSServer list \<Rightarrow> string list" where
  "ToIpsStringArray servers = map GetAddress servers"

text \<open>
  The expression \<open>(\d+\.\d+\.\d+\.\d+):?(\d*)\<close>, searched from the left. No digit is a
  separator, so the greedy choice of every \<open>\d+\<close> is the only one that can match.
\<close>

fun match_groups :: "nat \<Rightarrow> string \<Rightarrow> (string \<times> string) option" where
  "match_groups n s =
     (let d = takeWhile is_digit s; r = dropWhile is_digit s in
      if d = [] then None
      else (case n of
          0 \<Rightarrow> Some (d, r)
        | Suc m \<Rightarrow>
            (case r of
               c # r' \<Rightarrow>
                 if c = CHR ''.'' then map_option (\<lambda>(t, u). (d @ c # t, u)) (match_groups m r')
                 else None
             | [] \<Rightarrow> None)))"

declare match_groups.simps [simp del]

fun find_address :: "string \<Rightarrow> (string \<times> string) option" where
  "find_address s =
     (case match_groups 3 s of
        Some (ip, r) \<Rightarrow>
          Some (ip, takeWhile is_digit (case r of c # r' \<Rightarrow> if c = CHR '':'' then r' else r | [] \<Rightarrow> []))
      | None \<Rightarrow> (case s of [] \<Rightarrow> None | _ # t \<Rightarrow> find_address t))"

declare find_address.simps [simp del]

definition parseIntDnsServer :: "string \<Rightarrow> int" where
  "parseIntDnsServer str = (case go_Atoi str of (n, Some _) \<Rightarrow> 53 | (n, None) \<Rightarrow> n)"

definition toDnsServer :: "string \<Rightarrow> (go_panic, DNSServer) result" where
  "toDnsServer dnsAddress =
     (case find_address dnsAddress of
        None \<Rightarrow> Inl PanicNilMatch
      | Some (ip, port) \<Rightarrow> Inr \<lparr>dnsIp = ip, dnsPort = parseIntDnsServer port\<rparr>)"

definition ByteArrayToDnsServer :: "u8 list list \<Rightarrow> (go_panic, DNSServer list) result" where
  "ByteArrayToDnsServer bs = map_result (\<lambda>b. toDnsServer (ToIpString b)) bs"

definition StringArrayToDnsServer :: "string list \<Rightarrow> (go_panic, DNSServer list) result" where
  "StringArrayToDnsServer ss = map_result toDnsServer ss"

section \<open>Operations (localvo.go)\<close>

definition GetEnv :: "Configuration \<Rightarrow> string \<Rightarrow> nat option" where
  "GetEnv lc name = index_where (\<lambda>e. envName e = name) (Envs lc)"

definition GetActiveEnv :: "Configuration \<Rightarrow> nat option" where
  "GetActiveEnv lc = GetEnv lc (ActiveEnv lc)"

definition GetHostname :: "Env \<Rightarrow> string \<Rightarrow> nat option" where
  "GetHostname e name = index_where (\<lambda>h. hHostname h = name) (Hostnames e)"

definition GetHostnameByName :: "Env \<Rightarrow> string \<Rightarrow> nat option" where
  "GetHostnameByName e name = index_where (\<lambda>h. hHostname h = name) (Hostnames e)"

definition GetHostnameById :: "Env \<Rightarrow> int \<Rightarrow> nat option" where
  "GetHostnameById e i = index_where (\<lambda>h. hId h = i) (Hostnames e)"

definition FindHostnameByName ::
  "(string \<Rightarrow> string \<Rightarrow> bool) \<Rightarrow> Env \<Rightarrow> string \<Rightarrow> Hostname list" where
  "FindHostnameByName re e name =
     filter (\<lambda>h. re (''.*'' @ name @ ''.*'') (hHostname h)) (Hostnames e)"

definition FindHostnameByNameAndEnv ::
  "(string \<Rightarrow> string \<Rightarrow> bool) \<Rightarrow> Configuration \<Rightarrow> string \<Rightarrow> string \<Rightarrow>
     (string, Hostname list) result" where
  "FindHostnameByNameAndEnv re lc name hostname =
     (case GetEnv lc name of
        None \<Rightarrow> Inl ''env not found''
      | Some i \<Rightarrow> Inr (FindHostnameByName re (Envs lc ! i) hostname))"

definition EnvAddHostname :: "Env \<Rightarrow> Hostname \<Rightarrow> (string, Env) result" where
  "EnvAddHostname e h =
     (case GetHostname e (hHostname h) of
        Some _ \<Rightarrow> Inl (''The host '' @ [CHR 0x27] @ hHostname h @ [CHR 0x27] @ '' already exists'')
      | None \<Rightarrow> Inr (e\<lparr>Hostnames := Hostnames e @ [h]\<rparr>))"

definition stamp_id :: "int \<Rightarrow> Hostname \<Rightarrow> Hostname" where
  "stamp_id now h = (if hId h = 0 then h\<lparr>hId := now\<rparr> else h)"

definition AddHostname ::
  "int \<Rightarrow> Configuration \<Rightarrow> string \<Rightarrow> Hostname \<Rightarrow> (string, Configuration) result" where
  "AddHostname now lc name hostname =
     (let h = stamp_id now hostname in
      if hType h = '''' then Inl ''Type is required''
      else
        case GetEnv lc name of
          None \<Rightarrow> Inl ''env not found''
        | Some i \<Rightarrow>
            (case EnvAddHostname (Envs lc ! i) h of
               Inl err \<Rightarrow> Inl err
             | Inr e \<Rightarrow> Inr (lc\<lparr>Envs := (Envs lc)[i := e]\<rparr>)))"

definition assign_fields :: "Hostname \<Rightarrow> Hostname \<Rightarrow> Hostname" where
  "assign_fields found h =
     found\<lparr>hHostname := hHostname h, hTtl := hTtl h, hIp := hIp h, hTarget := hTarget h,
       hType := hType h\<rparr>"

definition EnvUpdateHostname :: "Env \<Rightarrow> Hostname \<Rightarrow> (string, Env) result" where
  "EnvUpdateHostname e h =
     (case GetHostnameById e (hId h) of
        None \<Rightarrow> Inl (''not hostname found with name='' @ hHostname h @ '' and id='' @ go_FormatInt (hId h))
      | Some i \<Rightarrow>
          Inr (e\<lparr>Hostnames := (Hostnames e)[i := assign_fields (Hostnames e ! i) h]\<rparr>))"

definition UpdateHostname ::
  "Configuration \<Rightarrow> string \<Rightarrow> Hostname \<Rightarrow> (string, Configuration) result" where
  "UpdateHostname lc name h =
     (case GetEnv lc name of
        None \<Rightarrow> Inl ''env not found''
      | Some i \<Rightarrow>
          (case EnvUpdateHostname (Envs lc ! i) h of
             Inl err \<Rightarrow> Inl err
           | Inr e \<Rightarrow> Inr (lc\<lparr>Envs := (Envs lc)[i := e]\<rparr>)))"

text \<open>
  The two removals by index below are called with an index that \<open>GetEnv\<close> or
  \<open>GetHostname\<close> has just returned, so their slicing stays in range.
\<close>

definition RemoveHostname :: "Configuration \<Rightarrow> nat \<Rightarrow> nat \<Rightarrow> Configuration" where
  "RemoveHostname lc envIndex hostIndex =
     (let e = Envs lc ! envIndex in
      lc\<lparr>Envs := (Envs lc)[envIndex := e\<lparr>Hostnames := remove_nth hostIndex (Hostnames e)\<rparr>]\<rparr>)"

definition RemoveHostnameByEnvAndHostname ::
  "Configuration \<Rightarrow> string \<Rightarrow> string \<Rightarrow> (string, Configuration) result" where
  "RemoveHostnameByEnvAndHostname lc name hostname =
     (case GetEnv lc name of
        None \<Rightarrow> Inl ''env not found''
      | Some i \<Rightarrow>
          (case GetHostname (Envs lc ! i) hostname of
             None \<Rightarrow> Inl ''hostname not found''
           | Some j \<Rightarrow> Inr (RemoveHostname lc i j)))"

definition AddEnv :: "Configuration \<Rightarrow> Env \<Rightarrow> (string, Configuration) result" where
  "AddEnv lc e =
     (case GetEnv lc (envName e) of
        Some _ \<Rightarrow> Inl (''The '' @ [CHR 0x27] @ envName e @ [CHR 0x27] @ '' env already exists'')
      | None \<Rightarrow> Inr (lc\<lparr>Envs := Envs lc @ [e]\<rparr>))"

definition RemoveEnv :: "Configuration \<Rightarrow> nat \<Rightarrow> Configuration" where
  "RemoveEnv lc i = lc\<lparr>Envs := remove_nth i (Envs lc)\<rparr>"

definition RemoveEnvByName :: "Configuration \<Rightarrow> string \<Rightarrow> (string, Configuration) result" where
  "RemoveEnvByName lc name =
     (case GetEnv lc name of
        None \<Rightarrow> Inl (''The env '' @ [CHR 0x27] @ name @ [CHR 0x27] @ '' was not found'')
      | Some i \<Rightarrow> Inr (RemoveEnv lc i))"

definition SetActiveEnv :: "Configuration \<Rightarrow> Env \<Rightarrow> (string, Configuration) result" where
  "SetActiveEnv lc e =
     (case GetEnv lc (envName e) of
        None \<Rightarrow> Inl (''Env not found: '' @ envName e)
      | Some _ \<Rightarrow> Inr (lc\<lparr>ActiveEnv := envName e\<rparr>))"

definition AddDns :: "Configuration \<Rightarrow> string \<Rightarrow> (go_panic, Configuration) result" where
  "AddDns lc dns =
     (case toDnsServer dns of Inl p \<Rightarrow> Inl p
      | Inr s \<Rightarrow> Inr (lc\<lparr>RemoteDnsServers := RemoteDnsServers lc @ [s]\<rparr>))"

definition RemoveDns :: "Configuration \<Rightarrow> nat \<Rightarrow> (go_panic, Configuration) result" where
  "RemoveDns lc i =
     (if i < length (RemoteDnsServers lc)
      then Inr (lc\<lparr>RemoteDnsServers := remove_nth i (RemoteDnsServers lc)\<rparr>)
      else Inl PanicIndexOutOfRange)"

definition GetRemoteServers :: "Configuration \<Rightarrow> DNSServer list" where
  "GetRemoteServers lc =
     (if length (RemoteDnsServers lc) \<noteq> 0 then RemoteDnsServers lc
      else [\<lparr>dnsIp = ''8.8.8.8'', dnsPort = 53\<rparr>])"

section \<open>Environments by name\<close>

text \<open>
  The abstract view of a configuration: the records of each environment, and the names of
  the environments.
\<close>

definition env_names :: "Configuration \<Rightarrow> string list" where
  "env_names lc = map envName (Envs lc)"

definition records :: "Configuration \<Rightarrow> string \<Rightarrow> Hostname list option" where
  "records lc name = map_option (\<lambda>i. Hostnames (Envs lc ! i)) (GetEnv lc name)"

definition conf_wf :: "Configuration \<Rightarrow> bool" where
  "conf_wf lc \<longleftrightarrow> distinct (env_names lc)"

lemma GetEnv_None_iff: "GetEnv lc n = None \<longleftrightarrow> n \<notin> set (env_names lc)"
  by (auto simp: GetEnv_def index_where_None env_names_def)

lemma GetEnv_Some: "GetEnv lc n = Some i \<Longrightarrow> i < length (Envs lc) \<and> envName (Envs lc ! i) = n"
  unfolding GetEnv_def by (auto dest: index_where_Some)

lemma records_None_iff: "records lc n = None \<longleftrightarrow> n \<notin> set (env_names lc)"
  by (simp add: records_def GetEnv_None_iff)

lemma records_find: "records lc n = map_option Hostnames (find (\<lambda>e. envName e = n) (Envs lc))"
  by (simp add: records_def GetEnv_def index_where_find [symmetric] option.map_comp comp_def)

lemma records_frame [conf_simps]:
  "records (lc\<lparr>ActiveEnv := a\<rparr>) n = records lc n"
  "env_names (lc\<lparr>ActiveEnv := a\<rparr>) = env_names lc"
  by (simp_all add: records_def GetEnv_def env_names_def)

lemma env_names_put:
  "i < length (Envs lc) \<Longrightarrow> envName e = envName (Envs lc ! i) \<Longrightarrow>
     env_names (lc\<lparr>Envs := (Envs lc)[i := e]\<rparr>) = env_names lc"
  by (simp add: env_names_def map_list_update_same)

text \<open>Writing an environment back under its own name changes that environment only.\<close>

lemma records_put:
  assumes "GetEnv lc n = Some i" and "envName e = n"
  shows "records (lc\<lparr>Envs := (Envs lc)[i := e]\<rparr>) = (records lc)(n \<mapsto> Hostnames e)"
proof
  fix m
  from assms(1) have i: "i < length (Envs lc)" "envName (Envs lc ! i) = n"
    by (auto dest: GetEnv_Some)
  have get: "GetEnv (lc\<lparr>Envs := (Envs lc)[i := e]\<rparr>) m = GetEnv lc m"
    using i assms(2) by (simp add: GetEnv_def index_where_update)
  have "GetEnv lc m = Some j \<Longrightarrow> (j = i) = (m = n)" for j
    using assms(1) i by (auto dest: GetEnv_Some)
  then show "records (lc\<lparr>Envs := (Envs lc)[i := e]\<rparr>) m = ((records lc)(n \<mapsto> Hostnames e)) m"
    using assms(1) i by (cases "GetEnv lc m") (auto simp: records_def get)
qed

lemma records_append_env:
  assumes "envName e \<notin> set (env_names lc)"
  shows "records (lc\<lparr>Envs := Envs lc @ [e]\<rparr>) = (records lc)(envName e \<mapsto> Hostnames e)"
proof
  fix m
  have "GetEnv lc (envName e) = None" using assms by (simp add: GetEnv_None_iff)
  moreover have "GetEnv lc m = Some j \<Longrightarrow> j < length (Envs lc)" for j
    by (auto dest: GetEnv_Some)
  ultimately show "records (lc\<lparr>Envs := Envs lc @ [e]\<rparr>) m =
      ((records lc)(envName e \<mapsto> Hostnames e)) m"
    by (auto simp: records_def GetEnv_def index_where_append nth_append split: option.splits)
qed

lemma records_remove_env:
  assumes "conf_wf lc" and "GetEnv lc n = Some i"
  shows "records (RemoveEnv lc i) = (records lc)(n := None)"
proof
  fix m
  obtain ys x zs where x: "Envs lc = ys @ x # zs" "length ys = i" "envName x = n"
    using index_where_split [OF assms(2) [unfolded GetEnv_def]] by blast
  then have rm: "Envs (RemoveEnv lc i) = ys @ zs"
    by (auto simp: RemoveEnv_def)
  have fresh: "n \<notin> envName ` set (ys @ zs)"
    using assms(1) x by (auto simp: conf_wf_def env_names_def)
  show "records (RemoveEnv lc i) m = ((records lc)(n := None)) m"
  proof (cases "m = n")
    case True
    with fresh rm show ?thesis by (auto simp: records_None_iff env_names_def)
  next
    case False
    then show ?thesis
      using x rm by (auto simp: records_find find_append split: option.splits)
  qed
qed

section \<open>The contract of the record operations\<close>

text \<open>
  What a client of the hostname records relies on: the answer of every operation as a
  function of the records of the named environment, and that no other environment changes.
\<close>

definition hostname_names :: "Hostname list \<Rightarrow> string list" where
  "hostname_names rs = map hHostname rs"

definition remove_first :: "('a \<Rightarrow> bool) \<Rightarrow> 'a list \<Rightarrow> 'a list" where
  "remove_first P xs = (case index_where P xs of None \<Rightarrow> xs | Some i \<Rightarrow> remove_nth i xs)"

definition update_first :: "('a \<Rightarrow> bool) \<Rightarrow> ('a \<Rightarrow> 'a) \<Rightarrow> 'a list \<Rightarrow> 'a list" where
  "update_first P f xs = (case index_where P xs of None \<Rightarrow> xs | Some i \<Rightarrow> xs[i := f (xs ! i)])"

locale record_store =
  fixes recs :: "'c \<Rightarrow> string \<Rightarrow> Hostname list option"
    and add :: "int \<Rightarrow> 'c \<Rightarrow> string \<Rightarrow> Hostname \<Rightarrow> (string, 'c) result"
    and upd :: "'c \<Rightarrow> string \<Rightarrow> Hostname \<Rightarrow> (string, 'c) result"
    and del :: "'c \<Rightarrow> string \<Rightarrow> string \<Rightarrow> (string, 'c) result"
  assumes add_ok: "recs c e = Some rs \<Longrightarrow> hType h \<noteq> '''' \<Longrightarrow> hHostname h \<notin> set (hostname_names rs) \<Longrightarrow>
      \<exists>c'. add now c e h = Inr c' \<and> recs c' = (recs c)(e \<mapsto> rs @ [stamp_id now h])"
    and add_err: "recs c e = None \<or> hType h = '''' \<or>
        (\<exists>rs. recs c e = Some rs \<and> hHostname h \<in> set (hostname_names rs)) \<Longrightarrow>
      \<exists>msg. add now c e h = Inl msg"
    and upd_ok: "recs c e = Some rs \<Longrightarrow> hId h \<in> hId ` set rs \<Longrightarrow>
      \<exists>c'. upd c e h = Inr c' \<and>
        recs c' = (recs c)(e \<mapsto> update_first (\<lambda>r. hId r = hId h) (\<lambda>r. assign_fields r h) rs)"
    and upd_err: "recs c e = None \<or> (\<exists>rs. recs c e = Some rs \<and> hId h \<notin> hId ` set rs) \<Longrightarrow>
      \<exists>msg. upd c e h = Inl msg"
    and del_ok: "recs c e = Some rs \<Longrightarrow> n \<in> set (hostname_names rs) \<Longrightarrow>
      \<exists>c'. del c e n = Inr c' \<and> recs c' = (recs c)(e \<mapsto> remove_first (\<lambda>r. hHostname r = n) rs)"
    and del_err: "recs c e = None \<or> (\<exists>rs. recs c e = Some rs \<and> n \<notin> set (hostname_names rs)) \<Longrightarrow>
      \<exists>msg. del c e n = Inl msg"
begin

lemma add_iff:
  "(\<exists>c'. add now c e h = Inr c') \<longleftrightarrow>
     (\<exists>rs. recs c e = Some rs \<and> hType h \<noteq> '''' \<and> hHostname h \<notin> set (hostname_names rs))"
proof (cases "\<exists>rs. recs c e = Some rs \<and> hType h \<noteq> '''' \<and> hHostname h \<notin> set (hostname_names rs)")
  case True
  then show ?thesis using add_ok by blast
next
  case False
  then have "\<exists>msg. add now c e h = Inl msg"
    by (intro add_err) (cases "recs c e"; auto)
  with False show ?thesis by auto
qed

lemma add_records:
  assumes "add now c e h = Inr c'"
  obtains rs where "recs c e = Some rs" "hHostname h \<notin> set (hostname_names rs)"
    "recs c' = (recs c)(e \<mapsto> rs @ [stamp_id now h])"
proof -
  from assms add_iff obtain rs where
    rs: "recs c e = Some rs" "hType h \<noteq> ''''" "hHostname h \<notin> set (hostname_names rs)" by blast
  from add_ok [OF rs] assms have "recs c' = (recs c)(e \<mapsto> rs @ [stamp_id now h])"
    by (metis sum.inject(2))
  with rs that show ?thesis by blast
qed

text \<open>Deleting what was just added gives back the records of every environment.\<close>

lemma del_after_add:
  assumes "add now c e h = Inr c'"
  shows "\<exists>c''. del c' e (hHostname h) = Inr c'' \<and> recs c'' = recs c"
proof -
  from add_records [OF assms] obtain rs where
    rs: "recs c e = Some rs" "hHostname h \<notin> set (hostname_names rs)"
        "recs c' = (recs c)(e \<mapsto> rs @ [stamp_id now h])" by blast
  have name: "hHostname (stamp_id now h) = hHostname h"
    by (simp add: stamp_id_def)
  from rs(2) have "index_where (\<lambda>r. hHostname r = hHostname h) rs = None"
    by (auto simp: index_where_None hostname_names_def image_iff)
  then have rm: "remove_first (\<lambda>r. hHostname r = hHostname h) (rs @ [stamp_id now h]) = rs"
    by (simp add: remove_first_def index_where_append name remove_nth_def)
  from rs(3) name have "recs c' e = Some (rs @ [stamp_id now h])"
    and "hHostname h \<in> set (hostname_names (rs @ [stamp_id now h]))"
    by (simp_all add: hostname_names_def)
  from del_ok [OF this] rm rs show ?thesis
    by (auto simp: fun_eq_iff)
qed

end

section \<open>The configuration provides the contract\<close>

lemma GetHostname_None_iff:
  "GetHostname e n = None \<longleftrightarrow> n \<notin> set (hostname_names (Hostnames e))"
  by (auto simp: GetHostname_def index_where_None hostname_names_def)

lemma GetHostnameById_None_iff: "GetHostnameById e i = None \<longleftrightarrow> i \<notin> hId ` set (Hostnames e)"
  by (auto simp: GetHostnameById_def index_where_None)

lemma stamp_id_fields [simp]:
  "hHostname (stamp_id now h) = hHostname h" "hType (stamp_id now h) = hType h"
  "hIp (stamp_id now h) = hIp h" "hTarget (stamp_id now h) = hTarget h"
  "hTtl (stamp_id now h) = hTtl h"
  by (simp_all add: stamp_id_def)

lemma records_index:
  "records lc e = Some rs \<Longrightarrow> \<exists>i. GetEnv lc e = Some i \<and> Hostnames (Envs lc ! i) = rs
     \<and> envName (Envs lc ! i) = e \<and> i < length (Envs lc)"
  by (auto simp: records_def dest: GetEnv_Some)

lemma GetHostname_hit: "GetHostname e n = Some j \<Longrightarrow> n \<in> set (hostname_names (Hostnames e))"
  by (metis GetHostname_None_iff option.distinct(1))

lemma GetHostnameById_hit: "GetHostnameById e i = Some j \<Longrightarrow> i \<in> hId ` set (Hostnames e)"
  by (metis GetHostnameById_None_iff option.distinct(1))

interpretation conf: record_store records AddHostname UpdateHostname RemoveHostnameByEnvAndHostname
proof (unfold_locales, goal_cases)
  case (1 c e rs h now)
  from records_index [OF 1(1)] obtain i where
    i: "GetEnv c e = Some i" "Hostnames (Envs c ! i) = rs" "envName (Envs c ! i) = e" by blast
  let ?e = "(Envs c ! i)\<lparr>Hostnames := rs @ [stamp_id now h]\<rparr>"
  have "GetHostname (Envs c ! i) (hHostname h) = None"
    using 1(3) i by (simp add: GetHostname_None_iff)
  then have "AddHostname now c e h = Inr (c\<lparr>Envs := (Envs c)[i := ?e]\<rparr>)"
    using 1(2) i by (simp add: AddHostname_def EnvAddHostname_def Let_def)
  with records_put [OF i(1), of ?e] i show ?case by simp
next
  case (2 c e h now)
  then show ?case
    by (auto simp: AddHostname_def EnvAddHostname_def Let_def records_def
        dest: GetHostname_hit split: option.splits)
       (auto simp: GetHostname_None_iff)
next
  case (3 c e rs h)
  from records_index [OF 3(1)] obtain i where
    i: "GetEnv c e = Some i" "Hostnames (Envs c ! i) = rs" "envName (Envs c ! i) = e" by blast
  obtain j where j: "GetHostnameById (Envs c ! i) (hId h) = Some j"
    using 3(2) i by (metis GetHostnameById_None_iff option.exhaust)
  let ?e = "(Envs c ! i)\<lparr>Hostnames := rs[j := assign_fields (rs ! j) h]\<rparr>"
  have "UpdateHostname c e h = Inr (c\<lparr>Envs := (Envs c)[i := ?e]\<rparr>)"
    using i j by (simp add: UpdateHostname_def EnvUpdateHostname_def)
  with records_put [OF i(1), of ?e] i j show ?case
    by (simp add: update_first_def GetHostnameById_def)
next
  case (4 c e h)
  then show ?case
    by (auto simp: UpdateHostname_def EnvUpdateHostname_def records_def
        dest: GetHostnameById_hit split: option.splits)
next
  case (5 c e rs n)
  from records_index [OF 5(1)] obtain i where
    i: "GetEnv c e = Some i" "Hostnames (Envs c ! i) = rs" "envName (Envs c ! i) = e" by blast
  obtain j where j: "GetHostname (Envs c ! i) n = Some j"
    using 5(2) i by (metis GetHostname_None_iff option.exhaust)
  let ?e = "(Envs c ! i)\<lparr>Hostnames := remove_nth j rs\<rparr>"
  have "RemoveHostnameByEnvAndHostname c e n = Inr (c\<lparr>Envs := (Envs c)[i := ?e]\<rparr>)"
    using i j by (simp add: RemoveHostnameByEnvAndHostname_def RemoveHostname_def Let_def)
  with records_put [OF i(1), of ?e] i j show ?case
    by (simp add: remove_first_def GetHostname_def)
next
  case (6 c e n)
  then show ?case
    by (auto simp: RemoveHostnameByEnvAndHostname_def records_def
        dest: GetHostname_hit split: option.splits)
qed

section \<open>Every operation keeps the environment names distinct\<close>

lemma AddHostname_names: "AddHostname now lc e h = Inr lc' \<Longrightarrow> env_names lc' = env_names lc"
  by (auto simp: AddHostname_def EnvAddHostname_def Let_def env_names_put dest: GetEnv_Some
      split: option.splits if_splits sum.splits)

lemma AddHostname_active: "AddHostname now lc e h = Inr lc' \<Longrightarrow> ActiveEnv lc' = ActiveEnv lc"
  by (auto simp: AddHostname_def Let_def split: option.splits if_splits sum.splits)

lemma UpdateHostname_names: "UpdateHostname lc e h = Inr lc' \<Longrightarrow> env_names lc' = env_names lc"
  by (auto simp: UpdateHostname_def EnvUpdateHostname_def env_names_put dest: GetEnv_Some
      split: option.splits sum.splits)

lemma RemoveHostname_names:
  "RemoveHostnameByEnvAndHostname lc e n = Inr lc' \<Longrightarrow> env_names lc' = env_names lc"
  by (auto simp: RemoveHostnameByEnvAndHostname_def RemoveHostname_def Let_def env_names_put
      dest: GetEnv_Some split: option.splits)

lemma AddEnv_names: "AddEnv lc e = Inr lc' \<Longrightarrow> env_names lc' = env_names lc @ [envName e]
    \<and> envName e \<notin> set (env_names lc)"
  by (auto simp: AddEnv_def GetEnv_None_iff split: option.splits) (auto simp: env_names_def)

lemma SetActiveEnv_names:
  "SetActiveEnv lc e = Inr lc' \<Longrightarrow> env_names lc' = env_names lc \<and> ActiveEnv lc' = envName e
     \<and> envName e \<in> set (env_names lc)"
  by (auto simp: SetActiveEnv_def conf_simps split: option.splits) (metis GetEnv_None_iff option.distinct(1))

lemma RemoveEnvByName_wf: "RemoveEnvByName lc n = Inr lc' \<Longrightarrow> conf_wf lc \<Longrightarrow> conf_wf lc'"
  by (auto simp: RemoveEnvByName_def RemoveEnv_def conf_wf_def env_names_def map_remove_nth
      distinct_remove_nth split: option.splits)

lemmas conf_wf_ops = AddHostname_names UpdateHostname_names RemoveHostname_names AddEnv_names
  SetActiveEnv_names

section \<open>Properties\<close>

text \<open>
  Adding a record and deleting it by its name gives back the records of every environment.
\<close>

lemma add_then_delete:
  assumes "AddHostname now c e h = Inr c'"
  shows "\<exists>c''. RemoveHostnameByEnvAndHostname c' e (hHostname h) = Inr c'' \<and> records c'' = records c"
  using assms by (rule conf.del_after_add)

definition sample_conf :: Configuration where
  "sample_conf = \<lparr>Version = 2, RemoteDnsServers = [], Envs = [\<lparr>envName = '''', Hostnames =
     [\<lparr>hId = 1, hHostname = ''a'', hIp = ''1.2.3.4'', hTarget = '''', hTtl = 5, hType = ''A''\<rparr>,
      \<lparr>hId = 2, hHostname = ''b'', hIp = ''1.2.3.4'', hTarget = '''', hTtl = 5, hType = ''A''\<rparr>]\<rparr>],
     ActiveEnv = '''', WebServerPort = 0, DnsServerPort = 0, DefaultDns = None, LogLevel = '''', LogFile = '''',
     RegisterContainerNames = None, HostMachineHostname = '''', Domain = '''', DpsNetwork = None,
     DpsNetworkAutoConnect = None\<rparr>"

text \<open>
  Adding a record succeeds exactly when its environment exists, its type is given and no record of
  that environment has its name; the record is then appended, with the clock as its id when it had
  none, and nothing else changes.
\<close>

lemma add_hostname_exact:
  "case AddHostname now c e h of
     Inr c' \<Rightarrow> (\<exists>rs. records c e = Some rs \<and> hType h \<noteq> '''' \<and> hHostname h \<notin> set (hostname_names rs) \<and>
       records c' = (records c)(e \<mapsto> rs @ [stamp_id now h]) \<and> env_names c' = env_names c)
   | Inl msg \<Rightarrow> records c e = None \<or> hType h = '''' \<or>
       (\<exists>rs. records c e = Some rs \<and> hHostname h \<in> set (hostname_names rs))"
proof (cases "AddHostname now c e h")
  case (Inl msg)
  then show ?thesis using conf.add_iff [of now c e h] by (cases "records c e") auto
next
  case (Inr c')
  then have "hType h \<noteq> ''''" using conf.add_iff [of now c e h] by blast
  with Inr show ?thesis
    using AddHostname_names [OF Inr] by (auto elim!: conf.add_records)
qed

text \<open>
  Updating does not check the name: giving one record the name of another succeeds and leaves two
  records of that name in the environment, of which \<open>AddHostname\<close> admits only one.
\<close>

lemma update_can_duplicate:
  assumes "records c e = Some rs" and "rs = xs @ r # ys" and "hId r \<notin> hId ` set xs" and "r' \<in> set (xs @ ys)"
  shows "\<exists>c' rs'. UpdateHostname c e (r\<lparr>hHostname := hHostname r'\<rparr>) = Inr c' \<and> records c' e = Some rs' \<and>
    \<not> distinct (hostname_names rs')"
proof -
  let ?h = "r\<lparr>hHostname := hHostname r'\<rparr>"
  have "hId ?h \<in> hId ` set rs" using assms(2) by simp
  from conf.upd_ok [OF assms(1) this] obtain c' where
    c': "UpdateHostname c e ?h = Inr c'"
      "records c' = (records c)(e \<mapsto> update_first (\<lambda>q. hId q = hId r) (\<lambda>q. assign_fields q ?h) rs)" by auto
  have "index_where (\<lambda>q. hId q = hId r) xs = None" using assms(3) by (simp add: index_where_None) (metis image_eqI)
  then have "update_first (\<lambda>q. hId q = hId r) (\<lambda>q. assign_fields q ?h) rs = xs @ assign_fields r ?h # ys"
    by (simp add: update_first_def assms(2) index_where_append)
  moreover have "hHostname (assign_fields r ?h) = hHostname r'" by (simp add: assign_fields_def)
  ultimately show ?thesis
    using c' assms(4) by (auto simp: hostname_names_def intro!: exI [of _ c'])
qed

end
