(* ===== verification/Cache.thy ===== *)
theory Cache
  imports Prelude
begin

text \<open>
  The caches of \<open>src/cache\<close>: the LRU cache (\<open>lru/lru.go\<close> over the vendored
  \<open>simplelru/lru.go\<close>), the timed cache on top of it (\<open>timed/\<close>) and the registry of
  caches (\<open>store/store.go\<close>). An LRU cache is its capacity and its entries, the most
  recently used first, which is the order of \<open>evictList\<close>; the \<open>items\<close> index of the
  source is the lookup in that list. Times and durations are nanoseconds.
\<close>

section \<open>The contract of cache.Cache\<close>

text \<open>
  What the callers of the interface in \<open>src/cache/cache.go\<close> rely on. A read may reorder
  the entries and a write may evict other keys, so the laws speak of the values read later.
\<close>

locale cache_contract =
  fixes cget :: "'c \<Rightarrow> 'k \<Rightarrow> 'v option \<times> 'c"
    and cput :: "'c \<Rightarrow> 'k \<Rightarrow> 'v \<Rightarrow> 'c"
    and cremove :: "'c \<Rightarrow> 'k \<Rightarrow> 'c"
    and cclear :: "'c \<Rightarrow> 'c"
    and ccontains :: "'c \<Rightarrow> 'k \<Rightarrow> bool"
    and cinv :: "'c \<Rightarrow> bool"
  assumes get_put_same: "cinv c \<Longrightarrow> fst (cget (cput c k v) k) = Some v"
    and get_put_other: "cinv c \<Longrightarrow> k' \<noteq> k \<Longrightarrow>
      fst (cget (cput c k v) k') = fst (cget c k') \<or> fst (cget (cput c k v) k') = None"
    and get_get: "cinv c \<Longrightarrow> fst (cget (snd (cget c k)) k') = fst (cget c k')"
    and get_remove: "cinv c \<Longrightarrow>
      fst (cget (cremove c k) k') = (if k' = k then None else fst (cget c k'))"
    and get_clear: "fst (cget (cclear c) k) = None"
    and contains_get: "cinv c \<Longrightarrow> ccontains c k \<longleftrightarrow> fst (cget c k) \<noteq> None"
    and inv_get: "cinv c \<Longrightarrow> cinv (snd (cget c k))"
    and inv_put: "cinv c \<Longrightarrow> cinv (cput c k v)"
    and inv_remove: "cinv c \<Longrightarrow> cinv (cremove c k)"
    and inv_clear: "cinv c \<Longrightarrow> cinv (cclear c)"
begin

text \<open>A value read is the last value written for its key, or nothing.\<close>

lemma get_put_only:
  "cinv c \<Longrightarrow> fst (cget (cput c k v) k') = Some w \<Longrightarrow> (k' = k \<and> w = v) \<or> fst (cget c k') = Some w"
  by (metis get_put_other get_put_same option.distinct(1) option.inject)

lemma get_after_get: "cinv c \<Longrightarrow> cget c k = (r, c') \<Longrightarrow> fst (cget c' k) = r"
  by (metis fst_conv get_get snd_conv)

end

section \<open>The LRU cache\<close>

record ('k, 'v) lru =
  lru_size :: nat
  lru_entries :: "('k \<times> 'v) list"

definition drop_key :: "'k \<Rightarrow> ('k \<times> 'v) list \<Rightarrow> ('k \<times> 'v) list" where
  "drop_key k es = filter (\<lambda>e. fst e \<noteq> k) es"

definition NewLRU :: "int \<Rightarrow> ('k, 'v) lru option" where
  "NewLRU sz = (if sz \<le> 0 then None else Some \<lparr>lru_size = nat sz, lru_entries = []\<rparr>)"

definition lru_Contains :: "('k, 'v) lru \<Rightarrow> 'k \<Rightarrow> bool" where
  "lru_Contains c k \<longleftrightarrow> map_of (lru_entries c) k \<noteq> None"

definition lru_Get :: "('k, 'v) lru \<Rightarrow> 'k \<Rightarrow> 'v option \<times> ('k, 'v) lru" where
  "lru_Get c k =
     (case map_of (lru_entries c) k of
        Some v \<Rightarrow> (Some v, c\<lparr>lru_entries := (k, v) # drop_key k (lru_entries c)\<rparr>)
      | None \<Rightarrow> (None, c))"

definition lru_Add :: "('k, 'v) lru \<Rightarrow> 'k \<Rightarrow> 'v \<Rightarrow> ('k, 'v) lru" where
  "lru_Add c k v =
     (if lru_Contains c k then c\<lparr>lru_entries := (k, v) # drop_key k (lru_entries c)\<rparr>
      else
        let es = (k, v) # lru_entries c in
        c\<lparr>lru_entries := (if lru_size c < length es then butlast es else es)\<rparr>)"

definition lru_Remove :: "('k, 'v) lru \<Rightarrow> 'k \<Rightarrow> ('k, 'v) lru" where
  "lru_Remove c k = c\<lparr>lru_entries := drop_key k (lru_entries c)\<rparr>"

definition lru_Purge :: "('k, 'v) lru \<Rightarrow> ('k, 'v) lru" where
  "lru_Purge c = c\<lparr>lru_entries := []\<rparr>"

definition lru_Keys :: "('k, 'v) lru \<Rightarrow> 'k list" where
  \<comment> \<open>from oldest to newest\<close>
  "lru_Keys c = rev (map fst (lru_entries c))"

definition lru_Len :: "('k, 'v) lru \<Rightarrow> nat" where
  "lru_Len c = length (lru_entries c)"

definition PutIfAbsent :: "('k, 'v) lru \<Rightarrow> 'k \<Rightarrow> 'v \<Rightarrow> 'v option \<times> ('k, 'v) lru" where
  "PutIfAbsent c k v = (if lru_Contains c k then lru_Get c k else (None, lru_Add c k v))"

definition lru_inv :: "('k, 'v) lru \<Rightarrow> bool" where
  "lru_inv c \<longleftrightarrow> 0 < lru_size c \<and> distinct (map fst (lru_entries c))
     \<and> length (lru_entries c) \<le> lru_size c"

subsection \<open>Lookups and the invariant\<close>

lemma map_of_drop_key: "map_of (drop_key k es) k' = (if k' = k then None else map_of es k')"
  by (induction es) (auto simp: drop_key_def)

lemma distinct_drop_key: "distinct (map fst es) \<Longrightarrow> distinct (map fst (drop_key k es))"
  by (simp add: drop_key_def distinct_map_filter)

lemma drop_key_fresh: "k \<notin> fst ` set (drop_key k es)"
  by (auto simp: drop_key_def)

lemma length_drop_key: "map_of es k = Some v \<Longrightarrow> length (drop_key k es) < length es"
  unfolding drop_key_def by (rule length_filter_less [of "(k, v)"]) (auto dest: map_of_SomeD)

lemma map_of_butlast:
  "distinct (map fst es) \<Longrightarrow> map_of (butlast es) k = map_of es k \<or> map_of (butlast es) k = None"
proof (induction es rule: rev_induct)
  case (snoc e es)
  then have "fst e \<notin> fst ` set es" by (auto simp: image_iff)
  then have "map_of es (fst e) = None" by (simp add: map_of_eq_None_iff)
  then show ?case by (cases e) (auto simp: map_add_def split: option.splits)
qed simp

lemma fst_lru_Get: "fst (lru_Get c k) = map_of (lru_entries c) k"
  by (simp add: lru_Get_def split: option.splits)

lemma map_of_lru_Get: "map_of (lru_entries (snd (lru_Get c k))) k' = map_of (lru_entries c) k'"
  by (auto simp: lru_Get_def map_of_drop_key split: option.splits)

lemma lru_Get_inv: "lru_inv c \<Longrightarrow> lru_inv (snd (lru_Get c k))"
proof (cases "map_of (lru_entries c) k")
  case (Some v)
  assume "lru_inv c"
  with Some length_drop_key [OF Some] drop_key_fresh [of k "lru_entries c"] show ?thesis
    by (auto simp: lru_inv_def lru_Get_def distinct_drop_key)
qed (simp add: lru_Get_def)

lemma lru_Purge_inv: "lru_inv c \<Longrightarrow> lru_inv (lru_Purge c)"
  by (simp add: lru_inv_def lru_Purge_def)

lemma lru_Remove_inv: "lru_inv c \<Longrightarrow> lru_inv (lru_Remove c k)"
  by (auto simp: lru_inv_def lru_Remove_def distinct_drop_key)
     (metis drop_key_def le_trans length_filter_le)

lemma lru_Add_inv: "lru_inv c \<Longrightarrow> lru_inv (lru_Add c k v)"
proof (cases "lru_Contains c k")
  case True
  assume "lru_inv c"
  moreover from True have "length (drop_key k (lru_entries c)) < length (lru_entries c)"
    by (auto simp: lru_Contains_def dest: length_drop_key)
  ultimately show ?thesis
    using True drop_key_fresh [of k "lru_entries c"]
    by (auto simp: lru_inv_def lru_Add_def distinct_drop_key)
next
  case False
  assume inv: "lru_inv c"
  from False have "k \<notin> fst ` set (lru_entries c)"
    by (simp add: lru_Contains_def map_of_eq_None_iff)
  with inv have d: "distinct (map fst ((k, v) # lru_entries c))"
    by (simp add: lru_inv_def)
  then have "distinct (map fst (butlast ((k, v) # lru_entries c)))"
    by (metis distinct_butlast map_butlast)
  with d inv False show ?thesis
    by (auto simp: lru_inv_def lru_Add_def Let_def)
qed

lemma map_of_lru_Add_same: "lru_inv c \<Longrightarrow> map_of (lru_entries (lru_Add c k v)) k = Some v"
  by (cases "lru_entries c") (auto simp: lru_Add_def Let_def lru_inv_def)

lemma map_of_lru_Add_other:
  assumes "lru_inv c" and "k' \<noteq> k"
  shows "map_of (lru_entries (lru_Add c k v)) k' = map_of (lru_entries c) k'
    \<or> map_of (lru_entries (lru_Add c k v)) k' = None"
proof (cases "lru_Contains c k")
  case True
  with assms show ?thesis by (simp add: lru_Add_def map_of_drop_key)
next
  case False
  with assms have "distinct (map fst ((k, v) # lru_entries c))"
    by (auto simp: lru_inv_def lru_Contains_def map_of_eq_None_iff)
  from map_of_butlast [OF this, of k'] assms False show ?thesis
    by (auto simp: lru_Add_def Let_def)
qed

lemma map_of_lru_Remove:
  "map_of (lru_entries (lru_Remove c k)) k' = (if k' = k then None else map_of (lru_entries c) k')"
  by (simp add: lru_Remove_def map_of_drop_key)

lemma lru_entries_Purge [simp]: "lru_entries (lru_Purge c) = []"
  by (simp add: lru_Purge_def)

interpretation lruc: cache_contract lru_Get lru_Add lru_Remove lru_Purge lru_Contains lru_inv
  by unfold_locales
     (auto simp: fst_lru_Get map_of_lru_Add_same map_of_lru_Add_other map_of_lru_Get
       lru_Get_inv lru_Add_inv lru_Remove_inv lru_Purge_inv map_of_lru_Remove lru_Contains_def)

lemma PutIfAbsent_spec:
  assumes "lru_inv c"
  shows "fst (PutIfAbsent c k v) = fst (lru_Get c k)"
    and "fst (lru_Get (snd (PutIfAbsent c k v)) k) =
      Some (case fst (lru_Get c k) of None \<Rightarrow> v | Some w \<Rightarrow> w)"
    and "lru_inv (snd (PutIfAbsent c k v))"
  using assms
  by (auto simp: PutIfAbsent_def lruc.contains_get lruc.get_put_same lruc.get_get lruc.inv_put
      lruc.inv_get)

lemma NewLRU_inv: "NewLRU sz = Some c \<Longrightarrow> lru_inv c"
  by (auto simp: NewLRU_def lru_inv_def split: if_splits)

section \<open>The timed cache\<close>

text \<open>
  \<open>PutTTL\<close> stores a \<open>TimedValue\<close>, \<open>PutIfAbsent\<close> hands the raw value to the delegate;
  the readers accept only a \<open>TimedValue\<close> (a type assertion).
\<close>

record 'v timed_value =
  CreationDate :: int
  TimeoutDuration :: int
  Val :: 'v

datatype 'v timed_entry = IsTimed "'v timed_value" | IsRaw 'v

type_synonym ('k, 'v) timed_delegate = "('k, 'v timed_entry) lru"

record ('k, 'v) timed_cache =
  tc_cache :: "('k, 'v) timed_delegate"
  tc_ttl :: int

definition second :: int where "second = 1000000000"

definition NewTimedValue :: "'v \<Rightarrow> int \<Rightarrow> int \<Rightarrow> 'v timed_value" where
  "NewTimedValue v creation timeout = \<lparr>CreationDate = creation, TimeoutDuration = timeout, Val = v\<rparr>"

definition IsValid :: "'v timed_value \<Rightarrow> int \<Rightarrow> bool" where
  "IsValid t now \<longleftrightarrow> TimeoutDuration t > now - CreationDate t"

definition TimedRemove :: "('k, 'v) timed_cache \<Rightarrow> 'k \<Rightarrow> ('k, 'v) timed_cache" where
  "TimedRemove c k = c\<lparr>tc_cache := lru_Remove (tc_cache c) k\<rparr>"

definition GetTimeValue ::
  "int \<Rightarrow> ('k, 'v) timed_cache \<Rightarrow> 'k \<Rightarrow> 'v timed_value option \<times> ('k, 'v) timed_cache" where
  "GetTimeValue now c k =
     (let (r, d) = lru_Get (tc_cache c) k; c' = c\<lparr>tc_cache := d\<rparr> in
      case r of
        Some (IsTimed v) \<Rightarrow> if IsValid v now then (Some v, c') else (None, TimedRemove c' k)
      | _ \<Rightarrow> (None, c'))"

definition TimedGet :: "int \<Rightarrow> ('k, 'v) timed_cache \<Rightarrow> 'k \<Rightarrow> 'v option \<times> ('k, 'v) timed_cache" where
  "TimedGet now c k =
     (let (r, d) = lru_Get (tc_cache c) k; c' = c\<lparr>tc_cache := d\<rparr> in
      case r of
        Some (IsTimed v) \<Rightarrow> if IsValid v now then (Some (Val v), c') else (None, TimedRemove c' k)
      | _ \<Rightarrow> (None, c'))"

definition PutTTL ::
  "int \<Rightarrow> ('k, 'v) timed_cache \<Rightarrow> 'k \<Rightarrow> 'v \<Rightarrow> int \<Rightarrow> ('k, 'v) timed_cache" where
  "PutTTL now c k v ttl =
     c\<lparr>tc_cache := lru_Add (tc_cache c) k (IsTimed (NewTimedValue v now (ttl * second)))\<rparr>"

definition TimedPut :: "int \<Rightarrow> ('k, 'v) timed_cache \<Rightarrow> 'k \<Rightarrow> 'v \<Rightarrow> ('k, 'v) timed_cache" where
  "TimedPut now c k v = PutTTL now c k v (tc_ttl c)"

definition TimedPutIfAbsent ::
  "('k, 'v) timed_cache \<Rightarrow> 'k \<Rightarrow> 'v \<Rightarrow> 'v timed_entry option \<times> ('k, 'v) timed_cache" where
  "TimedPutIfAbsent c k v =
     (let (r, d) = PutIfAbsent (tc_cache c) k (IsRaw v) in (r, c\<lparr>tc_cache := d\<rparr>))"

definition TimedClear :: "('k, 'v) timed_cache \<Rightarrow> ('k, 'v) timed_cache" where
  "TimedClear c = c\<lparr>tc_cache := lru_Purge (tc_cache c)\<rparr>"

definition NewTimed :: "('k, 'v) timed_delegate \<Rightarrow> int \<Rightarrow> ('k, 'v) timed_cache" where
  "NewTimed delegate defaultTTL = \<lparr>tc_cache = delegate, tc_ttl = defaultTTL\<rparr>"

definition timed_inv :: "('k, 'v) timed_cache \<Rightarrow> bool" where
  "timed_inv c \<longleftrightarrow> lru_inv (tc_cache c)"

lemma TimedGet_via_GetTimeValue:
  "TimedGet now c k = (map_option Val (fst (GetTimeValue now c k)), snd (GetTimeValue now c k))"
  by (auto simp: TimedGet_def GetTimeValue_def Let_def
      split: prod.splits option.splits timed_entry.splits)

lemma GetTimeValue_inv: "timed_inv c \<Longrightarrow> timed_inv (snd (GetTimeValue now c k))"
  using lruc.inv_get [of "tc_cache c" k]
  by (auto simp: GetTimeValue_def Let_def timed_inv_def TimedRemove_def lruc.inv_remove
      split: prod.splits option.splits timed_entry.splits)

lemma PutTTL_inv: "timed_inv c \<Longrightarrow> timed_inv (PutTTL now c k v ttl)"
  by (simp add: timed_inv_def PutTTL_def lruc.inv_put)

lemma fst_GetTimeValue:
  "fst (GetTimeValue now c k) =
     (case fst (lru_Get (tc_cache c) k) of
        Some (IsTimed v) \<Rightarrow> if IsValid v now then Some v else None | _ \<Rightarrow> None)"
  by (auto simp: GetTimeValue_def Let_def split: prod.splits option.splits timed_entry.splits)

lemma GetTimeValue_PutTTL:
  assumes "timed_inv c"
  shows "fst (GetTimeValue now' (PutTTL now c k v ttl) k) =
    (if now' - now < ttl * second then Some (NewTimedValue v now (ttl * second)) else None)"
  using assms
  by (auto simp: fst_GetTimeValue PutTTL_def timed_inv_def lruc.get_put_same IsValid_def
      NewTimedValue_def)

lemma GetTimeValue_Clear: "fst (GetTimeValue now (TimedClear c) k) = None"
  by (simp add: fst_GetTimeValue TimedClear_def lruc.get_clear)

lemma TimedPutIfAbsent_unreadable:
  assumes "timed_inv c" and "fst (lru_Get (tc_cache c) k) = None"
  shows "fst (GetTimeValue now (snd (TimedPutIfAbsent c k v)) k) = None"
proof -
  have "fst (lru_Get (tc_cache (snd (TimedPutIfAbsent c k v))) k) = Some (IsRaw v)"
    using assms PutIfAbsent_spec(2) [of "tc_cache c" k "IsRaw v"]
    by (auto simp: TimedPutIfAbsent_def timed_inv_def split: prod.splits)
  then show ?thesis by (simp add: fst_GetTimeValue)
qed

section \<open>The registry\<close>

text \<open>
  \<open>mainCache\<close> is the singleton of \<open>store.GetInstance\<close>; \<open>caches\<close> are the caches
  handed to \<open>RegisterCache\<close>, all of them timed caches.
\<close>

record ('v, 'm) cache_store =
  mainCache :: "(string, 'v) lru"
  caches :: "(string, 'm) timed_cache list"

definition RegisterCache ::
  "('v, 'm) cache_store \<Rightarrow> (string, 'm) timed_cache \<Rightarrow> ('v, 'm) cache_store" where
  "RegisterCache st c = st\<lparr>caches := caches st @ [c]\<rparr>"

definition ClearAllCaches :: "('v, 'm) cache_store \<Rightarrow> ('v, 'm) cache_store" where
  "ClearAllCaches st =
     st\<lparr>mainCache := lru_Purge (mainCache st), caches := map TimedClear (caches st)\<rparr>"

definition store_inv :: "('v, 'm) cache_store \<Rightarrow> bool" where
  "store_inv st \<longleftrightarrow> lru_inv (mainCache st) \<and> list_all timed_inv (caches st)"

definition store_empty :: "('v, 'm) cache_store \<Rightarrow> bool" where
  \<comment> \<open>nothing can be read from any cache\<close>
  "store_empty st \<longleftrightarrow> lru_entries (mainCache st) = []
     \<and> list_all (\<lambda>c. lru_entries (tc_cache c) = []) (caches st)"

lemma ClearAllCaches_empty: "store_empty (ClearAllCaches st)"
  by (simp add: store_empty_def ClearAllCaches_def list_all_iff TimedClear_def)

lemma ClearAllCaches_inv: "store_inv st \<Longrightarrow> store_inv (ClearAllCaches st)"
  by (auto simp: store_inv_def ClearAllCaches_def list_all_iff timed_inv_def TimedClear_def
      lruc.inv_clear)

section \<open>Properties\<close>

lemma lru_size_Add [simp]: "lru_size (lru_Add c k v) = lru_size c"
  by (simp add: lru_Add_def Let_def)

text \<open>
  The LRU cache never holds more than its size, and when it is full, adding a new key evicts the
  least recently used one and no other: the new keys, from oldest to newest, are the old ones
  without the oldest, then the new key.
\<close>

lemma lru_add_keys:
  assumes "lru_inv c"
  shows "lru_Len (lru_Add c k v) \<le> lru_size c \<and>
    lru_Keys (lru_Add c k v) =
      (if lru_Contains c k then filter (\<lambda>x. x \<noteq> k) (lru_Keys c) @ [k]
       else if lru_Len c = lru_size c then tl (lru_Keys c) @ [k] else lru_Keys c @ [k])"
proof (cases "lru_Contains c k")
  case True
  then have "map fst (drop_key k (lru_entries c)) = filter (\<lambda>x. x \<noteq> k) (map fst (lru_entries c))"
    by (simp add: drop_key_def filter_map o_def)
  moreover have "lru_Len (lru_Add c k v) \<le> lru_size c"
    using lruc.inv_put [OF assms, of k v] lru_size_Add by (simp add: lru_inv_def lru_Len_def)
  ultimately show ?thesis using True by (simp add: lru_Add_def lru_Keys_def rev_filter)
next
  case False
  moreover have "rev (butlast (map fst (lru_entries c))) = tl (rev (map fst (lru_entries c)))"
    by (metis butlast_rev rev_rev_ident)
  ultimately show ?thesis
    using assms by (auto simp: lru_Add_def lru_Keys_def lru_Len_def Let_def lru_inv_def map_butlast)
qed

text \<open>
  A value put into the timed cache with a time to live is read back exactly until that time has
  passed, to the nanosecond, and not any more after that.
\<close>

lemma timed_value_expires:
  assumes "timed_inv c"
  shows "fst (TimedGet now' (PutTTL now c k v ttl) k) = (if now' - now < ttl * second then Some v else None)"
  using GetTimeValue_PutTTL [OF assms, of now' now k v ttl]
  by (simp add: TimedGet_via_GetTimeValue NewTimedValue_def)

text \<open>
  \<open>PutIfAbsent\<close> of the timed cache stores a value that no reader of that cache ever returns: it is
  put without a time, and the readers accept only values with one.
\<close>

lemma put_if_absent_unreadable:
  assumes "timed_inv c" and "fst (lru_Get (tc_cache c) k) = None"
  shows "fst (TimedGet now (snd (TimedPutIfAbsent c k v)) k) = None \<and>
    lru_Contains (tc_cache (snd (TimedPutIfAbsent c k v))) k"
proof
  show "fst (TimedGet now (snd (TimedPutIfAbsent c k v)) k) = None"
    using TimedPutIfAbsent_unreadable [OF assms] by (simp add: TimedGet_via_GetTimeValue)
  have "\<not> lru_Contains (tc_cache c) k" using assms(2) by (auto simp: lru_Get_def lru_Contains_def split: option.splits)
  then show "lru_Contains (tc_cache (snd (TimedPutIfAbsent c k v))) k"
    using assms(1) lruc.get_put_same [of "tc_cache c" k "IsRaw v"]
    by (auto simp: TimedPutIfAbsent_def PutIfAbsent_def timed_inv_def lru_Get_def lru_Contains_def split: option.splits)
qed

end
