(* ===== verification/Storage.thy ===== *)
theory Storage
  imports LocalVo Cache
begin

text \<open>
  The configuration file: its two formats (\<open>src/events/local/storagev1\<close> and
  \<open>storagev2\<close>) and the operations of \<open>src/events/local/local.go\<close> that load it, change it
  and save it. The file holds the value \<open>encoding/json\<close> would read back from the text it
  wrote, so a file is a value of the format's struct, or one of the shapes that do not
  load. The clock is the sequence of readings of \<open>time.Now().UnixNano()\<close>; a panic leaves
  the state of the server as it was before the operation.
\<close>

section \<open>Format 1\<close>

record HostnameV1 =
  v1Id :: int
  v1Hostname :: string
  v1Ip :: "u8 list"
  v1Target :: string
  v1Ttl :: int
  v1Env :: string
  v1Type :: string

record EnvV1 =
  v1Name :: string
  v1Hostnames :: "HostnameV1 list"

record ConfigurationV1 =
  c1RemoteDnsServers :: "u8 list list"
  c1Envs :: "EnvV1 list"
  c1ActiveEnv :: string
  c1WebServerPort :: int
  c1DnsServerPort :: int
  c1DefaultDns :: "bool option"
  c1LogLevel :: string
  c1LogFile :: string
  c1RegisterContainerNames :: "bool option"
  c1HostMachineHostname :: string
  c1Domain :: string

definition fromHostname1 :: "Hostname \<Rightarrow> (go_panic, HostnameV1) result" where
  "fromHostname1 h =
     (case ToIpByteArray zero_ip (hIp h) of
        Inl p \<Rightarrow> Inl p
      | Inr ip \<Rightarrow>
          Inr \<lparr>v1Id = hId h, v1Hostname = hHostname h, v1Ip = ip, v1Target = hTarget h,
            v1Ttl = hTtl h, v1Env = '''', v1Type = hType h\<rparr>)"

definition fromEnv1 :: "Env \<Rightarrow> (go_panic, EnvV1) result" where
  "fromEnv1 e =
     (case map_result fromHostname1 (Hostnames e) of
        Inl p \<Rightarrow> Inl p | Inr hs \<Rightarrow> Inr \<lparr>v1Name = envName e, v1Hostnames = hs\<rparr>)"

definition ValueOf1 :: "Configuration \<Rightarrow> (go_panic, ConfigurationV1) result" where
  "ValueOf1 c =
     (case map_result fromEnv1 (Envs c) of
        Inl p \<Rightarrow> Inl p
      | Inr es \<Rightarrow>
          (case ServersToByteArray (RemoteDnsServers c) of
             Inl p \<Rightarrow> Inl p
           | Inr rs \<Rightarrow>
               Inr \<lparr>c1RemoteDnsServers = rs, c1Envs = es, c1ActiveEnv = ActiveEnv c,
                 c1WebServerPort = WebServerPort c, c1DnsServerPort = DnsServerPort c,
                 c1DefaultDns = DefaultDns c, c1LogLevel = LogLevel c, c1LogFile = LogFile c,
                 c1RegisterContainerNames = RegisterContainerNames c,
                 c1HostMachineHostname = HostMachineHostname c, c1Domain = Domain c\<rparr>))"

definition fillHostname1 :: "HostnameV1 \<Rightarrow> Hostname" where
  "fillHostname1 v = \<lparr>hId = v1Id v, hHostname = v1Hostname v, hIp = ToIpString (v1Ip v),
     hTarget = v1Target v, hTtl = v1Ttl v, hType = v1Type v\<rparr>"

definition toEnvs1 :: "EnvV1 list \<Rightarrow> Env list" where
  "toEnvs1 vs = map (\<lambda>v. \<lparr>envName = v1Name v, Hostnames = map fillHostname1 (v1Hostnames v)\<rparr>) vs"

definition ToConfig1 :: "ConfigurationV1 \<Rightarrow> (go_panic, Configuration) result" where
  "ToConfig1 c =
     (case ByteArrayToDnsServer (c1RemoteDnsServers c) of
        Inl p \<Rightarrow> Inl p
      | Inr rs \<Rightarrow>
          Inr \<lparr>Version = 1, RemoteDnsServers = rs, Envs = toEnvs1 (c1Envs c),
            ActiveEnv = c1ActiveEnv c, WebServerPort = c1WebServerPort c,
            DnsServerPort = c1DnsServerPort c, DefaultDns = c1DefaultDns c,
            LogLevel = c1LogLevel c, LogFile = c1LogFile c,
            RegisterContainerNames = c1RegisterContainerNames c,
            HostMachineHostname = c1HostMachineHostname c, Domain = c1Domain c,
            DpsNetwork = None, DpsNetworkAutoConnect = None\<rparr>)"

section \<open>Format 2\<close>

record HostnameV2 =
  v2Id :: int
  v2Hostname :: string
  v2Ip :: string
  v2Target :: string
  v2Ttl :: int
  v2Type :: string

record EnvV2 =
  v2Name :: string
  v2Hostnames :: "HostnameV2 list"

record ConfigurationV2 =
  c2Version :: int
  c2RemoteDnsServers :: "string list"
  c2Envs :: "EnvV2 list"
  c2ActiveEnv :: string
  c2WebServerPort :: int
  c2DnsServerPort :: int
  c2DefaultDns :: "bool option"
  c2LogLevel :: string
  c2LogFile :: string
  c2RegisterContainerNames :: "bool option"
  c2HostMachineHostname :: string
  c2Domain :: string
  c2DpsNetwork :: "bool option"
  c2DpsNetworkAutoConnect :: "bool option"

definition fillV2Hostname :: "Hostname \<Rightarrow> HostnameV2" where
  "fillV2Hostname h = \<lparr>v2Id = hId h, v2Hostname = hHostname h, v2Ip = hIp h, v2Target = hTarget h,
     v2Ttl = hTtl h, v2Type = hType h\<rparr>"

definition toV2Env :: "Env \<Rightarrow> EnvV2" where
  "toV2Env e = \<lparr>v2Name = envName e, v2Hostnames = map fillV2Hostname (Hostnames e)\<rparr>"

definition ValueOf2 :: "Configuration \<Rightarrow> ConfigurationV2" where
  "ValueOf2 c =
     \<lparr>c2Version = 2, c2RemoteDnsServers = ToIpsStringArray (RemoteDnsServers c),
       c2Envs = map toV2Env (Envs c), c2ActiveEnv = ActiveEnv c,
       c2WebServerPort = WebServerPort c, c2DnsServerPort = DnsServerPort c,
       c2DefaultDns = DefaultDns c, c2LogLevel = LogLevel c, c2LogFile = LogFile c,
       c2RegisterContainerNames = RegisterContainerNames c,
       c2HostMachineHostname = HostMachineHostname c, c2Domain = Domain c,
       c2DpsNetwork = DpsNetwork c, c2DpsNetworkAutoConnect = DpsNetworkAutoConnect c\<rparr>"

definition fillHostname2 :: "HostnameV2 \<Rightarrow> Hostname" where
  "fillHostname2 v = \<lparr>hId = v2Id v, hHostname = v2Hostname v, hIp = v2Ip v, hTarget = v2Target v,
     hTtl = v2Ttl v, hType = v2Type v\<rparr>"

definition toEnvs2 :: "EnvV2 list \<Rightarrow> Env list" where
  "toEnvs2 vs = map (\<lambda>v. \<lparr>envName = v2Name v, Hostnames = map fillHostname2 (v2Hostnames v)\<rparr>) vs"

definition ToConfig2 :: "ConfigurationV2 \<Rightarrow> (go_panic, Configuration) result" where
  "ToConfig2 c =
     (case StringArrayToDnsServer (c2RemoteDnsServers c) of
        Inl p \<Rightarrow> Inl p
      | Inr rs \<Rightarrow>
          Inr \<lparr>Version = 2, RemoteDnsServers = rs, Envs = toEnvs2 (c2Envs c),
            ActiveEnv = c2ActiveEnv c, WebServerPort = c2WebServerPort c,
            DnsServerPort = c2DnsServerPort c, DefaultDns = c2DefaultDns c,
            LogLevel = c2LogLevel c, LogFile = c2LogFile c,
            RegisterContainerNames = c2RegisterContainerNames c,
            HostMachineHostname = c2HostMachineHostname c, Domain = c2Domain c,
            DpsNetwork = c2DpsNetwork c, DpsNetworkAutoConnect = c2DpsNetworkAutoConnect c\<rparr>)"

section \<open>The server's state\<close>

datatype conf_file =
    NoFile
  | Unreadable string \<comment> \<open>the text of the error of \<open>ioutil.ReadFile\<close>\<close>
  | MalformedJson string \<comment> \<open>the text of the error of \<open>json.Unmarshal\<close>\<close>
  | UnknownVersion
  | NonNumericVersion
  | FileV1 ConfigurationV1
  | FileV2 ConfigurationV2

datatype cached = CachedConf Configuration | CachedBool bool | CachedString string

record 'm server =
  srv_file :: conf_file
  srv_mkdir_ok :: bool
  srv_writable :: bool
  srv_store :: "(cached, 'm) cache_store"
  srv_clock :: "nat \<Rightarrow> int"
  srv_ticks :: nat

type_synonym ('m, 'a) go = "'m server \<Rightarrow> (go_panic, 'a \<times> 'm server) result"

section \<open>local.go\<close>

definition NewEmptyEnv :: "Env list" where
  "NewEmptyEnv = [\<lparr>envName = '''', Hostnames = []\<rparr>]"

definition storeToFile :: "conf_file \<Rightarrow> 'm server \<Rightarrow> 'm server" where
  "storeToFile f s =
     (if srv_writable s then s\<lparr>srv_file := f, srv_store := ClearAllCaches (srv_store s)\<rparr> else s)"

definition SaveConfiguration :: "Configuration \<Rightarrow> ('m, Configuration) go" where
  "SaveConfiguration c s =
     (let c' = (if Envs c = [] then c\<lparr>Envs := NewEmptyEnv\<rparr> else c) in
      if Version c' = 2 then Inr (c', storeToFile (FileV2 (ValueOf2 c')) s)
      else (case ValueOf1 c' of Inl p \<Rightarrow> Inl p | Inr v \<Rightarrow> Inr (c', storeToFile (FileV1 v) s)))"

definition default_config :: Configuration where
  "default_config =
     \<lparr>Version = 2, RemoteDnsServers = [], Envs = [], ActiveEnv = '''', WebServerPort = 0,
       DnsServerPort = 0, DefaultDns = None, LogLevel = '''', LogFile = '''',
       RegisterContainerNames = None, HostMachineHostname = '''', Domain = '''',
       DpsNetwork = Some False, DpsNetworkAutoConnect = Some False\<rparr>"

definition storeDefaultConfig :: "Configuration \<Rightarrow> ('m, Configuration) go" where
  "storeDefaultConfig c s = (if srv_mkdir_ok s then SaveConfiguration c s else Inr (c, s))"

fun LoadVersionedConfiguration :: "conf_file \<Rightarrow> (go_panic, (string, Configuration) result) result" where
  "LoadVersionedConfiguration (FileV1 v) =
     (case ToConfig1 v of Inl p \<Rightarrow> Inl p | Inr c \<Rightarrow> Inr (Inr c))"
| "LoadVersionedConfiguration (FileV2 v) =
     (case ToConfig2 v of Inl p \<Rightarrow> Inl p | Inr c \<Rightarrow> Inr (Inr c))"
| "LoadVersionedConfiguration UnknownVersion = Inr (Inl ''unrecognized version'')"
| "LoadVersionedConfiguration NonNumericVersion = Inl PanicTypeAssertion"
| "LoadVersionedConfiguration (MalformedJson err) = Inr (Inl err)"
| "LoadVersionedConfiguration (Unreadable err) = Inr (Inl err)"
| "LoadVersionedConfiguration NoFile = Inr (Inl ''can not read'')"

fun set_ids :: "(nat \<Rightarrow> int) \<Rightarrow> nat \<Rightarrow> Hostname list \<Rightarrow> Hostname list \<times> nat" where
  "set_ids clk t [] = ([], t)"
| "set_ids clk t (h # hs) =
     (if hId h = 0
      then (let (hs', t') = set_ids clk (Suc t) hs in (h\<lparr>hId := clk t\<rparr> # hs', t'))
      else (let (hs', t') = set_ids clk t hs in (h # hs', t')))"

fun set_env_ids :: "(nat \<Rightarrow> int) \<Rightarrow> nat \<Rightarrow> Env list \<Rightarrow> Env list \<times> nat" where
  "set_env_ids clk t [] = ([], t)"
| "set_env_ids clk t (e # es) =
     (let (hs, t') = set_ids clk t (Hostnames e); (es', t'') = set_env_ids clk t' es
      in (e\<lparr>Hostnames := hs\<rparr> # es', t''))"

definition setHostnameIds :: "Configuration \<Rightarrow> ('m, Configuration) go" where
  "setHostnameIds c s =
     (let (es, t) = set_env_ids (srv_clock s) (srv_ticks s) (Envs c);
          c' = c\<lparr>Envs := es\<rparr>; s' = s\<lparr>srv_ticks := t\<rparr>
      in if t \<noteq> srv_ticks s then SaveConfiguration c' s' else Inr (c', s'))"

definition LoadConfiguration :: "('m, (string, Configuration) result) go" where
  "LoadConfiguration s =
     (if srv_file s = NoFile
      then (case storeDefaultConfig default_config s of
              Inl p \<Rightarrow> Inl p | Inr (c, s') \<Rightarrow> Inr (Inr c, s'))
      else
        case LoadVersionedConfiguration (srv_file s) of
          Inl p \<Rightarrow> Inl p
        | Inr (Inl err) \<Rightarrow> Inr (Inl err, s)
        | Inr (Inr c) \<Rightarrow>
            (case setHostnameIds c s of Inl p \<Rightarrow> Inl p | Inr (c', s') \<Rightarrow> Inr (Inr c', s')))"

definition ResetConf :: "'m server \<Rightarrow> 'm server" where
  "ResetConf s = s\<lparr>srv_file := NoFile, srv_store := ClearAllCaches (srv_store s)\<rparr>"

text \<open>The shape every writing operation of \<open>local.go\<close> has: load, change, save or report.\<close>

definition transact ::
  "('m server \<Rightarrow> Configuration \<Rightarrow> (string, Configuration) result \<times> 'm server) \<Rightarrow>
     ('m, (string, unit) result) go" where
  "transact op s =
     (case LoadConfiguration s of
        Inl p \<Rightarrow> Inl p
      | Inr (Inl err, s1) \<Rightarrow> Inr (Inl err, s1)
      | Inr (Inr c, s1) \<Rightarrow>
          (case op s1 c of
             (Inl err, s2) \<Rightarrow> Inr (Inl err, s2)
           | (Inr c', s2) \<Rightarrow>
               (case SaveConfiguration c' s2 of Inl p \<Rightarrow> Inl p | Inr (_, s3) \<Rightarrow> Inr (Inr (), s3))))"

definition local_SetActiveEnv :: "Env \<Rightarrow> ('m, (string, unit) result) go" where
  "local_SetActiveEnv e = transact (\<lambda>s c. (SetActiveEnv c e, s))"

definition local_AddEnv :: "Env \<Rightarrow> ('m, (string, unit) result) go" where
  "local_AddEnv e = transact (\<lambda>s c. (AddEnv c e, s))"

definition local_RemoveEnvByName :: "string \<Rightarrow> ('m, (string, unit) result) go" where
  "local_RemoveEnvByName n = transact (\<lambda>s c. (RemoveEnvByName c n, s))"

definition local_RemoveHostname :: "string \<Rightarrow> string \<Rightarrow> ('m, (string, unit) result) go" where
  "local_RemoveHostname e n = transact (\<lambda>s c. (RemoveHostnameByEnvAndHostname c e n, s))"

definition add_hostname_op ::
  "string \<Rightarrow> Hostname \<Rightarrow> 'm server \<Rightarrow> Configuration \<Rightarrow> (string, Configuration) result \<times> 'm server" where
  \<comment> \<open>the clock is read only when the record comes without an id\<close>
  "add_hostname_op e h s c =
     (AddHostname (srv_clock s (srv_ticks s)) c e h,
      if hId h = 0 then s\<lparr>srv_ticks := Suc (srv_ticks s)\<rparr> else s)"

definition local_AddHostname :: "string \<Rightarrow> Hostname \<Rightarrow> ('m, (string, unit) result) go" where
  "local_AddHostname e h = transact (add_hostname_op e h)"

definition local_UpdateHostname :: "string \<Rightarrow> Hostname \<Rightarrow> ('m, (string, unit) result) go" where
  "local_UpdateHostname e h = transact (\<lambda>s c. (UpdateHostname c e h, s))"

section \<open>Addresses survive their text form\<close>

definition quad_text :: "string \<Rightarrow> bool" where
  "quad_text s \<longleftrightarrow> (\<exists>ns. quad ns \<and> s = dotted ns)"

lemma span_digits:
  assumes "list_all is_digit ds" and "r = [] \<or> \<not> is_digit (hd r)"
  shows "takeWhile is_digit (ds @ r) = ds" and "dropWhile is_digit (ds @ r) = r"
proof -
  have "takeWhile is_digit r = []" and "dropWhile is_digit r = r"
    using assms(2) by (cases r; simp)+
  with assms(1) show "takeWhile is_digit (ds @ r) = ds" and "dropWhile is_digit (ds @ r) = r"
    by (simp_all add: list_all_iff)
qed

lemma match_groups_dotted:
  assumes "length ns = Suc n" and "r = [] \<or> \<not> is_digit (hd r)"
  shows "match_groups n (dotted ns @ r) = Some (dotted ns, r)"
  using assms
proof (induction n arbitrary: ns)
  case 0
  then obtain a where "ns = [a]" by (cases ns) auto
  with 0 show ?case
    by (subst match_groups.simps) (simp add: dotted_def Let_def span_digits show_nat_digits)
next
  case (Suc n)
  then obtain a ns' where ns: "ns = a # ns'" "length ns' = Suc n" by (cases ns) auto
  then have d: "dotted ns @ r = show_nat a @ CHR ''.'' # dotted ns' @ r"
    and d': "dotted ns = show_nat a @ CHR ''.'' # dotted ns'"
    by (cases ns'; simp add: dotted_def)+
  have nd: "\<not> is_digit (CHR ''.'')" by (simp add: is_digit_def)
  have IH: "match_groups n (dotted ns' @ r) = Some (dotted ns', r)"
    using Suc.IH ns(2) Suc.prems(2) by blast
  have tw: "takeWhile is_digit (dotted ns @ r) = show_nat a"
    and dw: "dropWhile is_digit (dotted ns @ r) = CHR ''.'' # dotted ns' @ r"
    unfolding d using nd by (auto intro!: span_digits show_nat_digits)
  have "match_groups (Suc n) (dotted ns @ r) = Some (show_nat a @ CHR ''.'' # dotted ns', r)"
    by (subst match_groups.simps) (simp add: Let_def tw dw IH)
  with d' show ?case by simp
qed

lemma find_address_dotted:
  assumes "quad ns" and "r = [] \<or> \<not> is_digit (hd r)"
  shows "find_address (dotted ns @ r) =
    Some (dotted ns, takeWhile is_digit (case r of c # r' \<Rightarrow> if c = CHR '':'' then r' else r | [] \<Rightarrow> []))"
proof -
  have "match_groups 3 (dotted ns @ r) = Some (dotted ns, r)"
    using assms by (intro match_groups_dotted) (auto simp: quad_def)
  then show ?thesis by (subst find_address.simps) simp
qed

lemma toDnsServer_plain:
  assumes "quad ns"
  shows "toDnsServer (dotted ns) = Inr \<lparr>dnsIp = dotted ns, dnsPort = 53\<rparr>"
  using find_address_dotted [OF assms, of "[]"]
  by (simp add: toDnsServer_def parseIntDnsServer_def go_Atoi_def)

definition port_ok :: "int \<Rightarrow> bool" where
  "port_ok p \<longleftrightarrow> 0 \<le> p \<and> p \<le> int64_max"

lemma toDnsServer_GetAddress:
  assumes "quad_text (dnsIp s)" and "port_ok (dnsPort s)"
  shows "toDnsServer (GetAddress s) = Inr s"
proof -
  from assms(1) obtain ns where ns: "quad ns" "dnsIp s = dotted ns" by (auto simp: quad_text_def)
  have "takeWhile is_digit (show_nat (nat (dnsPort s))) = show_nat (nat (dnsPort s))"
    using span_digits(1) [OF show_nat_digits, of "[]"] by simp
  moreover have "\<not> is_digit (CHR '':'')" by (simp add: is_digit_def)
  ultimately have "find_address (GetAddress s) = Some (dotted ns, show_nat (nat (dnsPort s)))"
    using ns assms(2)
    by (simp add: GetAddress_def go_FormatInt_def port_ok_def find_address_dotted)
  then show ?thesis
    using ns assms(2)
    by (simp add: toDnsServer_def parseIntDnsServer_def go_Atoi_def go_ParseInt_show_nat port_ok_def)
qed

lemma quad_text_bytes:
  assumes "quad_text t"
  shows "\<exists>b. ToIpByteArray zero_ip t = Inr b \<and> ToIpString b = t"
  using assms goip.parse_text goip.render_text by (metis quad_text_def)

lemma quad_text_ToIpString: "length b = 4 \<Longrightarrow> quad_text (ToIpString b)"
  by (metis goip.octets_quad goip.render_text quad_text_def)

lemma map_result_inverse:
  assumes "\<And>x. x \<in> set xs \<Longrightarrow> \<exists>y. f x = Inr y \<and> g y = x"
  shows "\<exists>ys. map_result f xs = Inr ys \<and> map g ys = xs"
  using assms
proof (induction xs)
  case (Cons x xs)
  from Cons.prems [of x] obtain y where "f x = Inr y" "g y = x" by auto
  moreover from Cons obtain ys where "map_result f xs = Inr ys" "map g ys = xs"
    by (metis list.set_intros(2))
  ultimately show ?case by (intro exI [of _ "y # ys"]) simp
qed simp

lemma map_result_inverse2:
  assumes "\<And>x. x \<in> set xs \<Longrightarrow> \<exists>y. f x = Inr y \<and> g y = Inr x"
  shows "\<exists>ys. map_result f xs = Inr ys \<and> map_result g ys = Inr xs"
  using assms
proof (induction xs)
  case (Cons x xs)
  from Cons.prems [of x] obtain y where "f x = Inr y" "g y = Inr x" by auto
  moreover from Cons obtain ys where "map_result f xs = Inr ys" "map_result g ys = Inr xs"
    by (metis list.set_intros(2))
  ultimately show ?case by (intro exI [of _ "y # ys"]) simp
qed simp

section \<open>What a saved configuration looks like when it is loaded again\<close>

text \<open>
  Each format is an instance of the same contract: a configuration the format can express is
  written without a panic and read back unchanged. Format 1 has no ports and no network
  options, so it expresses the configurations it produces itself.
\<close>

locale conf_format =
  fixes wr :: "Configuration \<Rightarrow> (go_panic, 'f) result"
    and rd :: "'f \<Rightarrow> (go_panic, Configuration) result"
    and expresses :: "Configuration \<Rightarrow> bool"
  assumes read_write: "expresses c \<Longrightarrow> \<exists>f. wr c = Inr f \<and> rd f = Inr c"
begin

lemma write_inj: "expresses c \<Longrightarrow> expresses d \<Longrightarrow> wr c = wr d \<Longrightarrow> c = d"
  by (metis read_write sum.inject(2))

end

definition hosts_of :: "Configuration \<Rightarrow> Hostname list" where
  "hosts_of c = concat (map Hostnames (Envs c))"

definition expresses1 :: "Configuration \<Rightarrow> bool" where
  "expresses1 c \<longleftrightarrow> Version c = 1 \<and> DpsNetwork c = None \<and> DpsNetworkAutoConnect c = None
     \<and> list_all (\<lambda>s. quad_text (dnsIp s) \<and> dnsPort s = 53) (RemoteDnsServers c)
     \<and> list_all (\<lambda>h. quad_text (hIp h)) (hosts_of c)"

definition expresses2 :: "Configuration \<Rightarrow> bool" where
  "expresses2 c \<longleftrightarrow> Version c = 2
     \<and> list_all (\<lambda>s. quad_text (dnsIp s) \<and> port_ok (dnsPort s)) (RemoteDnsServers c)"

lemma fromHostname1_inverse:
  "quad_text (hIp h) \<Longrightarrow> \<exists>v. fromHostname1 h = Inr v \<and> fillHostname1 v = h"
  using quad_text_bytes [of "hIp h"] by (auto simp: fromHostname1_def fillHostname1_def)

lemma fromEnv1_inverse:
  assumes "list_all (\<lambda>h. quad_text (hIp h)) (Hostnames e)"
  shows "\<exists>v. fromEnv1 e = Inr v \<and>
    \<lparr>envName = v1Name v, Hostnames = map fillHostname1 (v1Hostnames v)\<rparr> = e"
proof -
  from assms obtain hs where "map_result fromHostname1 (Hostnames e) = Inr hs"
    "map fillHostname1 hs = Hostnames e"
    using map_result_inverse [of "Hostnames e" fromHostname1 fillHostname1]
    by (auto simp: list_all_iff fromHostname1_inverse)
  then show ?thesis by (auto simp: fromEnv1_def)
qed

interpretation fmt1: conf_format ValueOf1 ToConfig1 expresses1
proof
  fix c
  assume c: "expresses1 c"
  have "\<exists>es. map_result fromEnv1 (Envs c) = Inr es
      \<and> map (\<lambda>v. \<lparr>envName = v1Name v, Hostnames = map fillHostname1 (v1Hostnames v)\<rparr>) es = Envs c"
    using c by (intro map_result_inverse fromEnv1_inverse) (auto simp: expresses1_def hosts_of_def list_all_iff)
  then obtain es where es: "map_result fromEnv1 (Envs c) = Inr es" "toEnvs1 es = Envs c"
    by (auto simp: toEnvs1_def)
  have srv: "\<exists>y. GetIpArray x = Inr y \<and> toDnsServer (ToIpString y) = Inr x"
    if "x \<in> set (RemoteDnsServers c)" for x
  proof -
    from that c have x: "quad_text (dnsIp x)" "dnsPort x = 53"
      by (auto simp: expresses1_def list_all_iff)
    then obtain ns where ns: "quad ns" "dnsIp x = dotted ns" by (auto simp: quad_text_def)
    from quad_text_bytes [OF x(1)] obtain b where
      "ToIpByteArray zero_ip (dnsIp x) = Inr b" "ToIpString b = dnsIp x" by blast
    with toDnsServer_plain [OF ns(1)] ns(2) x(2) show ?thesis by (auto simp: GetIpArray_def)
  qed
  obtain rs where "ServersToByteArray (RemoteDnsServers c) = Inr rs"
    "ByteArrayToDnsServer rs = Inr (RemoteDnsServers c)"
    using map_result_inverse2 [of "RemoteDnsServers c" GetIpArray, OF srv]
    by (auto simp: ServersToByteArray_def ByteArrayToDnsServer_def)
  with es c show "\<exists>f. ValueOf1 c = Inr f \<and> ToConfig1 f = Inr c"
    by (auto simp: ValueOf1_def ToConfig1_def expresses1_def)
qed

lemma fill2_inverse [simp]: "fillHostname2 (fillV2Hostname h) = h"
  by (simp add: fillHostname2_def fillV2Hostname_def)

lemma toEnvs2_inverse: "toEnvs2 (map toV2Env es) = es"
  by (induction es) (auto simp: toEnvs2_def toV2Env_def comp_def)

interpretation fmt2: conf_format "\<lambda>c. Inr (ValueOf2 c)" ToConfig2 expresses2
proof
  fix c
  assume c: "expresses2 c"
  then have "StringArrayToDnsServer (ToIpsStringArray (RemoteDnsServers c)) = Inr (RemoteDnsServers c)"
    unfolding StringArrayToDnsServer_def ToIpsStringArray_def
    by (intro map_result_of_map) (auto simp: expresses2_def list_all_iff toDnsServer_GetAddress)
  with c show "\<exists>f. Inr (ValueOf2 c) = Inr f \<and> ToConfig2 f = Inr c"
    by (auto simp: ValueOf2_def ToConfig2_def expresses2_def toEnvs2_inverse)
qed

section \<open>Server states that hold a configuration\<close>

text \<open>
  \<open>holds s c\<close>: the file of \<open>s\<close> can be written, it holds \<open>c\<close>, every record of \<open>c\<close> has
  an id and there is at least one environment. Loading such a state returns \<open>c\<close> and
  changes nothing; the writing operations lead from such states to such states.
\<close>

definition expressible :: "Configuration \<Rightarrow> bool" where
  "expressible c \<longleftrightarrow> expresses1 c \<or> expresses2 c"

definition ids_set :: "Configuration \<Rightarrow> bool" where
  "ids_set c \<longleftrightarrow> list_all (\<lambda>h. hId h \<noteq> 0) (hosts_of c)"

definition file_of :: "Configuration \<Rightarrow> conf_file" where
  "file_of c =
     (if Version c = 2 then FileV2 (ValueOf2 c)
      else (case ValueOf1 c of Inl p \<Rightarrow> NoFile | Inr v \<Rightarrow> FileV1 v))"

definition holds :: "'m server \<Rightarrow> Configuration \<Rightarrow> bool" where
  "holds s c \<longleftrightarrow> srv_writable s \<and> srv_file s = file_of c \<and> expressible c \<and> ids_set c \<and> Envs c \<noteq> []"

lemma LoadVersioned_file_of:
  assumes "expressible c"
  shows "LoadVersionedConfiguration (file_of c) = Inr (Inr c)" and "file_of c \<noteq> NoFile"
proof -
  consider "expresses1 c" | "expresses2 c" using assms by (auto simp: expressible_def)
  then have "LoadVersionedConfiguration (file_of c) = Inr (Inr c) \<and> file_of c \<noteq> NoFile"
  proof cases
    case 1
    with fmt1.read_write [OF 1] show ?thesis by (auto simp: file_of_def expresses1_def)
  next
    case 2
    with fmt2.read_write [OF 2] show ?thesis by (auto simp: file_of_def expresses2_def)
  qed
  then show "LoadVersionedConfiguration (file_of c) = Inr (Inr c)" and "file_of c \<noteq> NoFile"
    by auto
qed

lemma set_ids_nonzero: "list_all (\<lambda>h. hId h \<noteq> 0) hs \<Longrightarrow> set_ids clk t hs = (hs, t)"
  by (induction hs) auto

lemma set_env_ids_nonzero:
  "(\<And>e. e \<in> set es \<Longrightarrow> list_all (\<lambda>h. hId h \<noteq> 0) (Hostnames e)) \<Longrightarrow> set_env_ids clk t es = (es, t)"
  by (induction es) (auto simp: set_ids_nonzero)

lemma setHostnameIds_ids_set: "ids_set c \<Longrightarrow> setHostnameIds c s = Inr (c, s)"
  unfolding setHostnameIds_def
  by (subst set_env_ids_nonzero) (auto simp: ids_set_def hosts_of_def list_all_iff)

lemma LoadConfiguration_holds: "holds s c \<Longrightarrow> LoadConfiguration s = Inr (Inr c, s)"
  by (auto simp: LoadConfiguration_def holds_def LoadVersioned_file_of setHostnameIds_ids_set)

text \<open>The environments after \<open>SaveConfiguration\<close>: never none.\<close>

definition ensure_env :: "Configuration \<Rightarrow> Configuration" where
  "ensure_env c = (if Envs c = [] then c\<lparr>Envs := NewEmptyEnv\<rparr> else c)"

lemma ensure_env_Envs: "Envs (ensure_env c) \<noteq> []"
  by (simp add: ensure_env_def NewEmptyEnv_def)

lemma ensure_env_expressible: "expressible c \<Longrightarrow> expressible (ensure_env c)"
  by (auto simp: expressible_def ensure_env_def expresses1_def expresses2_def hosts_of_def
      NewEmptyEnv_def)

lemma ensure_env_ids: "ids_set c \<Longrightarrow> ids_set (ensure_env c)"
  by (auto simp: ensure_env_def ids_set_def hosts_of_def NewEmptyEnv_def)

lemma ensure_env_wf: "conf_wf c \<Longrightarrow> conf_wf (ensure_env c)"
  by (auto simp: ensure_env_def conf_wf_def env_names_def NewEmptyEnv_def)

lemma SaveConfiguration_expressible:
  assumes "expressible c"
  shows "SaveConfiguration c s = Inr (ensure_env c, storeToFile (file_of (ensure_env c)) s)"
proof (cases "Version c = 2")
  case True
  then show ?thesis by (simp add: SaveConfiguration_def ensure_env_def file_of_def Let_def)
next
  case False
  with assms have "expresses1 (ensure_env c)"
    using ensure_env_expressible [OF assms]
    by (auto simp: expressible_def expresses2_def ensure_env_def)
  from fmt1.read_write [OF this] False show ?thesis
    by (auto simp: SaveConfiguration_def ensure_env_def file_of_def Let_def)
qed

lemma SaveConfiguration_holds:
  assumes "expressible c" and "ids_set c" and "srv_writable s"
  shows "\<exists>s'. SaveConfiguration c s = Inr (ensure_env c, s') \<and> holds s' (ensure_env c)
    \<and> store_empty (srv_store s') \<and> srv_clock s' = srv_clock s \<and> srv_ticks s' = srv_ticks s"
  using assms
  by (auto simp: SaveConfiguration_expressible storeToFile_def holds_def ensure_env_Envs
      ensure_env_expressible ensure_env_ids ClearAllCaches_empty)

lemma transact_holds_Err:
  assumes "holds s c" and "op s c = (Inl err, s')"
  shows "transact op s = Inr (Inl err, s')"
  using assms by (simp add: transact_def LoadConfiguration_holds)

lemma transact_holds_Ok:
  assumes "holds s c" and "op s c = (Inr c', s')" and "srv_writable s'"
    and "expressible c'" and "ids_set c'"
  shows "\<exists>s''. transact op s = Inr (Inr (), s'') \<and> holds s'' (ensure_env c')
    \<and> store_empty (srv_store s'') \<and> srv_clock s'' = srv_clock s' \<and> srv_ticks s'' = srv_ticks s'"
proof -
  from SaveConfiguration_holds [OF assms(4,5,3)] obtain s'' where
    "SaveConfiguration c' s' = Inr (ensure_env c', s'')" "holds s'' (ensure_env c')"
    "store_empty (srv_store s'')" "srv_clock s'' = srv_clock s'" "srv_ticks s'' = srv_ticks s'"
    by blast
  then show ?thesis using assms(1,2) by (simp add: transact_def LoadConfiguration_holds)
qed

section \<open>The configuration operations stay expressible\<close>

definition same_frame :: "Configuration \<Rightarrow> Configuration \<Rightarrow> bool" where
  \<comment> \<open>everything but the environments and the active environment\<close>
  "same_frame c c' \<longleftrightarrow> c'\<lparr>Envs := Envs c, ActiveEnv := ActiveEnv c\<rparr> = c"

lemma same_frame_eqs:
  assumes "same_frame c c'"
  shows "Version c' = Version c" and "RemoteDnsServers c' = RemoteDnsServers c"
    and "DpsNetwork c' = DpsNetwork c" and "DpsNetworkAutoConnect c' = DpsNetworkAutoConnect c"
  using arg_cong [OF assms [unfolded same_frame_def], of Version]
    arg_cong [OF assms [unfolded same_frame_def], of RemoteDnsServers]
    arg_cong [OF assms [unfolded same_frame_def], of DpsNetwork]
    arg_cong [OF assms [unfolded same_frame_def], of DpsNetworkAutoConnect]
  by simp_all

definition host_ok :: "Hostname \<Rightarrow> bool" where
  "host_ok h \<longleftrightarrow> quad_text (hIp h) \<and> hId h \<noteq> 0"

lemma same_frame_keeps:
  assumes "same_frame c c'" and "\<And>h. h \<in> set (hosts_of c') \<Longrightarrow> h \<in> set (hosts_of c) \<or> host_ok h"
    and "expressible c" and "ids_set c"
  shows "expressible c'" and "ids_set c'"
  using assms(2-4) same_frame_eqs [OF assms(1)]
  by (auto simp: expressible_def expresses1_def expresses2_def ids_set_def list_all_iff host_ok_def)

lemma hosts_of_put:
  "h \<in> set (hosts_of (c\<lparr>Envs := (Envs c)[i := e]\<rparr>)) \<Longrightarrow> h \<in> set (hosts_of c) \<or> h \<in> set (Hostnames e)"
  by (auto simp: hosts_of_def dest!: subsetD [OF set_update_subset_insert])

lemma hosts_of_nth: "i < length (Envs c) \<Longrightarrow> h \<in> set (Hostnames (Envs c ! i)) \<Longrightarrow> h \<in> set (hosts_of c)"
  by (auto simp: hosts_of_def)

lemma AddHostname_frame:
  assumes "AddHostname now c e h = Inr c'" and "quad_text (hIp h)" and "hId h \<noteq> 0 \<or> now \<noteq> 0"
  shows "same_frame c c'" and "g \<in> set (hosts_of c') \<Longrightarrow> g \<in> set (hosts_of c) \<or> host_ok g"
proof -
  from assms(1) obtain i where i: "GetEnv c e = Some i"
    and c': "c' = c\<lparr>Envs := (Envs c)[i := (Envs c ! i)\<lparr>Hostnames := Hostnames (Envs c ! i) @ [stamp_id now h]\<rparr>]\<rparr>"
    by (auto simp: AddHostname_def EnvAddHostname_def Let_def split: if_splits option.splits sum.splits)
  have "i < length (Envs c)" using i by (auto dest: GetEnv_Some)
  moreover have "host_ok (stamp_id now h)"
    using assms(2,3) by (auto simp: host_ok_def stamp_id_def)
  ultimately show "g \<in> set (hosts_of c') \<Longrightarrow> g \<in> set (hosts_of c) \<or> host_ok g"
    unfolding c' by (auto dest!: hosts_of_put dest: hosts_of_nth)
  show "same_frame c c'" by (simp add: c' same_frame_def)
qed

lemma UpdateHostname_frame:
  assumes "UpdateHostname c e h = Inr c'" and "quad_text (hIp h)" and "ids_set c"
  shows "same_frame c c'" and "g \<in> set (hosts_of c') \<Longrightarrow> g \<in> set (hosts_of c) \<or> host_ok g"
proof -
  from assms(1) obtain i j where i: "GetEnv c e = Some i" "GetHostnameById (Envs c ! i) (hId h) = Some j"
    and c': "c' = c\<lparr>Envs := (Envs c)[i := (Envs c ! i)\<lparr>Hostnames :=
      (Hostnames (Envs c ! i))[j := assign_fields (Hostnames (Envs c ! i) ! j) h]\<rparr>]\<rparr>"
    by (auto simp: UpdateHostname_def EnvUpdateHostname_def split: option.splits sum.splits)
  have len: "i < length (Envs c)" "j < length (Hostnames (Envs c ! i))"
    using i by (auto simp: GetHostnameById_def dest: GetEnv_Some index_where_bound)
  then have "hId (Hostnames (Envs c ! i) ! j) \<noteq> 0"
    using assms(3) by (auto simp: ids_set_def list_all_iff dest: hosts_of_nth nth_mem)
  then have "host_ok (assign_fields (Hostnames (Envs c ! i) ! j) h)"
    using assms(2) by (simp add: host_ok_def assign_fields_def)
  then show "g \<in> set (hosts_of c') \<Longrightarrow> g \<in> set (hosts_of c) \<or> host_ok g"
    unfolding c' using len
    by (auto dest!: hosts_of_put subsetD [OF set_update_subset_insert] dest: hosts_of_nth)
  show "same_frame c c'" by (simp add: c' same_frame_def)
qed

lemma RemoveHostname_frame:
  assumes "RemoveHostnameByEnvAndHostname c e n = Inr c'"
  shows "same_frame c c'" and "g \<in> set (hosts_of c') \<Longrightarrow> g \<in> set (hosts_of c) \<or> host_ok g"
proof -
  from assms obtain i j where i: "GetEnv c e = Some i" and c': "c' = RemoveHostname c i j"
    by (auto simp: RemoveHostnameByEnvAndHostname_def split: option.splits)
  have "i < length (Envs c)" using i by (auto dest: GetEnv_Some)
  then show "g \<in> set (hosts_of c') \<Longrightarrow> g \<in> set (hosts_of c) \<or> host_ok g"
    unfolding c' RemoveHostname_def Let_def
    by (auto dest!: hosts_of_put subsetD [OF set_remove_nth] dest: hosts_of_nth)
  show "same_frame c c'" by (simp add: c' RemoveHostname_def same_frame_def Let_def)
qed

lemma AddEnv_frame:
  assumes "AddEnv c e = Inr c'" and "list_all host_ok (Hostnames e)"
  shows "same_frame c c'" and "g \<in> set (hosts_of c') \<Longrightarrow> g \<in> set (hosts_of c) \<or> host_ok g"
  using assms by (auto simp: AddEnv_def same_frame_def hosts_of_def list_all_iff split: option.splits)

lemma RemoveEnv_frame:
  assumes "RemoveEnvByName c n = Inr c'"
  shows "same_frame c c'" and "g \<in> set (hosts_of c') \<Longrightarrow> g \<in> set (hosts_of c) \<or> host_ok g"
  using assms
  by (auto simp: RemoveEnvByName_def RemoveEnv_def same_frame_def hosts_of_def
      dest!: subsetD [OF set_remove_nth] split: option.splits)

lemma SetActiveEnv_frame:
  assumes "SetActiveEnv c e = Inr c'"
  shows "same_frame c c'" and "g \<in> set (hosts_of c') \<Longrightarrow> g \<in> set (hosts_of c) \<or> host_ok g"
  using assms by (auto simp: SetActiveEnv_def same_frame_def hosts_of_def split: option.splits)

section \<open>The registered caches stay registered\<close>

lemma ClearAllCaches_length [simp]: "length (caches (ClearAllCaches st)) = length (caches st)"
  by (simp add: ClearAllCaches_def)

lemma SaveConfiguration_caches:
  "SaveConfiguration c s = Inr (r, s') \<Longrightarrow> length (caches (srv_store s')) = length (caches (srv_store s))"
  by (auto simp: SaveConfiguration_def storeToFile_def Let_def split: if_splits sum.splits)

lemma LoadConfiguration_caches:
  "LoadConfiguration s = Inr (r, s') \<Longrightarrow> length (caches (srv_store s')) = length (caches (srv_store s))"
  by (auto simp: LoadConfiguration_def storeDefaultConfig_def setHostnameIds_def Let_def
      split: if_splits sum.splits prod.splits dest!: SaveConfiguration_caches)

lemma local_AddHostname_caches:
  "local_AddHostname e h s = Inr (r, s') \<Longrightarrow> length (caches (srv_store s')) = length (caches (srv_store s))"
  by (auto simp: local_AddHostname_def transact_def add_hostname_op_def
      split: if_splits sum.splits prod.splits dest!: SaveConfiguration_caches LoadConfiguration_caches)

section \<open>Properties\<close>

text \<open>
  A version 1 file gives back the configuration it was written from, for every configuration that
  this format can express: remote servers on port 53, addresses in dotted form, no network options.
\<close>

lemma storage_v1_roundtrip: "expresses1 c \<Longrightarrow> \<exists>f. ValueOf1 c = Inr f \<and> ToConfig1 f = Inr c"
  by (rule fmt1.read_write)

lemma sample_quad: "quad_text ''1.2.3.4''"
proof -
  have "dotted [1, 2, 3, 4] = ''1.2.3.4''" by code_simp
  moreover have "quad [1, 2, 3, 4]" by (simp add: quad_def)
  ultimately show ?thesis unfolding quad_text_def by metis
qed

text \<open>
  C25. A version 2 file gives back the configuration it was written from, for every version 2
  configuration whose remote servers have a dotted address and a port in range.
\<close>

theorem storage_v2_roundtrip: "expresses2 c \<Longrightarrow> ToConfig2 (ValueOf2 c) = Inr c"
  using fmt2.read_write [of c] by simp

theorem storage_v2_roundtrip_witness:
  "ToConfig2 (ValueOf2 (sample_conf\<lparr>RemoteDnsServers := [\<lparr>dnsIp = ''1.2.3.4'', dnsPort = 5353\<rparr>]\<rparr>)) =
    Inr (sample_conf\<lparr>RemoteDnsServers := [\<lparr>dnsIp = ''1.2.3.4'', dnsPort = 5353\<rparr>]\<rparr>)"
  by (rule storage_v2_roundtrip) (simp add: expresses2_def sample_conf_def sample_quad port_ok_def int64_max_def)

text \<open>
  First start: without a configuration file, loading writes one and returns its contents, a
  version 2 configuration with the single empty environment named by the empty string; loading again
  returns the same and changes nothing.
\<close>

lemma first_start:
  assumes "srv_file s = NoFile" and "srv_mkdir_ok s" and "srv_writable s"
  shows "\<exists>s'. LoadConfiguration s = Inr (Inr (default_config\<lparr>Envs := NewEmptyEnv\<rparr>), s') \<and>
    LoadConfiguration s' = Inr (Inr (default_config\<lparr>Envs := NewEmptyEnv\<rparr>), s') \<and> store_empty (srv_store s')"
proof -
  let ?c = "default_config\<lparr>Envs := NewEmptyEnv\<rparr>"
  have c: "expressible default_config" "ids_set default_config" "ensure_env default_config = ?c"
    by (simp_all add: expressible_def expresses2_def default_config_def ids_set_def hosts_of_def ensure_env_def)
  from SaveConfiguration_holds [OF c(1,2) assms(3)] c(3) obtain s' where
    "SaveConfiguration default_config s = Inr (?c, s')" "holds s' ?c" "store_empty (srv_store s')" by auto
  then show ?thesis
    using assms LoadConfiguration_holds [of s' ?c] by (simp add: LoadConfiguration_def storeDefaultConfig_def)
qed

definition fresh_server :: "unit server" where
  "fresh_server = \<lparr>srv_file = NoFile, srv_mkdir_ok = True, srv_writable = True,
     srv_store = \<lparr>mainCache = \<lparr>lru_size = 10, lru_entries = []\<rparr>, caches = []\<rparr>, srv_clock = (\<lambda>_. 1000), srv_ticks = 0\<rparr>"

text \<open>
  C27. Deleting a record while the configuration file cannot be written has no effect and reports
  success: the file, and with it everything a later load returns, is what it was.
\<close>

theorem lost_write:
  assumes "srv_file s = file_of c" and "expressible c" and "ids_set c" and "\<not> srv_writable s"
    and "records c e = Some rs" and "n \<in> set (hostname_names rs)"
  shows "local_RemoveHostname e n s = Inr (Inr (), s)"
proof -
  have "LoadConfiguration s = Inr (Inr c, s)"
    using assms(1-3) by (simp add: LoadConfiguration_def LoadVersioned_file_of setHostnameIds_ids_set)
  moreover obtain c' where c': "RemoveHostnameByEnvAndHostname c e n = Inr c'"
    using conf.del_ok [OF assms(5,6)] by blast
  moreover have "expressible c'"
    using RemoveHostname_frame [OF c'] assms(2,3) by (intro same_frame_keeps(1) [of c c']) blast+
  ultimately show ?thesis
    using assms(4) by (simp add: local_RemoveHostname_def transact_def SaveConfiguration_expressible storeToFile_def)
qed

theorem lost_write_witness:
  "local_RemoveHostname '''' ''a'' (fresh_server\<lparr>srv_file := file_of sample_conf, srv_writable := False\<rparr>) =
    Inr (Inr (), fresh_server\<lparr>srv_file := file_of sample_conf, srv_writable := False\<rparr>)"
proof (rule lost_write)
  show "records sample_conf '''' = Some (Hostnames (Envs sample_conf ! 0))"
    by (simp add: records_def GetEnv_def sample_conf_def)
qed (simp_all add: expressible_def expresses2_def sample_conf_def ids_set_def hosts_of_def hostname_names_def)

end
