(* ===== verification/ResolvConf.thy ===== *)
theory ResolvConf
  imports Storage
begin

text \<open>
  \<open>src/resolvconf\<close>: how the server writes itself into \<open>/etc/resolv.conf\<close>, takes itself out again,
  and reads the search domain. The file is its text; \<open>rc_text = None\<close> is a file that cannot be opened.
  The addresses of the machine's interfaces and what Docker answers are arguments.
\<close>

section \<open>Lines\<close>

datatype DnsEntry = Comment | CommentedServer | Server | Proxy | Search | Else

definition HasPrefix :: "string \<Rightarrow> string \<Rightarrow> bool" where
  "HasPrefix s p \<longleftrightarrow> take (length p) s = p"

definition HasSuffix :: "string \<Rightarrow> string \<Rightarrow> bool" where
  "HasSuffix s p \<longleftrightarrow> length p \<le> length s \<and> drop (length s - length p) s = p"

fun go_Index :: "string \<Rightarrow> string \<Rightarrow> nat option" where
  "go_Index [] p = (if p = [] then Some 0 else None)"
| "go_Index (c # s) p = (if HasPrefix (c # s) p then Some 0 else map_option Suc (go_Index s p))"

text \<open>
  \<open>bufio.Scanner\<close> with \<open>ScanLines\<close>: a last line may lack its line end, a carriage return before a line
  end is dropped, and a line that does not fit the buffer of 64 KB ends the scan.
\<close>

definition drop_cr :: "string \<Rightarrow> string" where
  "drop_cr l = (if l \<noteq> [] \<and> last l = CHR 0x0D then butlast l else l)"

definition scan_lines :: "string \<Rightarrow> string list" where
  "scan_lines text =
     (let ls = split_on (CHR 0x0A) text; ls = (if last ls = [] then butlast ls else ls)
      in map drop_cr (takeWhile (\<lambda>l. length l < 65536) ls))"

definition print_lines :: "string list \<Rightarrow> string" where
  "print_lines ls = concat (map (\<lambda>l. l @ [CHR 0x0A]) ls)"

definition getDNSLine :: "string \<Rightarrow> string" where
  "getDNSLine serverIP = ''nameserver '' @ serverIP @ '' # dps-entry''"

definition getDnsEntryType :: "string \<Rightarrow> DnsEntry" where
  "getDnsEntryType line =
     (if HasSuffix line ''# dps-entry'' then Proxy
      else if HasPrefix line ''# nameserver '' \<and> HasSuffix line ''# dps-comment'' then CommentedServer
      else if HasPrefix line ''#'' then Comment
      else if HasPrefix line ''nameserver'' then Server
      else if HasPrefix line ''search'' then Search
      else Else)"

section \<open>The two handlers\<close>

datatype DnsHandler = setMachineDNSServerHandler string | dnsServerCleanerHandler

fun process :: "DnsHandler \<Rightarrow> string \<Rightarrow> DnsEntry \<Rightarrow> (go_panic, string option) result" where
  "process (setMachineDNSServerHandler serverIP) line entryType =
     (case entryType of
        Proxy \<Rightarrow> Inr (Some (getDNSLine serverIP))
      | Server \<Rightarrow> Inr (Some (''# '' @ line @ '' # dps-comment''))
      | _ \<Rightarrow> Inr (Some line))"
| "process dnsServerCleanerHandler line entryType =
     (case entryType of
        Proxy \<Rightarrow> Inr None
      | CommentedServer \<Rightarrow>
          (case go_Index line '' # dps-comment'' of
             None \<Rightarrow> Inl PanicSliceBounds
           | Some i \<Rightarrow> if 2 \<le> i then Inr (Some (drop 2 (take i line))) else Inl PanicSliceBounds)
      | _ \<Rightarrow> Inr (Some line))"

fun afterProcess :: "DnsHandler \<Rightarrow> bool \<Rightarrow> bool \<Rightarrow> string option" where
  "afterProcess (setMachineDNSServerHandler serverIP) hasContent foundDnsProxy =
     (if \<not> hasContent \<or> \<not> foundDnsProxy then Some (getDNSLine serverIP) else None)"
| "afterProcess dnsServerCleanerHandler hasContent foundDnsProxy = None"

section \<open>The file\<close>

record resolv_file =
  rc_text :: "string option"
  rc_writable :: bool

datatype rc_error = CannotOpen | CannotWrite | NoDpsIp string

definition new_lines :: "DnsHandler \<Rightarrow> string list \<Rightarrow> (go_panic, string list) result" where
  "new_lines handler ls =
     (case map_result (\<lambda>l. process handler l (getDnsEntryType l)) ls of
        Inl p \<Rightarrow> Inl p
      | Inr rs \<Rightarrow>
          Inr (List.map_filter id rs @
               (case afterProcess handler (ls \<noteq> []) (list_ex (\<lambda>l. getDnsEntryType l = Proxy) ls) of
                  None \<Rightarrow> [] | Some l \<Rightarrow> [l])))"

definition ProcessResolvconf :: "DnsHandler \<Rightarrow> resolv_file \<Rightarrow> (go_panic, rc_error option \<times> resolv_file) result" where
  "ProcessResolvconf handler f =
     (case rc_text f of
        None \<Rightarrow> Inr (Some CannotOpen, f)
      | Some text \<Rightarrow>
          (case new_lines handler (scan_lines text) of
             Inl p \<Rightarrow> Inl p
           | Inr ls \<Rightarrow> if rc_writable f then Inr (None, f\<lparr>rc_text := Some (print_lines ls)\<rparr>) else Inr (Some CannotWrite, f)))"

definition SetMachineDnsServer :: "string \<Rightarrow> resolv_file \<Rightarrow> (go_panic, rc_error option \<times> resolv_file) result" where
  "SetMachineDnsServer serverIP = ProcessResolvconf (setMachineDNSServerHandler serverIP)"

definition RestoreResolvconfToDefault :: "resolv_file \<Rightarrow> (go_panic, rc_error option \<times> resolv_file) result" where
  "RestoreResolvconfToDefault = ProcessResolvconf dnsServerCleanerHandler"

text \<open>The search domain: the rest of the first \<open>search\<close> line, after the seventh character.\<close>

definition GetSearchDomainEntry :: "resolv_file \<Rightarrow> (go_panic, (rc_error, string) result) result" where
  "GetSearchDomainEntry f =
     (case rc_text f of
        None \<Rightarrow> Inr (Inl CannotOpen)
      | Some text \<Rightarrow>
          (case find (\<lambda>l. getDnsEntryType l = Search) (scan_lines text) of
             None \<Rightarrow> Inr (Inr '''')
           | Some line \<Rightarrow> if 7 \<le> length line then Inr (Inr (drop 7 line)) else Inl PanicSliceBounds))"

definition SearchDomainKey :: string where "SearchDomainKey = ''SEARCH_DOMAIN''"

definition GetSearchDomainEntryCached :: "resolv_file \<Rightarrow> ('m, (rc_error, string) result) go" where
  "GetSearchDomainEntryCached f s =
     (let main = mainCache (srv_store s) in
      if lru_Contains main SearchDomainKey then
        (case lru_Get main SearchDomainKey of
           (Some (CachedString d), main') \<Rightarrow> Inr (Inr d, s\<lparr>srv_store := (srv_store s)\<lparr>mainCache := main'\<rparr>\<rparr>)
         | _ \<Rightarrow> Inl PanicTypeAssertion)
      else
        (case GetSearchDomainEntry f of
           Inl p \<Rightarrow> Inl p
         | Inr (Inl err) \<Rightarrow> Inr (Inl err, s)
         | Inr (Inr entry) \<Rightarrow>
             Inr (Inr entry, s\<lparr>srv_store := (srv_store s)\<lparr>mainCache := lru_Add main SearchDomainKey (CachedString entry)\<rparr>\<rparr>)))"

definition resolvconf_GetHostname :: "resolv_file \<Rightarrow> string \<Rightarrow> ('m, string) go" where
  "resolvconf_GetHostname f subdomain s =
     (case GetSearchDomainEntryCached f s of
        Inl p \<Rightarrow> Inl p
      | Inr (Inr domainEntry, s') \<Rightarrow>
          Inr (if length domainEntry \<noteq> 0 then subdomain @ ''.'' @ domainEntry else subdomain, s')
      | Inr (Inl _, s') \<Rightarrow> Inr (subdomain, s'))"

section \<open>The address to write\<close>

text \<open>\<open>addrs\<close>: the texts of \<open>net.InterfaceAddrs\<close>, or \<open>None\<close> where it fails.\<close>

fun first_outside :: "string list \<Rightarrow> string" where
  "first_outside [] = ''''"
| "first_outside (ip # addrs) =
     (case go_Index ip ''/'' of
        Some i \<Rightarrow> if \<not> HasPrefix ip ''127'' then take i ip else first_outside addrs
      | None \<Rightarrow> first_outside addrs)"

definition GetCurrentIpAddress :: "string list option \<Rightarrow> string option" where
  "GetCurrentIpAddress addrs = map_option first_outside addrs"

text \<open>
  \<open>docker\<close>: whether the client is connected, the address of the server's container, and the gateway of
  its network; an address is \<open>None\<close> where \<open>dockernetwork\<close> returns an error.
\<close>

record docker_view =
  IsDockerConnected :: bool
  FindDpsContainerIP :: "string option"
  FindDpsNetworkGatewayIp :: "string option"
  GetGatewayIp :: "string option"

definition GetDpsIP :: "docker_view \<Rightarrow> string list option \<Rightarrow> string option" where
  "GetDpsIP docker addrs =
     (if IsDockerConnected docker then
        (case FindDpsContainerIP docker of
           Some ip \<Rightarrow> Some ip
         | None \<Rightarrow> (case FindDpsNetworkGatewayIp docker of Some ip \<Rightarrow> Some ip | None \<Rightarrow> GetCurrentIpAddress addrs))
      else GetCurrentIpAddress addrs)"

definition GetGatewayIP :: "docker_view \<Rightarrow> string list option \<Rightarrow> string option" where
  "GetGatewayIP docker addrs = (if IsDockerConnected docker then GetGatewayIp docker else GetCurrentIpAddress addrs)"

definition SetCurrentDnsServerToMachine ::
  "docker_view \<Rightarrow> string list option \<Rightarrow> resolv_file \<Rightarrow> (go_panic, rc_error option \<times> resolv_file) result" where
  "SetCurrentDnsServerToMachine docker addrs f =
     (case GetDpsIP docker addrs of
        Some ip \<Rightarrow> SetMachineDnsServer ip f
      | None \<Rightarrow> Inr (Some (NoDpsIp ''can't set dps dns server to host machine''), f))"

section \<open>Reading back what was written\<close>

lemma split_print_lines:
  "list_all (\<lambda>l. CHR 0x0A \<notin> set l) ls \<Longrightarrow> split_on (CHR 0x0A) (print_lines ls) = ls @ [[]]"
  by (induction ls) (simp_all add: print_lines_def split_on_append)

text \<open>\<open>plain_line\<close>: a line that the scanner gives back as it was written.\<close>

definition plain_line :: "string \<Rightarrow> bool" where
  "plain_line l \<longleftrightarrow> CHR 0x0A \<notin> set l \<and> (l = [] \<or> last l \<noteq> CHR 0x0D) \<and> length l < 65536"

lemma scan_print_lines: "list_all plain_line ls \<Longrightarrow> scan_lines (print_lines ls) = ls"
proof -
  assume p: "list_all plain_line ls"
  then have "split_on (CHR 0x0A) (print_lines ls) = ls @ [[]]"
    by (intro split_print_lines) (auto simp: list_all_iff plain_line_def)
  moreover have "takeWhile (\<lambda>l. length l < 65536) ls = ls" "map drop_cr ls = ls"
    using p by (auto simp: list_all_iff plain_line_def drop_cr_def intro!: map_idI)
  ultimately show ?thesis by (simp add: scan_lines_def Let_def del: takeWhile_eq_all_conv)
qed

lemma HasSuffix_append [simp]: "length p \<le> length q \<Longrightarrow> HasSuffix (x @ q) p = HasSuffix q p"
  by (auto simp: HasSuffix_def)

lemma HasPrefix_Cons [simp]:
  "HasPrefix s [] \<longleftrightarrow> True" "HasPrefix [] (c # p) \<longleftrightarrow> False"
  "HasPrefix (d # s) (c # p) \<longleftrightarrow> d = c \<and> HasPrefix s p"
  by (auto simp: HasPrefix_def)

text \<open>The first occurrence of a word in a text that ends with it, when the word does not overlap itself.\<close>

lemma go_Index_at_end:
  assumes "p \<noteq> []" and "list_all (\<lambda>d. drop d p \<noteq> take (length p - d) p) [1..<length p]" and "go_Index x p = None"
  shows "go_Index (x @ p) p = Some (length x)"
  using assms(3)
proof (induction x)
  case Nil
  then show ?case using assms(1) by (cases p) (auto simp: HasPrefix_def)
next
  case (Cons c x)
  have n: "\<not> HasPrefix (c # x) p" and IH: "go_Index (x @ p) p = Some (length x)"
    using Cons by (auto split: if_splits)
  have "\<not> HasPrefix ((c # x) @ p) p"
  proof (cases "length p \<le> length (c # x)")
    case True
    then have "take (length p) ((c # x) @ p) = take (length p) (c # x)" by (simp only: take_append) simp
    then show ?thesis using n by (simp add: HasPrefix_def)
  next
    case False
    let ?d = "length (c # x)"
    have "drop ?d p \<noteq> take (length p - ?d) p" using assms(2) False by (auto simp: list_all_iff)
    then show ?thesis using False by (metis HasPrefix_def append_eq_conv_conj take_all take_append linorder_not_le order_less_imp_le)
  qed
  then show ?case using IH by simp
qed

section \<open>The lines that are written\<close>

definition commented :: "string \<Rightarrow> string" where
  "commented l = ''# '' @ l @ '' # dps-comment''"

definition set_line :: "string \<Rightarrow> string \<Rightarrow> string" where
  "set_line ip l =
     (case getDnsEntryType l of Proxy \<Rightarrow> getDNSLine ip | Server \<Rightarrow> commented l | _ \<Rightarrow> l)"

lemma type_getDNSLine [simp]: "getDnsEntryType (getDNSLine ip) = Proxy"
proof -
  have "getDNSLine ip = (''nameserver '' @ ip @ '' '') @ ''# dps-entry''" by (simp add: getDNSLine_def)
  then show ?thesis unfolding getDnsEntryType_def by (simp only: HasSuffix_append) (simp add: HasSuffix_def)
qed

lemma HasPrefix_word:
  "CHR '' '' \<notin> set p \<Longrightarrow>
   HasPrefix (l @ CHR '' '' # r) (p @ [CHR '' '']) \<longleftrightarrow> HasPrefix (l @ [CHR '' '']) (p @ [CHR '' ''])"
proof (induction p arbitrary: l)
  case Nil
  then show ?case by (cases l) simp_all
next
  case (Cons c p)
  then show ?case by (cases l) auto
qed

text \<open>Only a server that is separated by a space is recognised again once it is commented.\<close>

lemma type_commented:
  "getDnsEntryType (commented l) = (if HasPrefix (l @ '' '') ''nameserver '' then CommentedServer else Comment)"
proof -
  have "commented l = (''# '' @ l @ '' '') @ ''# dps-comment''" by (simp add: commented_def)
  then have "\<not> HasSuffix (commented l) ''# dps-entry''" "HasSuffix (commented l) ''# dps-comment''"
    by (simp_all only: HasSuffix_append) (simp_all add: HasSuffix_def)
  moreover have "HasPrefix (commented l) ''# nameserver '' = HasPrefix (l @ '' '') ''nameserver ''"
    using HasPrefix_word [of "''nameserver''" l "''# dps-comment''"] by (simp add: commented_def)
  moreover have "HasPrefix (commented l) ''#''" by (simp add: commented_def)
  ultimately show ?thesis unfolding getDnsEntryType_def by simp
qed

lemma process_set: "process (setMachineDNSServerHandler ip) l (getDnsEntryType l) = Inr (Some (set_line ip l))"
  by (simp add: set_line_def commented_def split: DnsEntry.split)

lemma map_result_Inr: "map_result (\<lambda>x. Inr (f x)) xs = Inr (map f xs)"
  by (induction xs) simp_all

lemma map_filter_Some: "List.map_filter id (map (\<lambda>x. Some (f x)) xs) = map f xs"
  by (induction xs) (simp_all add: List.map_filter_simps)

lemma new_lines_set:
  "new_lines (setMachineDNSServerHandler ip) ls =
     Inr (map (set_line ip) ls @ (if list_ex (\<lambda>l. getDnsEntryType l = Proxy) ls then [] else [getDNSLine ip]))"
  unfolding new_lines_def process_set map_result_Inr sum.case map_filter_Some by auto

lemma set_line_again: "set_line ip' (set_line ip l) = set_line ip' l"
  by (auto simp: set_line_def type_commented split: DnsEntry.split)

lemma type_set_line: "getDnsEntryType (set_line ip l) = Proxy \<longleftrightarrow> getDnsEntryType l = Proxy"
  by (auto simp: set_line_def type_commented split: DnsEntry.split)

lemma set_line_DNSLine: "set_line ip' (getDNSLine ip) = getDNSLine ip'"
  by (simp add: set_line_def)

text \<open>The last address wins.\<close>

lemma new_lines_set_again:
  assumes "new_lines (setMachineDNSServerHandler ip) ls = Inr ls'"
  shows "new_lines (setMachineDNSServerHandler ip') ls' = new_lines (setMachineDNSServerHandler ip') ls"
proof -
  have "list_ex (\<lambda>l. getDnsEntryType l = Proxy) (map (set_line ip) ls) = list_ex (\<lambda>l. getDnsEntryType l = Proxy) ls"
    by (simp add: list_ex_iff type_set_line)
  then show ?thesis
    using assms by (cases "list_ex (\<lambda>l. getDnsEntryType l = Proxy) ls")
      (auto simp: new_lines_set set_line_DNSLine set_line_again o_def)
qed

section \<open>Taking the server out again\<close>

lemma process_clean_commented:
  assumes "go_Index l '' # dps-comment'' = None" and "HasPrefix l ''nameserver''"
  shows "go_Index (commented l) '' # dps-comment'' = Some (length l + 2)"
proof -
  have "list_all (\<lambda>d. drop d '' # dps-comment'' \<noteq> take (length '' # dps-comment'' - d) '' # dps-comment'')
      [1..<length '' # dps-comment'']" by code_simp
  moreover have "go_Index (''# '' @ l) '' # dps-comment'' = None"
    using assms by (cases l) auto
  ultimately show ?thesis
    using go_Index_at_end [of "'' # dps-comment''" "''# '' @ l"] by (simp add: commented_def)
qed

text \<open>
  \<open>foreign_line\<close>: a line that this program has not written. \<open>restored\<close>: what is left of it after the
  server has been put in and taken out.
\<close>

definition foreign_line :: "string \<Rightarrow> bool" where
  "foreign_line l \<longleftrightarrow> getDnsEntryType l \<noteq> Proxy \<and> getDnsEntryType l \<noteq> CommentedServer \<and>
     go_Index l '' # dps-comment'' = None"

definition restored :: "string \<Rightarrow> string" where
  "restored l = (if getDnsEntryType l = Server \<and> \<not> HasPrefix (l @ '' '') ''nameserver '' then commented l else l)"

lemma Server_prefix: "getDnsEntryType l = Server \<Longrightarrow> HasPrefix l ''nameserver''"
  by (auto simp: getDnsEntryType_def split: if_splits)

lemma process_clean_set:
  assumes "foreign_line l"
  shows "process dnsServerCleanerHandler (set_line ip l) (getDnsEntryType (set_line ip l)) = Inr (Some (restored l))"
proof (cases "getDnsEntryType l = Server")
  case True
  then have "go_Index (commented l) '' # dps-comment'' = Some (length l + 2)"
    using assms by (intro process_clean_commented Server_prefix) (simp_all add: foreign_line_def)
  moreover have "drop 2 (take (length l + 2) (commented l)) = l" by (simp add: commented_def)
  ultimately show ?thesis using True by (simp add: set_line_def type_commented restored_def)
next
  case False
  then show ?thesis
    using assms by (cases "getDnsEntryType l") (simp_all add: set_line_def restored_def foreign_line_def)
qed

lemma map_result_append:
  "map_result f xs = Inr ys \<Longrightarrow> map_result f zs = Inr ws \<Longrightarrow> map_result f (xs @ zs) = Inr (ys @ ws)"
  by (induction xs arbitrary: ys) (auto split: sum.splits)

lemma new_lines_clean_set:
  assumes "list_all foreign_line ls" and "new_lines (setMachineDNSServerHandler ip) ls = Inr ls'"
  shows "new_lines dnsServerCleanerHandler ls' = Inr (map restored ls)"
proof -
  have ls': "ls' = map (set_line ip) ls @ [getDNSLine ip]"
    using assms by (auto simp: new_lines_set list_ex_iff list_all_iff foreign_line_def split: if_splits)
  have "map_result (\<lambda>l. process dnsServerCleanerHandler l (getDnsEntryType l)) (map (set_line ip) ls)
      = Inr (map (\<lambda>l. Some (restored l)) ls)"
    using assms(1) by (induction ls) (simp_all add: process_clean_set del: process.simps)
  from map_result_append [OF this, of "[getDNSLine ip]" "[None]"] show ?thesis
    by (simp add: new_lines_def ls' map_filter_Some List.map_filter_def)
qed

text \<open>\<open>short_line\<close>: a line that still fits the scanner's buffer once it is commented.\<close>

definition short_line :: "string \<Rightarrow> bool" where
  "short_line l \<longleftrightarrow> plain_line l \<and> length l < 65520"

lemma plain_set_line: "short_line l \<Longrightarrow> plain_line (getDNSLine ip) \<Longrightarrow> plain_line (set_line ip l)"
  by (auto simp: set_line_def short_line_def plain_line_def commented_def split: DnsEntry.split)

lemma plain_new_lines:
  assumes "list_all short_line ls" and "plain_line (getDNSLine ip)" and "new_lines (setMachineDNSServerHandler ip) ls = Inr ls'"
  shows "list_all plain_line ls'"
  using assms by (auto simp: new_lines_set list_all_iff plain_set_line split: if_splits)

lemma set_then_restore:
  assumes "list_all short_line ls" and "list_all foreign_line ls" and "plain_line (getDNSLine ip)"
    and "f = \<lparr>rc_text = Some (print_lines ls), rc_writable = True\<rparr>"
  shows "\<exists>f'. SetMachineDnsServer ip f = Inr (None, f') \<and>
    RestoreResolvconfToDefault f' = Inr (None, f\<lparr>rc_text := Some (print_lines (map restored ls))\<rparr>)"
proof -
  obtain ls' where ls': "new_lines (setMachineDNSServerHandler ip) ls = Inr ls'" by (simp add: new_lines_set)
  have "scan_lines (print_lines ls) = ls" "scan_lines (print_lines ls') = ls'"
    using assms(1) plain_new_lines [OF assms(1,3) ls'] by (auto simp: short_line_def list_all_iff intro!: scan_print_lines)
  then show ?thesis
    using ls' new_lines_clean_set [OF assms(2) ls']
    by (simp add: assms(4) SetMachineDnsServer_def RestoreResolvconfToDefault_def ProcessResolvconf_def)
qed

section \<open>Properties\<close>

text \<open>
  C37. Putting the server into \<open>resolv.conf\<close> and taking it out again gives back the file, line by line,
  except for name servers that are not separated from their keyword by a space: those stay commented
  out, and the machine has lost them.
\<close>

theorem restore_after_set:
  assumes "list_all short_line ls" and "list_all foreign_line ls" and "plain_line (getDNSLine ip)"
    and "f = \<lparr>rc_text = Some (print_lines ls), rc_writable = True\<rparr>"
  shows "\<exists>f'. SetMachineDnsServer ip f = Inr (None, f') \<and>
    RestoreResolvconfToDefault f' = Inr (None, f\<lparr>rc_text := Some (print_lines (map restored ls))\<rparr>)"
  using assms by (rule set_then_restore)

theorem restore_after_set_witness:
  "\<exists>f'. SetMachineDnsServer ''9.9.9.9'' \<lparr>rc_text = Some (print_lines [''nameserver 8.8.8.8'', ''nameserver'' @ CHR 0x09 # ''1.1.1.1'']),
      rc_writable = True\<rparr> = Inr (None, f') \<and>
    RestoreResolvconfToDefault f' = Inr (None, \<lparr>rc_text = Some (print_lines [''nameserver 8.8.8.8'',
      ''# nameserver'' @ CHR 0x09 # ''1.1.1.1 # dps-comment'']), rc_writable = True\<rparr>)"
proof -
  let ?ls = "[''nameserver 8.8.8.8'', ''nameserver'' @ CHR 0x09 # ''1.1.1.1'']"
  have 1: "list_all short_line ?ls" "plain_line (getDNSLine ''9.9.9.9'')"
    by (simp_all add: short_line_def plain_line_def getDNSLine_def)
  have t: "getDnsEntryType (?ls ! 0) = Server" "getDnsEntryType (?ls ! 1) = Server" by code_simp+
  have "go_Index (?ls ! 0) '' # dps-comment'' = None" "go_Index (?ls ! 1) '' # dps-comment'' = None" by simp_all
  with t have 2: "list_all foreign_line ?ls" by (simp add: foreign_line_def)
  have "map restored ?ls = [''nameserver 8.8.8.8'', ''# nameserver'' @ CHR 0x09 # ''1.1.1.1 # dps-comment'']"
    using t by (simp add: restored_def commented_def)
  with restore_after_set [OF 1(1) 2 1(2) refl] show ?thesis by simp
qed

text \<open>
  Setting the machine's server is stable: the server writes it every twenty seconds, and a second
  run, with the same or another address, leaves the file that this address alone would have given.
\<close>

lemma set_twice:
  assumes "list_all short_line ls" and "plain_line (getDNSLine ip)"
    and "f = \<lparr>rc_text = Some (print_lines ls), rc_writable = True\<rparr>"
    and "SetMachineDnsServer ip f = Inr (None, f')"
  shows "SetMachineDnsServer ip' f' = SetMachineDnsServer ip' f"
proof -
  obtain ls' where ls': "new_lines (setMachineDNSServerHandler ip) ls = Inr ls'" by (simp add: new_lines_set)
  have s: "scan_lines (print_lines ls) = ls" "scan_lines (print_lines ls') = ls'"
    using assms(1) plain_new_lines [OF assms(1,2) ls'] by (auto simp: short_line_def list_all_iff intro!: scan_print_lines)
  then have "f' = f\<lparr>rc_text := Some (print_lines ls')\<rparr>"
    using assms(3,4) ls' by (simp add: SetMachineDnsServer_def ProcessResolvconf_def)
  then show ?thesis
    using new_lines_set_again [OF ls', of ip'] s assms(3)
    by (simp add: SetMachineDnsServer_def ProcessResolvconf_def split: sum.split)
qed

end
