(* ===== verification/Conf.thy ===== *)
theory Conf
  imports Storage
begin

text \<open>
  \<open>src/conf/conf.go\<close>: the settings, each looked up in an environment variable (argument \<open>env\<close>, the
  function \<open>os.Getenv\<close>), in the configuration file and in the command line's flags (argument \<open>fl\<close>), in
  the order the source has. Every look at the file is a \<open>LoadConfiguration\<close> of theory \<open>Storage\<close>.
\<close>

record flag_values =
  fWebServerPort :: int
  fDnsServerPort :: int
  fSetupResolvconf :: bool
  fLogLevel :: string
  fLogToFile :: string
  fRegisterContainerNames :: bool
  fHostMachineHostname :: string
  fDomain :: string
  fDpsNetwork :: bool
  fDpsNetworkAutoConnect :: bool

type_synonym env_vars = "string \<Rightarrow> string"

section \<open>Looking up a setting\<close>

text \<open>\<open>conf, _ := getConf()\<close>: a configuration that cannot be loaded is \<open>nil\<close>.\<close>

definition getConf :: "('m, Configuration option) go" where
  "getConf s =
     (case LoadConfiguration s of
        Inl p \<Rightarrow> Inl p
      | Inr (Inl err, s') \<Rightarrow> Inr (None, s')
      | Inr (Inr c, s') \<Rightarrow> Inr (Some c, s'))"

text \<open>\<open>if conf, _ := getConf(); conf != nil && ... return ...\<close>, then the default.\<close>

definition from_conf :: "(Configuration \<Rightarrow> 'a option) \<Rightarrow> 'a \<Rightarrow> ('m, 'a) go" where
  "from_conf pick dflt s =
     (case getConf s of
        Inl p \<Rightarrow> Inl p
      | Inr (c, s') \<Rightarrow> Inr (case Option.bind c pick of None \<Rightarrow> dflt | Some v \<Rightarrow> v, s'))"

definition non_empty :: "string \<Rightarrow> string option" where
  "non_empty v = (if length v \<noteq> 0 then Some v else None)"

definition positive :: "int \<Rightarrow> int option" where
  "positive n = (if n > 0 then Some n else None)"

definition blank :: "string \<Rightarrow> bool" where
  "blank v \<longleftrightarrow> length (go_TrimSpace v) = 0"

definition GetString :: "string \<Rightarrow> string \<Rightarrow> string" where
  "GetString value defaultValue = (if length value = 0 then defaultValue else value)"

section \<open>The settings\<close>

definition conf_WebServerPort :: "flag_values \<Rightarrow> ('m, int) go" where
  "conf_WebServerPort fl = from_conf (\<lambda>c. positive (WebServerPort c)) (fWebServerPort fl)"

definition conf_DnsServerPort :: "flag_values \<Rightarrow> ('m, int) go" where
  "conf_DnsServerPort fl = from_conf (\<lambda>c. positive (DnsServerPort c)) (fDnsServerPort fl)"

definition conf_SetupResolvConf :: "flag_values \<Rightarrow> ('m, bool) go" where
  "conf_SetupResolvConf fl = from_conf DefaultDns (fSetupResolvconf fl)"

definition GetResolvConf :: "env_vars \<Rightarrow> string" where
  "GetResolvConf env = GetString (env ''MG_RESOLVCONF'') ''/etc/resolv.conf''"

datatype log_level = LogDEBUG | LogINFO | LogWARNING | LogERROR

definition logKeyToSyslogCode :: "string \<Rightarrow> (go_panic, log_level) result" where
  "logKeyToSyslogCode key =
     (let k = map to_upper key in
      if k = ''DEBUG'' then Inr LogDEBUG
      else if k = ''INFO'' then Inr LogINFO
      else if k = ''WARNING'' then Inr LogWARNING
      else if k = ''ERROR'' then Inr LogERROR
      else Inl (PanicMessage (''Unknown log level: '' @ key)))"

definition conf_LogLevel :: "env_vars \<Rightarrow> flag_values \<Rightarrow> ('m, log_level) go" where
  "conf_LogLevel env fl s =
     (if env ''MG_LOG_LEVEL'' \<noteq> '''' then
        (case logKeyToSyslogCode (env ''MG_LOG_LEVEL'') of Inl p \<Rightarrow> Inl p | Inr l \<Rightarrow> Inr (l, s))
      else
        (case from_conf (\<lambda>c. non_empty (LogLevel c)) (fLogLevel fl) s of
           Inl p \<Rightarrow> Inl p
         | Inr (key, s') \<Rightarrow> (case logKeyToSyslogCode key of Inl p \<Rightarrow> Inl p | Inr l \<Rightarrow> Inr (l, s'))))"

definition conf_LogFile :: "env_vars \<Rightarrow> flag_values \<Rightarrow> ('m, string) go" where
  "conf_LogFile env fl s =
     (let v = env ''MG_LOG_FILE'' in
      case from_conf (\<lambda>c. if v = '''' then non_empty (LogFile c) else None) v s of
        Inl p \<Rightarrow> Inl p
      | Inr (f, s') \<Rightarrow>
          (let f = GetString f (fLogToFile fl); k = map to_lower f in
           Inr (if k = ''true'' then ''/var/log/dns-proxy-server.log'' else if k = ''false'' then '''' else f, s')))"

definition ShouldRegisterContainerNames :: "env_vars \<Rightarrow> flag_values \<Rightarrow> ('m, bool) go" where
  "ShouldRegisterContainerNames env fl s =
     (let v = env ''MG_REGISTER_CONTAINER_NAMES'' in
      if \<not> blank v then Inr (v = ''1'', s)
      else from_conf RegisterContainerNames (fRegisterContainerNames fl) s)"

definition conf_GetHostname :: "env_vars \<Rightarrow> flag_values \<Rightarrow> ('m, string) go" where
  "conf_GetHostname env fl s =
     (let v = env ''MG_HOST_MACHINE_HOSTNAME'' in
      if \<not> blank v then Inr (v, s)
      else from_conf (\<lambda>c. non_empty (HostMachineHostname c)) (fHostMachineHostname fl) s)"

definition GetDpsDomain :: "env_vars \<Rightarrow> flag_values \<Rightarrow> ('m, string) go" where
  "GetDpsDomain env fl s =
     (let v = env ''MG_DOMAIN'' in
      if \<not> blank v then Inr (v, s)
      else from_conf (\<lambda>c. non_empty (Domain c)) (fDomain fl) s)"

definition FormatDpsDomain :: "env_vars \<Rightarrow> flag_values \<Rightarrow> string \<Rightarrow> ('m, string) go" where
  "FormatDpsDomain env fl subdomain s =
     (case GetDpsDomain env fl s of Inl p \<Rightarrow> Inl p | Inr (d, s') \<Rightarrow> Inr (subdomain @ ''.'' @ d, s'))"

text \<open>The two network settings read the configuration without a test for \<open>nil\<close>.\<close>

definition dpsNetwork0 :: "env_vars \<Rightarrow> flag_values \<Rightarrow> ('m, bool) go" where
  "dpsNetwork0 env fl s =
     (let v = env ''MG_DPS_NETWORK'' in
      if \<not> blank v then Inr (v = ''1'', s)
      else
        (case getConf s of
           Inl p \<Rightarrow> Inl p
         | Inr (None, s') \<Rightarrow> Inl PanicNilDereference
         | Inr (Some c, s') \<Rightarrow>
             Inr (case DpsNetwork c of Some b \<Rightarrow> b | None \<Rightarrow> fDpsNetwork fl \<or> fDpsNetworkAutoConnect fl, s')))"

definition conf_DpsNetworkAutoConnect :: "env_vars \<Rightarrow> flag_values \<Rightarrow> ('m, bool) go" where
  "conf_DpsNetworkAutoConnect env fl s =
     (let v = env ''MG_DPS_NETWORK_AUTO_CONNECT'' in
      if \<not> blank v then Inr (v = ''1'', s)
      else
        (case getConf s of
           Inl p \<Rightarrow> Inl p
         | Inr (None, s') \<Rightarrow> Inl PanicNilDereference
         | Inr (Some c, s') \<Rightarrow>
             if DpsNetwork c \<noteq> None then
               (case DpsNetworkAutoConnect c of Some b \<Rightarrow> Inr (b, s') | None \<Rightarrow> Inl PanicNilDereference)
             else Inr (fDpsNetworkAutoConnect fl, s')))"

definition conf_DpsNetwork :: "env_vars \<Rightarrow> flag_values \<Rightarrow> ('m, bool) go" where
  "conf_DpsNetwork env fl s =
     (case conf_DpsNetworkAutoConnect env fl s of
        Inl p \<Rightarrow> Inl p
      | Inr (b, s') \<Rightarrow> if b then Inr (True, s') else dpsNetwork0 env fl s')"

section \<open>Precedence\<close>

lemma getConf_holds: "holds s c \<Longrightarrow> getConf s = Inr (Some c, s)"
  by (simp add: getConf_def LoadConfiguration_holds)

lemma from_conf_holds: "holds s c \<Longrightarrow> from_conf pick dflt s = Inr (case pick c of None \<Rightarrow> dflt | Some v \<Rightarrow> v, s)"
  by (simp add: from_conf_def getConf_holds)

text \<open>
  A configuration that names a network option but not the automatic connection stops the program: the
  test asks for the first option and the second is read.
\<close>

lemma auto_connect_panics:
  assumes "holds s c" and "blank (env ''MG_DPS_NETWORK_AUTO_CONNECT'')"
  shows "conf_DpsNetwork env fl s = Inl PanicNilDereference \<longleftrightarrow>
    DpsNetwork c \<noteq> None \<and> DpsNetworkAutoConnect c = None"
  using assms
  by (auto simp: conf_DpsNetwork_def conf_DpsNetworkAutoConnect_def dpsNetwork0_def getConf_holds Let_def
      split: option.splits)

end
