(* ===== verification/Service.thy ===== *)
theory Service
  imports ResolvConf Conf
begin

text \<open>
  \<open>src/service\<close>, \<open>utils/exec.go\<close>, the paths of \<open>utils/utils.go\<close> and the locking of \<open>resolv.conf\<close>: everything that
  runs other programs. The operating system is the parameter \<open>os_api\<close>: running a program and writing an
  executable file, over a state of any type.
\<close>

section \<open>Programs\<close>

text \<open>How a program ended: with a status, by a signal (with the text of the error), or not started at all.\<close>

datatype run_result = Exited nat | Signaled string | NotRun string

record 'w os_api =
  os_run :: "string list \<Rightarrow> 'w \<Rightarrow> run_result \<times> 'w"
  os_create :: "string \<Rightarrow> string \<Rightarrow> 'w \<Rightarrow> string option \<times> 'w"

text \<open>A step may also end the process, with the argument of \<open>os.Exit\<close>, or panic.\<close>

datatype 'a outcome = Done 'a | ExitProcess int | Panicked go_panic

type_synonym ('w, 'a) os = "'w \<Rightarrow> 'a outcome \<times> 'w"

definition bind_os :: "('w, 'a) os \<Rightarrow> ('a \<Rightarrow> ('w, 'b) os) \<Rightarrow> ('w, 'b) os" where
  "bind_os m f w =
     (case m w of
        (Done a, w') \<Rightarrow> f a w'
      | (ExitProcess n, w') \<Rightarrow> (ExitProcess n, w')
      | (Panicked p, w') \<Rightarrow> (Panicked p, w'))"

definition ret_os :: "'a \<Rightarrow> ('w, 'a) os" where
  "ret_os a w = (Done a, w)"

definition exit_os :: "int \<Rightarrow> ('w, 'a) os" where
  "exit_os n w = (ExitProcess n, w)"

fun run_error :: "run_result \<Rightarrow> string option" where
  "run_error (Exited n) = (if n = 0 then None else Some (''exit status '' @ show_nat n))"
| "run_error (Signaled err) = Some err"
| "run_error (NotRun err) = Some err"

fun run_code :: "run_result \<Rightarrow> int" where
  "run_code (Exited n) = int n"
| "run_code (Signaled _) = - 1"
| "run_code (NotRun _) = - 255"

definition Exec :: "'w os_api \<Rightarrow> string list \<Rightarrow> ('w, string option \<times> int) os" where
  "Exec api cmd w = (let (r, w') = os_run api cmd w in (Done (run_error r, run_code r), w'))"

definition Exists :: "'w os_api \<Rightarrow> string \<Rightarrow> ('w, bool) os" where
  "Exists api cmd =
     bind_os (Exec api [''sh'', ''-c'', ''command -v '' @ cmd @ '' || false'']) (\<lambda>(_, i) w.
     if i = 0 then (Done True, w)
     else if i = - 255 then (Panicked (PanicMessage ''Command checker not exists''), w)
     else (Done False, w))"

section \<open>Locking\<close>

text \<open>\<open>Run\<close> reports every status but zero as an error, so the test of the status that follows it never holds.\<close>

definition LockFile :: "'w os_api \<Rightarrow> bool \<Rightarrow> string \<Rightarrow> ('w, string option) os" where
  "LockFile api lock file =
     bind_os (Exec api [''chattr'', if lock then ''+i'' else ''-i'', file]) (\<lambda>(err, _). ret_os err)"

definition LockResolvConf :: "'w os_api \<Rightarrow> env_vars \<Rightarrow> ('w, string option) os" where
  "LockResolvConf api env = LockFile api True (GetResolvConf env)"

definition UnlockResolvConf :: "'w os_api \<Rightarrow> env_vars \<Rightarrow> ('w, string option) os" where
  "UnlockResolvConf api env = LockFile api True (GetResolvConf env)"

section \<open>Paths\<close>

text \<open>\<open>exeDir\<close> is the directory of the program, \<open>filepath.Abs(filepath.Dir(os.Args[0]))\<close>.\<close>

definition GetCurrentPath :: "env_vars \<Rightarrow> string \<Rightarrow> string" where
  "GetCurrentPath env exeDir =
     (let currDir = env ''MG_WORK_DIR'' in if length currDir \<noteq> 0 then currDir else exeDir)"

definition SolveRelativePath :: "env_vars \<Rightarrow> string \<Rightarrow> string \<Rightarrow> string" where
  "SolveRelativePath env exeDir path =
     (let path = (if \<not> HasPrefix path ''/'' then ''/'' @ path else path);
          currentPath = GetCurrentPath env exeDir;
          currentPath = (if HasSuffix currentPath ''/'' then take (length currentPath - 1) currentPath else currentPath)
      in currentPath @ path)"

definition GetPath :: "env_vars \<Rightarrow> string \<Rightarrow> string \<Rightarrow> string" where
  "GetPath env exeDir path = (if HasPrefix path ''/'' then path else SolveRelativePath env exeDir path)"

section \<open>The service\<close>

definition DNS_PROXY_SERVER_SERVICE :: string where "DNS_PROXY_SERVER_SERVICE = ''dns-proxy-server''"
definition DNS_PROXY_SERVER_PATH :: string where "DNS_PROXY_SERVER_PATH = ''/etc/init.d/dns-proxy-server''"

text \<open>The init script: its lines before and after the one that names the program.\<close>

definition template_head :: "string list" where
  "template_head =
     [''#!/bin/sh'',
      ''### BEGIN INIT INFO'',
      ''# Provides:          dns-proxy-server'',
      ''# Required-Start:    $local_fs $network $named $time $syslog'',
      ''# Required-Stop:     $local_fs $network $named $time $syslog'',
      ''# Default-Start:     2 3 4 5'',
      ''# Default-Stop:      0 1 6'',
      ''# Description:       DNS PROXY SERVER'',
      ''### END INIT INFO'',
      '''']"

definition template_tail :: "string list" where
  "template_tail =
     [''RUNAS=root'',
      '''',
      ''PIDFILE=/var/run/dns-proxy-server.pid'',
      ''LOGFILE=/var/log/dns-proxy-server.log'',
      '''',
      ''start() {'',
      ''  if [ -f /var/run/$PIDNAME ] && kill -0 $(cat /var/run/$PIDNAME); then'',
      ''    echo '' @ [CHR 0x27] @ ''Service already running'' @ [CHR 0x27] @ '' >&2'',
      ''    return 1'',
      ''  fi'',
      ''  echo '' @ [CHR 0x27] @ ''Starting service'' @ [CHR 0xE2] @ [CHR 0x80] @ [CHR 0xA6] @ [CHR 0x27] @ '' >&2'',
      ''  local CMD='' @ [CHR 0x22] @ ''$SCRIPT &> '' @ [CHR 0x5C] @ [CHR 0x22] @ ''$LOGFILE'' @ [CHR 0x5C] @ [CHR 0x22] @ '' & echo '' @ [CHR 0x5C] @ ''$!'' @ [CHR 0x22],
      ''  su -c '' @ [CHR 0x22] @ ''$CMD'' @ [CHR 0x22] @ '' $RUNAS > '' @ [CHR 0x22] @ ''$PIDFILE'' @ [CHR 0x22],
      ''  echo '' @ [CHR 0x27] @ ''Service started'' @ [CHR 0x27] @ '' >&2'',
      ''}'',
      '''',
      ''stop() {'',
      ''  if [ ! -f '' @ [CHR 0x22] @ ''$PIDFILE'' @ [CHR 0x22] @ '' ] || ! kill -0 $(cat '' @ [CHR 0x22] @ ''$PIDFILE'' @ [CHR 0x22] @ ''); then'',
      ''    echo '' @ [CHR 0x27] @ ''Service not running'' @ [CHR 0x27] @ '' >&2'',
      ''    return 1'',
      ''  fi'',
      ''  echo '' @ [CHR 0x27] @ ''Stopping service'' @ [CHR 0xE2] @ [CHR 0x80] @ [CHR 0xA6] @ [CHR 0x27] @ '' >&2'',
      ''  kill -15 $(cat '' @ [CHR 0x22] @ ''$PIDFILE'' @ [CHR 0x22] @ '') && rm -f '' @ [CHR 0x22] @ ''$PIDFILE'' @ [CHR 0x22],
      ''  echo '' @ [CHR 0x27] @ ''Service stopped'' @ [CHR 0x27] @ '' >&2'',
      ''}'',
      '''',
      ''uninstall() {'',
      ''  echo -n '' @ [CHR 0x22] @ ''Are you really sure you want to uninstall this service? That cannot be undone. [yes|No] '' @ [CHR 0x22],
      ''  local SURE'',
      ''  read SURE'',
      ''  if [ '' @ [CHR 0x22] @ ''$SURE'' @ [CHR 0x22] @ '' = '' @ [CHR 0x22] @ ''yes'' @ [CHR 0x22] @ '' ]; then'',
      ''    stop'',
      ''    rm -f '' @ [CHR 0x22] @ ''$PIDFILE'' @ [CHR 0x22],
      ''    echo '' @ [CHR 0x22] @ ''Notice: log file is not be removed: '' @ [CHR 0x27] @ ''$LOGFILE'' @ [CHR 0x27] @ [CHR 0x22] @ '' >&2'',
      ''    update-rc.d -f dns-proxy-server remove'',
      ''    rm -fv '' @ [CHR 0x22] @ ''$0'' @ [CHR 0x22],
      ''  fi'',
      ''}'',
      '''',
      ''case '' @ [CHR 0x22] @ ''$1'' @ [CHR 0x22] @ '' in'',
      ''  start)'',
      ''    start'',
      ''    ;;'',
      ''  stop)'',
      ''    stop'',
      ''    ;;'',
      ''  uninstall)'',
      ''    uninstall'',
      ''    ;;'',
      ''  restart)'',
      ''    stop'',
      ''    start'',
      ''    ;;'',
      ''  *)'',
      ''    echo '' @ [CHR 0x22] @ ''Usage: $0 {start|stop|restart|uninstall}'' @ [CHR 0x22],
      ''esac'']"

definition SERVICE_TEMPLATE :: "string \<Rightarrow> string" where
  "SERVICE_TEMPLATE script = print_lines (template_head @ [''SCRIPT='' @ script] @ template_tail)"

record start_flags =
  sf_conf :: flag_values
  sf_service :: string
  sf_publish :: bool
  sf_version :: string
  sf_tsig :: string
  sf_cpuprofile :: string

definition show_int :: "int \<Rightarrow> string" where
  "show_int n = (if n < 0 then ''-'' @ show_nat (nat (- n)) else show_nat (nat n))"

definition getExposedPort :: "start_flags \<Rightarrow> ('m, string) go" where
  "getExposedPort fl s =
     (if sf_publish fl then
        (case conf_WebServerPort (sf_conf fl) s of
           Inl p \<Rightarrow> Inl p
         | Inr (a, s1) \<Rightarrow>
             (case conf_WebServerPort (sf_conf fl) s1 of
                Inl p \<Rightarrow> Inl p
              | Inr (b, s2) \<Rightarrow> Inr (''-p '' @ show_int a @ '':'' @ show_int b, s2)))
      else Inr ('''', s))"

definition NewDockerScript :: "env_vars \<Rightarrow> start_flags \<Rightarrow> ('m, string) go" where
  "NewDockerScript env fl s =
     (case FormatDpsDomain env (sf_conf fl) ''dns'' s of
        Inl p \<Rightarrow> Inl p
      | Inr (domain, s1) \<Rightarrow>
          (case getExposedPort fl s1 of
             Inl p \<Rightarrow> Inl p
           | Inr (port, s2) \<Rightarrow>
               Inr ([CHR 0x27] @ ''PATH=/usr/local/sbin:/usr/local/bin:/usr/sbin:/usr/bin:/sbin:/bin ; '' @
                 ''docker rm -f dns-proxy-server &> /dev/null ;'' @
                 ''docker run -e HOSTNAMES=dns.mageddo,'' @ domain @ '' --name dns-proxy-server '' @ port @ '' '' @
                 ''-v /opt/dns-proxy-server/conf:/app/conf '' @
                 ''-v /var/run/docker.sock:/var/run/docker.sock '' @
                 ''-v /etc/resolv.conf:/etc/resolv.conf '' @
                 ''defreitas/dns-proxy-server:'' @ sf_version fl @ [CHR 0x27], s2)))"

definition NewNormalScript :: "env_vars \<Rightarrow> string \<Rightarrow> string" where
  "NewNormalScript env exeDir = SolveRelativePath env exeDir ''/dns-proxy-server''"

text \<open>\<open>SetupFor\<close> gives the text of an error, if any.\<close>

definition register_boot :: "'w os_api \<Rightarrow> string \<Rightarrow> ('w, unit) os" where
  "register_boot api serviceName =
     bind_os (Exists api ''update-rc.d'') (\<lambda>debian.
     if debian then
       bind_os (Exec api [''update-rc.d'', serviceName, ''defaults'']) (\<lambda>(err, _).
       if err \<noteq> None then exit_os (- 1) else ret_os ())
     else
       bind_os (Exists api ''chkconfig'') (\<lambda>redhat.
       if redhat then
         bind_os (Exec api [''chkconfig'', serviceName, ''on'']) (\<lambda>(err, _).
         if err \<noteq> None then exit_os (- 2) else ret_os ())
       else ret_os ()))"

definition SetupFor :: "'w os_api \<Rightarrow> string \<Rightarrow> string \<Rightarrow> string \<Rightarrow> ('w, string option) os" where
  "SetupFor api servicePath serviceName script w0 =
     (case os_create api servicePath (SERVICE_TEMPLATE script) w0 of
        (Some err, w) \<Rightarrow> (Done (Some (''status=service-template, msg=status=service-template, msg='' @ err)), w)
      | (None, w) \<Rightarrow>
          bind_os (register_boot api serviceName) (\<lambda>_.
          bind_os (Exec api [''service'', serviceName, ''stop'']) (\<lambda>_.
          bind_os (Exec api [''service'', serviceName, ''start'']) (\<lambda>(err, _).
          ret_os (case err of Some e \<Rightarrow> Some (''status=start-service, msg='' @ e) | None \<Rightarrow> None)))) w)"

definition Uninstall :: "'w os_api \<Rightarrow> ('w, string option) os" where
  "Uninstall api =
     bind_os (Exec api [''service'', DNS_PROXY_SERVER_SERVICE, ''stop'']) (\<lambda>_.
     bind_os (Exists api ''update-rc.d'') (\<lambda>debian.
     bind_os
       (if debian then Exec api [''update-rc.d'', ''-f'', DNS_PROXY_SERVER_SERVICE, ''remove'']
        else
          bind_os (Exists api ''chkconfig'') (\<lambda>redhat.
          if redhat then Exec api [''chkconfig'', DNS_PROXY_SERVER_SERVICE, ''off''] else ret_os (None, 0)))
       (\<lambda>(err, _). ret_os (case err of Some e \<Rightarrow> Some (''status=fatal-remove-service, msg='' @ e) | None \<Rightarrow> None))))"

text \<open>
  \<open>Install\<close>, called first by \<open>main\<close>: the process goes on only without the option. The scripts read the
  configuration, which is why the server's state is passed too.
\<close>

definition report :: "string option \<Rightarrow> ('w, 'a) os" where
  "report err = (if err \<noteq> None then exit_os (- 1) else exit_os 0)"

definition Install :: "'w os_api \<Rightarrow> env_vars \<Rightarrow> string \<Rightarrow> start_flags \<Rightarrow> 'm server \<Rightarrow> ('w, 'm server) os" where
  "Install api env exeDir fl s =
     (let serviceMode = sf_service fl in
      if length serviceMode = 0 then ret_os s
      else if serviceMode = ''docker'' then
        (case NewDockerScript env fl s of
           Inl p \<Rightarrow> (\<lambda>w. (Panicked p, w))
         | Inr (script, _) \<Rightarrow> bind_os (SetupFor api DNS_PROXY_SERVER_PATH DNS_PROXY_SERVER_SERVICE script) report)
      else if serviceMode = ''normal'' then
        bind_os (SetupFor api DNS_PROXY_SERVER_PATH DNS_PROXY_SERVER_SERVICE (NewNormalScript env exeDir)) report
      else if serviceMode = ''uninstall'' then bind_os (Uninstall api) (\<lambda>_. report None)
      else report None)"

section \<open>What installation does\<close>

lemmas os_simps = bind_os_def ret_os_def exit_os_def Exec_def

lemma fst_bind_os:
  "fst (bind_os m f w) =
     (case fst (m w) of Done a \<Rightarrow> fst (f a (snd (m w))) | ExitProcess n \<Rightarrow> ExitProcess n | Panicked p \<Rightarrow> Panicked p)"
  by (cases "m w") (auto simp: bind_os_def split: outcome.splits)

lemma report_exits: "fst (report err w) \<noteq> Done x"
  by (simp add: report_def exit_os_def)

lemma bind_report: "fst (bind_os m report w) \<noteq> Done x" "fst (bind_os m (\<lambda>_. report None) w) \<noteq> Done x"
  by (simp_all add: fst_bind_os report_exits split: outcome.splits)

text \<open>With the option the process never goes on to serve questions.\<close>

lemma Install_ends:
  assumes "sf_service fl \<noteq> ''''"
  shows "fst (Install api env exeDir fl s w) \<noteq> Done s'"
  using assms by (simp add: Install_def Let_def bind_report report_exits split: sum.split)

text \<open>
  Whatever becomes of the commands, \<open>uninstall\<close> ends with status 0 (unless there is no shell): the error that
  \<open>Uninstall\<close> returns is dropped. A misspelt option ends with status 0 too and does nothing.
\<close>

definition no_shell :: "'a outcome" where
  "no_shell = Panicked (PanicMessage ''Command checker not exists'')"

definition may_lack_shell :: "('w, 'a) os \<Rightarrow> bool" where
  "may_lack_shell m \<longleftrightarrow> (\<forall>w. fst (m w) = no_shell \<or> (\<exists>a. fst (m w) = Done a))"

lemma may_lack_shell_bind: "may_lack_shell m \<Longrightarrow> (\<And>a. may_lack_shell (f a)) \<Longrightarrow> may_lack_shell (bind_os m f)"
proof -
  assume m: "may_lack_shell m" and f: "\<And>a. may_lack_shell (f a)"
  have "fst (bind_os m f w) = no_shell \<or> (\<exists>b. fst (bind_os m f w) = Done b)" for w
  proof (cases "fst (m w)")
    case (Done a)
    with f [of a] show ?thesis by (simp add: fst_bind_os may_lack_shell_def)
  qed (use m [unfolded may_lack_shell_def, rule_format, of w] in \<open>simp_all add: fst_bind_os no_shell_def\<close>)
  then show ?thesis by (simp add: may_lack_shell_def)
qed

lemma may_lack_shell_basic: "may_lack_shell (Exec api cmd)" "may_lack_shell (ret_os a)" "may_lack_shell (Exists api c)"
  by (auto simp: may_lack_shell_def Exec_def ret_os_def Exists_def fst_bind_os no_shell_def split: prod.splits)

lemma may_lack_shell_Uninstall: "may_lack_shell (Uninstall api)"
  unfolding Uninstall_def by (intro may_lack_shell_bind may_lack_shell_basic) (auto intro!: may_lack_shell_bind may_lack_shell_basic)

lemma uninstall_reports_success:
  assumes "sf_service fl = ''uninstall''"
  shows "fst (Install api env exeDir fl s w) \<in> {ExitProcess 0, no_shell}"
  using assms may_lack_shell_Uninstall [unfolded may_lack_shell_def, rule_format, of api w]
  by (auto simp: Install_def report_def fst_bind_os exit_os_def no_shell_def)

lemma unknown_mode_ignored:
  "sf_service fl \<notin> {'''', ''docker'', ''normal'', ''uninstall''} \<Longrightarrow> Install api env exeDir fl s w = (ExitProcess 0, w)"
  by (simp add: Install_def report_def exit_os_def)

text \<open>When \<open>SetupFor\<close> reports no error, the script was written and the service was started, last.\<close>

lemma SetupFor_started:
  assumes "SetupFor api path name script w = (Done None, w')"
  shows "\<exists>w1 w2. os_create api path (SERVICE_TEMPLATE script) w = (None, w1) \<and>
    os_run api [''service'', name, ''start''] w2 = (Exited 0, w')"
proof -
  obtain w1 where w1: "os_create api path (SERVICE_TEMPLATE script) w = (None, w1)"
    using assms by (auto simp: SetupFor_def split: prod.splits option.splits)
  have none: "run_error r = None \<longleftrightarrow> r = Exited 0" for r by (cases r) auto
  from assms w1 show ?thesis
    by (auto simp: SetupFor_def os_simps none split: outcome.splits prod.splits option.splits)
qed

text \<open>Unlocking \<open>resolv.conf\<close> is locking it.\<close>

lemma unlock_locks: "UnlockResolvConf api env = LockResolvConf api env"
  by (simp add: UnlockResolvConf_def LockResolvConf_def)

end
