(* ===== verification/Api.thy ===== *)
theory Api
  imports Storage
begin

text \<open>
  The REST interface of the web console: \<open>src/controller/v1/hostname.go\<close>, \<open>env.go\<close> and
  the value objects of \<open>src/controller/v1/vo/\<close>. A request body is the JSON value its text
  denotes (\<open>None\<close>: not JSON); numbers are integers, the only ones the front end sends.
  \<open>encoding/json\<close> keeps the first type error, goes on with the other fields, and reports
  the error at the end. The text of its errors is the parameter \<open>jerr_text\<close>.
\<close>

section \<open>JSON values\<close>

datatype json =
    JNull
  | JBool bool
  | JNum int
  | JStr string
  | JArr "json list"
  | JObj "(string \<times> json) list"

datatype jerr = SyntaxErr | UnmarshalTypeErr string

definition keep_first :: "jerr option \<Rightarrow> jerr option \<Rightarrow> jerr option" where
  "keep_first old new = (case old of None \<Rightarrow> new | Some e \<Rightarrow> Some e)"

text \<open>A key names the field with exactly that tag, else the first one that differs in case only.\<close>

definition go_field :: "string list \<Rightarrow> string \<Rightarrow> string option" where
  "go_field tags key =
     (if key \<in> set tags then Some key
      else find (\<lambda>t. map to_lower t = map to_lower key) tags)"

fun decode_string :: "string \<Rightarrow> string \<Rightarrow> json \<Rightarrow> string \<times> jerr option" where
  "decode_string fld old (JStr s) = (s, None)"
| "decode_string fld old JNull = (old, None)"
| "decode_string fld old _ = (old, Some (UnmarshalTypeErr fld))"

fun decode_int :: "string \<Rightarrow> int \<Rightarrow> json \<Rightarrow> int \<times> jerr option" where
  "decode_int fld old (JNum n) = (if in_int64 n then (n, None) else (old, Some (UnmarshalTypeErr fld)))"
| "decode_int fld old JNull = (old, None)"
| "decode_int fld old _ = (old, Some (UnmarshalTypeErr fld))"

fun decode_byte :: "string \<Rightarrow> u8 \<Rightarrow> json \<Rightarrow> u8 \<times> jerr option" where
  "decode_byte fld old (JNum n) =
     (if 0 \<le> n \<and> n \<le> 255 then (word_of_int n, None) else (old, Some (UnmarshalTypeErr fld)))"
| "decode_byte fld old JNull = (old, None)"
| "decode_byte fld old _ = (old, Some (UnmarshalTypeErr fld))"

text \<open>A JSON array into \<open>[4]byte\<close>: surplus elements are skipped, missing ones are zeroed.\<close>

fun decode_bytes :: "string \<Rightarrow> u8 list \<Rightarrow> json list \<Rightarrow> u8 list \<times> jerr option" where
  "decode_bytes fld [] js = ([], None)"
| "decode_bytes fld (b # bs) [] = (0 # replicate (length bs) 0, None)"
| "decode_bytes fld (b # bs) (j # js) =
     (let (b', e) = decode_byte fld b j; (bs', e') = decode_bytes fld bs js
      in (b' # bs', keep_first e e'))"

fun decode_ip :: "string \<Rightarrow> u8 list \<Rightarrow> json \<Rightarrow> u8 list \<times> jerr option" where
  "decode_ip fld old (JArr js) = decode_bytes fld old js"
| "decode_ip fld old JNull = (old, None)"
| "decode_ip fld old _ = (old, Some (UnmarshalTypeErr fld))"

section \<open>Value objects (vo/)\<close>

record voHostname =
  voId :: string
  voHostname :: string
  voIp :: "u8 list"
  voTarget :: string
  voTtl :: int
  voType :: string
  voEnv :: string

record voEnv1 =
  voName :: string
  voHostnames :: "voHostname list"

definition empty_voHostname :: voHostname where
  "empty_voHostname = \<lparr>voId = '''', voHostname = '''', voIp = zero_ip, voTarget = '''', voTtl = 0,
     voType = '''', voEnv = ''''\<rparr>"

definition empty_voEnv :: voEnv1 where
  "empty_voEnv = \<lparr>voName = '''', voHostnames = []\<rparr>"

definition hostname_tags :: "string list" where
  "hostname_tags = [''id'', ''hostname'', ''ip'', ''target'', ''ttl'', ''type'', ''env'']"

definition decode_hostname_field ::
  "string \<times> json \<Rightarrow> voHostname \<times> jerr option \<Rightarrow> voHostname \<times> jerr option" where
  "decode_hostname_field kv acc =
     (let (key, j) = kv; (v, err) = acc in
      case go_field hostname_tags key of
        None \<Rightarrow> (v, err)
      | Some f \<Rightarrow>
          if f = ''id'' then (let (x, e) = decode_string f (voId v) j in (v\<lparr>voId := x\<rparr>, keep_first err e))
          else if f = ''hostname'' then
            (let (x, e) = decode_string f (voHostname v) j in (v\<lparr>voHostname := x\<rparr>, keep_first err e))
          else if f = ''ip'' then
            (let (x, e) = decode_ip f (voIp v) j in (v\<lparr>voIp := x\<rparr>, keep_first err e))
          else if f = ''target'' then
            (let (x, e) = decode_string f (voTarget v) j in (v\<lparr>voTarget := x\<rparr>, keep_first err e))
          else if f = ''ttl'' then
            (let (x, e) = decode_int f (voTtl v) j in (v\<lparr>voTtl := x\<rparr>, keep_first err e))
          else if f = ''type'' then
            (let (x, e) = decode_string f (voType v) j in (v\<lparr>voType := x\<rparr>, keep_first err e))
          else (let (x, e) = decode_string f (voEnv v) j in (v\<lparr>voEnv := x\<rparr>, keep_first err e)))"

fun decode_hostname_value :: "json \<Rightarrow> voHostname \<times> jerr option" where
  "decode_hostname_value (JObj kvs) = fold decode_hostname_field kvs (empty_voHostname, None)"
| "decode_hostname_value JNull = (empty_voHostname, None)"
| "decode_hostname_value _ = (empty_voHostname, Some (UnmarshalTypeErr ''''))"

definition decode_hostname :: "json option \<Rightarrow> voHostname \<times> jerr option" where
  "decode_hostname body =
     (case body of None \<Rightarrow> (empty_voHostname, Some SyntaxErr) | Some j \<Rightarrow> decode_hostname_value j)"

fun decode_hostnames :: "json \<Rightarrow> voHostname list \<Rightarrow> voHostname list \<times> jerr option" where
  "decode_hostnames (JArr js) old =
     (map (fst \<circ> decode_hostname_value) js,
      fold (\<lambda>j e. keep_first e (snd (decode_hostname_value j))) js None)"
| "decode_hostnames JNull old = ([], None)"
| "decode_hostnames _ old = (old, Some (UnmarshalTypeErr ''hostnames''))"

definition env_tags :: "string list" where "env_tags = [''name'', ''hostnames'']"

definition decode_env_field :: "string \<times> json \<Rightarrow> voEnv1 \<times> jerr option \<Rightarrow> voEnv1 \<times> jerr option" where
  "decode_env_field kv acc =
     (let (key, j) = kv; (v, err) = acc in
      case go_field env_tags key of
        None \<Rightarrow> (v, err)
      | Some f \<Rightarrow>
          if f = ''name'' then (let (x, e) = decode_string f (voName v) j in (v\<lparr>voName := x\<rparr>, keep_first err e))
          else (let (x, e) = decode_hostnames j (voHostnames v) in (v\<lparr>voHostnames := x\<rparr>, keep_first err e)))"

definition decode_env :: "json option \<Rightarrow> voEnv1 \<times> jerr option" where
  "decode_env body =
     (case body of
        Some (JObj kvs) \<Rightarrow> fold decode_env_field kvs (empty_voEnv, None)
      | Some JNull \<Rightarrow> (empty_voEnv, None)
      | Some _ \<Rightarrow> (empty_voEnv, Some (UnmarshalTypeErr ''''))
      | None \<Rightarrow> (empty_voEnv, Some SyntaxErr))"

definition vo_parseInt :: "string \<Rightarrow> int" where
  "vo_parseInt s = fst (go_ParseInt s)"

definition ToHostname :: "voHostname \<Rightarrow> Hostname" where
  "ToHostname v = \<lparr>hId = vo_parseInt (voId v), hHostname = voHostname v, hIp = ToIpString (voIp v),
     hTarget = voTarget v, hTtl = voTtl v, hType = voType v\<rparr>"

definition fromV1Hostnames :: "voHostname list \<Rightarrow> Hostname list" where
  "fromV1Hostnames vs = map ToHostname vs"

definition ToEnv :: "voEnv1 \<Rightarrow> Env" where
  "ToEnv v = \<lparr>envName = voName v, Hostnames = fromV1Hostnames (voHostnames v)\<rparr>"

definition voFromHostname :: "string \<Rightarrow> Hostname \<Rightarrow> (go_panic, voHostname) result" where
  "voFromHostname env h =
     (case ToIpByteArray zero_ip (hIp h) of
        Inl p \<Rightarrow> Inl p
      | Inr ip \<Rightarrow>
          Inr \<lparr>voId = go_FormatInt (hId h), voHostname = hHostname h, voIp = ip, voTarget = hTarget h,
            voTtl = hTtl h, voType = hType h, voEnv = env\<rparr>)"

definition FromHostnames :: "string \<Rightarrow> Hostname list \<Rightarrow> (go_panic, voHostname list) result" where
  "FromHostnames env hs = map_result (voFromHostname env) hs"

definition FromEnv :: "Env \<Rightarrow> (go_panic, voEnv1) result" where
  "FromEnv e =
     (case FromHostnames (envName e) (Hostnames e) of
        Inl p \<Rightarrow> Inl p | Inr vs \<Rightarrow> Inr \<lparr>voName = envName e, voHostnames = vs\<rparr>)"

definition FromEnvs :: "Env list \<Rightarrow> (go_panic, voEnv1 list) result" where
  "FromEnvs es = map_result FromEnv es"

text \<open>The encoder: fields in declaration order; \<open>omitempty\<close> drops an empty list or string.\<close>

definition encode_hostname :: "voHostname \<Rightarrow> json" where
  "encode_hostname v =
     JObj ([(''id'', JStr (voId v)), (''hostname'', JStr (voHostname v)),
            (''ip'', JArr (map (\<lambda>b. JNum (uint b)) (voIp v))), (''target'', JStr (voTarget v)),
            (''ttl'', JNum (voTtl v)), (''type'', JStr (voType v))]
           @ (if voEnv v = '''' then [] else [(''env'', JStr (voEnv v))]))"

definition encode_env :: "voEnv1 \<Rightarrow> json" where
  "encode_env v =
     JObj ((''name'', JStr (voName v)) #
           (if voHostnames v = [] then [] else [(''hostnames'', JArr (map encode_hostname (voHostnames v)))]))"

section \<open>Requests and responses\<close>

datatype http_method = GET | POST | PUT | DELETE

record request =
  rq_method :: http_method
  rq_path :: string
  rq_query :: "(string \<times> string) list"
  rq_body :: "json option"

datatype payload = NoBody | JsonBody json | TextBody string

record response =
  rs_status :: nat
  rs_json :: bool \<comment> \<open>Content-Type: application/json\<close>
  rs_location :: string
  rs_body :: payload

type_synonym 'm handler = "request \<Rightarrow> ('m, response) go"

definition respond :: "nat \<Rightarrow> bool \<Rightarrow> payload \<Rightarrow> response" where
  "respond st js b = \<lparr>rs_status = st, rs_json = js, rs_location = '''', rs_body = b\<rparr>"

definition BadRequest :: "bool \<Rightarrow> string \<Rightarrow> response" where
  "BadRequest js msg =
     respond 400 js (JsonBody (JObj [(''code'', JNum 400), (''message'', JStr msg)]))"

definition confLoadError :: response where
  "confLoadError = BadRequest True ''Could not load conf''"

definition query_get :: "request \<Rightarrow> string \<Rightarrow> string" where
  "query_get r k = (case map_of (rq_query r) k of None \<Rightarrow> '''' | Some v \<Rightarrow> v)"

definition IsTestVersion :: "bool \<Rightarrow> 'm server \<Rightarrow> 'm server" where
  \<comment> \<open>\<open>flags.IsTestVersion\<close>, called by \<open>utils.GetJsonEncoder\<close>: its answer only selects the
     indentation; \<open>tv\<close> is whether the test flag is defined\<close>
  "IsTestVersion tv s =
     (let c = mainCache (srv_store s);
          c1 = (if lru_Contains c ''TEST_MODE'' then c
                else snd (PutIfAbsent c ''TEST_MODE'' (CachedBool tv)));
          c2 = snd (lru_Get c1 ''TEST_MODE'')
      in s\<lparr>srv_store := (srv_store s)\<lparr>mainCache := c2\<rparr>\<rparr>)"

section \<open>Handlers\<close>

text \<open>\<open>json_reply\<close>: encode with \<open>utils.GetJsonEncoder\<close>, which touches the main cache.\<close>

definition json_reply :: "json \<Rightarrow> 'm server \<Rightarrow> response \<times> 'm server" where
  "json_reply j s = (respond 200 True (JsonBody j), IsTestVersion False s)"

definition get_env_active :: "'m handler" where
  "get_env_active r s =
     (case LoadConfiguration s of
        Inl p \<Rightarrow> Inl p
      | Inr (Inl err, s1) \<Rightarrow> Inr (confLoadError, s1)
      | Inr (Inr c, s1) \<Rightarrow>
          Inr (json_reply (encode_env \<lparr>voName = ActiveEnv c, voHostnames = []\<rparr>) s1))"

definition reply_of :: "(string, unit) result \<Rightarrow> response \<Rightarrow> bool \<Rightarrow> response" where
  "reply_of r ok js = (case r of Inr () \<Rightarrow> ok | Inl err \<Rightarrow> BadRequest js err)"

definition put_env_active :: "'m handler" where
  "put_env_active r s =
     (case local_SetActiveEnv (ToEnv (fst (decode_env (rq_body r)))) s of
        Inl p \<Rightarrow> Inl p | Inr (res, s') \<Rightarrow> Inr (reply_of res (respond 200 True NoBody) True, s'))"

definition get_env :: "'m handler" where
  "get_env r s =
     (case LoadConfiguration s of
        Inl p \<Rightarrow> Inl p
      | Inr (Inl err, s1) \<Rightarrow> Inr (confLoadError, s1)
      | Inr (Inr c, s1) \<Rightarrow>
          (case FromEnvs (Envs c) of
             Inl p \<Rightarrow> Inl p | Inr vs \<Rightarrow> Inr (json_reply (JArr (map encode_env vs)) s1)))"

fun stamp_vo_ids :: "(nat \<Rightarrow> int) \<Rightarrow> nat \<Rightarrow> voHostname list \<Rightarrow> voHostname list" where
  "stamp_vo_ids clk t [] = []"
| "stamp_vo_ids clk t (v # vs) = v\<lparr>voId := go_FormatInt (clk t)\<rparr> # stamp_vo_ids clk (Suc t) vs"

definition post_env :: "'m handler" where
  "post_env r s =
     (let v = fst (decode_env (rq_body r));
          v' = v\<lparr>voHostnames := stamp_vo_ids (srv_clock s) (srv_ticks s) (voHostnames v)\<rparr>;
          s0 = s\<lparr>srv_ticks := srv_ticks s + length (voHostnames v)\<rparr>
      in case local_AddEnv (ToEnv v') s0 of
           Inl p \<Rightarrow> Inl p | Inr (res, s') \<Rightarrow> Inr (reply_of res (respond 200 True NoBody) True, s'))"

definition delete_env :: "'m handler" where
  "delete_env r s =
     (case local_RemoveEnvByName (voName (fst (decode_env (rq_body r)))) s of
        Inl p \<Rightarrow> Inl p | Inr (res, s') \<Rightarrow> Inr (reply_of res (respond 200 True NoBody) True, s'))"

definition get_hostname :: "'m handler" where
  "get_hostname r s =
     (case LoadConfiguration s of
        Inl p \<Rightarrow> Inl p
      | Inr (Inl err, s1) \<Rightarrow> Inr (confLoadError, s1)
      | Inr (Inr c, s1) \<Rightarrow>
          (let n = query_get r ''env'' in
           case GetEnv c n of
             None \<Rightarrow> Inr (BadRequest True (''Env '' @ n @ '' not found''), s1)
           | Some i \<Rightarrow>
               (case FromEnv (Envs c ! i) of
                  Inl p \<Rightarrow> Inl p
                | Inr v \<Rightarrow> Inr (respond 200 True (JsonBody (encode_env v)), s1))))"

definition find_hostname :: "(string \<Rightarrow> string \<Rightarrow> bool) \<Rightarrow> 'm handler" where
  "find_hostname re r s =
     (case LoadConfiguration s of
        Inl p \<Rightarrow> Inl p
      | Inr (Inl err, s1) \<Rightarrow> Inr (confLoadError, s1)
      | Inr (Inr c, s1) \<Rightarrow>
          (let env = query_get r ''env'' in
           case FindHostnameByNameAndEnv re c env (query_get r ''hostname'') of
             Inl err \<Rightarrow> Inr (BadRequest True err, s1)
           | Inr hs \<Rightarrow>
               (case FromHostnames env hs of
                  Inl p \<Rightarrow> Inl p
                | Inr vs \<Rightarrow> Inr (respond 200 True (JsonBody (JArr (map encode_hostname vs))), s1))))"

definition post_hostname :: "(jerr \<Rightarrow> string) \<Rightarrow> 'm handler" where
  "post_hostname jerr_text r s =
     (case decode_hostname (rq_body r) of
        (_, Some e) \<Rightarrow> Inr (BadRequest True (''Invalid JSON: '' @ jerr_text e), s)
      | (v, None) \<Rightarrow>
          (case local_AddHostname (voEnv v) (ToHostname v) s of
             Inl p \<Rightarrow> Inl p
           | Inr (res, s') \<Rightarrow> Inr (reply_of res (respond 201 False NoBody) False, s')))"

definition put_hostname :: "'m handler" where
  "put_hostname r s =
     (case decode_hostname (rq_body r) of
        (_, Some e) \<Rightarrow> Inr (BadRequest True ''Invalid JSON'', s)
      | (v, None) \<Rightarrow>
          (case local_UpdateHostname (voEnv v) (ToHostname v) s of
             Inl p \<Rightarrow> Inl p
           | Inr (res, s') \<Rightarrow> Inr (reply_of res (respond 200 False NoBody) True, s')))"

definition delete_hostname :: "'m handler" where
  "delete_hostname r s =
     (let v = fst (decode_hostname (rq_body r)) in
      case local_RemoveHostname (voEnv v) (voHostname v) s of
        Inl p \<Rightarrow> Inl p
      | Inr (res, s') \<Rightarrow> Inr (reply_of res (respond 200 False NoBody) True, s'))"

section \<open>Routing\<close>

text \<open>
  The handlers are registered under method and path. \<open>net/http\<close> answers a path that lacks
  the final slash of a registered subtree with a permanent redirect to that subtree.
\<close>

definition not_found :: response where
  "not_found = respond 404 False (TextBody ''404 page not found'')"

definition moved :: "string \<Rightarrow> response" where
  "moved loc = \<lparr>rs_status = 301, rs_json = False, rs_location = loc, rs_body = NoBody\<rparr>"

definition serve :: "(string \<Rightarrow> string \<Rightarrow> bool) \<Rightarrow> (jerr \<Rightarrow> string) \<Rightarrow> 'm handler" where
  "serve re jerr_text r s =
     (let m = rq_method r; p = rq_path r in
      if p = ''/env/active'' then
        (case m of GET \<Rightarrow> get_env_active r s | PUT \<Rightarrow> put_env_active r s | _ \<Rightarrow> Inr (not_found, s))
      else if p = ''/env/'' then
        (case m of GET \<Rightarrow> get_env r s | POST \<Rightarrow> post_env r s | DELETE \<Rightarrow> delete_env r s
         | PUT \<Rightarrow> Inr (not_found, s))
      else if p = ''/hostname/find/'' then
        (case m of GET \<Rightarrow> find_hostname re r s | _ \<Rightarrow> Inr (not_found, s))
      else if p = ''/hostname/'' then
        (case m of GET \<Rightarrow> get_hostname r s | POST \<Rightarrow> post_hostname jerr_text r s
         | PUT \<Rightarrow> put_hostname r s | DELETE \<Rightarrow> delete_hostname r s)
      else if p = ''/hostname'' then Inr (moved ''/hostname/'', s)
      else if p = ''/env'' then Inr (moved ''/env/'', s)
      else if p = ''/hostname/find'' then Inr (moved ''/hostname/find/'', s)
      else Inr (not_found, s))"

text \<open>
  A user agent follows a 301 by repeating the request at the new location; a POST becomes a
  GET without a body.
\<close>

definition redirected :: "string \<Rightarrow> request \<Rightarrow> request" where
  "redirected loc r =
     (if rq_method r = POST then r\<lparr>rq_method := GET, rq_path := loc, rq_body := None\<rparr>
      else r\<lparr>rq_path := loc\<rparr>)"

definition exchange :: "(string \<Rightarrow> string \<Rightarrow> bool) \<Rightarrow> (jerr \<Rightarrow> string) \<Rightarrow> 'm handler" where
  "exchange re jerr_text r s =
     (case serve re jerr_text r s of
        Inl p \<Rightarrow> Inl p
      | Inr (res, s1) \<Rightarrow>
          if rs_status res = 301 then serve re jerr_text (redirected (rs_location res) r) s1
          else Inr (res, s1))"

section \<open>States the console works on\<close>

text \<open>
  \<open>served s c\<close>: the server holds the configuration \<open>c\<close>, its environment names are
  distinct, and every record has an address in dotted form and an id of 64 bits other than
  zero. The clock never reads zero, as after 1970.
\<close>

definition host_served :: "Hostname \<Rightarrow> bool" where
  "host_served h \<longleftrightarrow> quad_text (hIp h) \<and> hId h \<noteq> 0 \<and> in_int64 (hId h)"

definition clock_ok :: "'m server \<Rightarrow> bool" where
  "clock_ok s \<longleftrightarrow> (\<forall>t. srv_clock s t \<noteq> 0 \<and> in_int64 (srv_clock s t))"

definition served :: "'m server \<Rightarrow> Configuration \<Rightarrow> bool" where
  "served s c \<longleftrightarrow> holds s c \<and> conf_wf c \<and> list_all host_served (hosts_of c) \<and> clock_ok s"

lemma served_load: "served s c \<Longrightarrow> LoadConfiguration s = Inr (Inr c, s)"
  by (simp add: served_def LoadConfiguration_holds)

lemma served_ticks [simp]: "served (s\<lparr>srv_ticks := t\<rparr>) c \<longleftrightarrow> served s c"
  by (simp add: served_def holds_def clock_ok_def)

lemma served_IsTestVersion [simp]: "served (IsTestVersion tv s) c \<longleftrightarrow> served s c"
  by (simp add: served_def holds_def clock_ok_def IsTestVersion_def Let_def)

lemma served_now: "served s c \<Longrightarrow> srv_clock s t \<noteq> 0" "served s c \<Longrightarrow> in_int64 (srv_clock s t)"
  by (auto simp: served_def clock_ok_def)

lemma served_records: "served s c \<Longrightarrow> records c e = Some rs \<Longrightarrow> list_all host_served rs"
  by (auto simp: served_def list_all_iff hosts_of_def dest!: records_index)

lemma ensure_env_hosts: "hosts_of (ensure_env c) = hosts_of c"
  by (simp add: ensure_env_def hosts_of_def NewEmptyEnv_def)

text \<open>
  The one step every writing handler takes from such a state: a failing operation changes
  nothing, a successful one leads to a state that serves the changed configuration, with
  every cache emptied.
\<close>

lemma transact_served_Err:
  "served s c \<Longrightarrow> op s c = (Inl err, s') \<Longrightarrow> transact op s = Inr (Inl err, s')"
  by (auto simp: served_def intro: transact_holds_Err)

lemma transact_served_Ok:
  assumes "served s c" and "op s c = (Inr c', s\<lparr>srv_ticks := t\<rparr>)" and "same_frame c c'"
    and "\<And>h. h \<in> set (hosts_of c') \<Longrightarrow> h \<in> set (hosts_of c) \<or> host_served h" and "conf_wf c'"
  shows "\<exists>s'. transact op s = Inr (Inr (), s') \<and> served s' (ensure_env c') \<and> store_empty (srv_store s')"
proof -
  have c: "holds s c" "expressible c" "ids_set c" "srv_writable s"
    using assms(1) by (auto simp: served_def holds_def)
  have "h \<in> set (hosts_of c') \<Longrightarrow> h \<in> set (hosts_of c) \<or> host_ok h" for h
    using assms(4) by (auto simp: host_ok_def host_served_def)
  then have "expressible c'" "ids_set c'"
    using same_frame_keeps [OF assms(3)] c by auto
  then obtain s' where s': "transact op s = Inr (Inr (), s')" "holds s' (ensure_env c')"
    "store_empty (srv_store s')" "srv_clock s' = srv_clock (s\<lparr>srv_ticks := t\<rparr>)"
    using transact_holds_Ok [where op = op, OF c(1) assms(2)] c by auto
  have "list_all host_served (hosts_of c')"
    using assms(1,4) by (auto simp: served_def list_all_iff)
  with s' assms(1,5) show ?thesis
    by (auto simp: served_def clock_ok_def ensure_env_hosts ensure_env_wf)
qed

lemma ensure_env_same: "env_names c' = env_names c \<Longrightarrow> served s c \<Longrightarrow> ensure_env c' = c'"
  by (auto simp: served_def holds_def ensure_env_def env_names_def)

lemma served_Envs: "served s c \<Longrightarrow> Envs c \<noteq> []"
  by (auto simp: served_def holds_def)

text \<open>The operations of \<open>local.go\<close> on such states.\<close>

lemma host_served_ok: "host_served h \<Longrightarrow> host_ok h"
  by (simp add: host_served_def host_ok_def)

lemma hosts_added:
  assumes "AddHostname now c e h = Inr c'" and "g \<in> set (hosts_of c')"
  shows "g \<in> set (hosts_of c) \<or> g = stamp_id now h"
proof -
  from assms(1) obtain i where i: "GetEnv c e = Some i"
    and c': "c' = c\<lparr>Envs := (Envs c)[i := (Envs c ! i)\<lparr>Hostnames := Hostnames (Envs c ! i) @ [stamp_id now h]\<rparr>]\<rparr>"
    by (auto simp: AddHostname_def EnvAddHostname_def Let_def split: if_splits option.splits sum.splits)
  have "i < length (Envs c)" using i by (auto dest: GetEnv_Some)
  with assms(2) show ?thesis unfolding c' by (auto dest!: hosts_of_put dest: hosts_of_nth)
qed

lemma hosts_updated:
  assumes "UpdateHostname c e h = Inr c'" and "g \<in> set (hosts_of c')"
  shows "g \<in> set (hosts_of c) \<or> (\<exists>r \<in> set (hosts_of c). g = assign_fields r h)"
proof -
  from assms(1) obtain i j where i: "GetEnv c e = Some i" "GetHostnameById (Envs c ! i) (hId h) = Some j"
    and c': "c' = c\<lparr>Envs := (Envs c)[i := (Envs c ! i)\<lparr>Hostnames :=
      (Hostnames (Envs c ! i))[j := assign_fields (Hostnames (Envs c ! i) ! j) h]\<rparr>]\<rparr>"
    by (auto simp: UpdateHostname_def EnvUpdateHostname_def split: option.splits sum.splits)
  have "i < length (Envs c)" "j < length (Hostnames (Envs c ! i))"
    using i by (auto simp: GetHostnameById_def dest: GetEnv_Some index_where_bound)
  then have "Hostnames (Envs c ! i) ! j \<in> set (hosts_of c)"
    and "set (Hostnames (Envs c ! i)) \<subseteq> set (hosts_of c)"
    by (auto intro: hosts_of_nth nth_mem)
  with assms(2) show ?thesis
    unfolding c' by (auto dest!: hosts_of_put subsetD [OF set_update_subset_insert])
qed

lemma hosts_kept_env: "GetEnv c e = Some i \<Longrightarrow> set (Hostnames (Envs c ! i)) \<subseteq> set (hosts_of c)"
  by (auto dest!: GetEnv_Some intro: hosts_of_nth)

lemma hosts_kept:
  "RemoveHostnameByEnvAndHostname c e n = Inr c' \<Longrightarrow> g \<in> set (hosts_of c') \<Longrightarrow> g \<in> set (hosts_of c)"
  "RemoveEnvByName c n = Inr c' \<Longrightarrow> g \<in> set (hosts_of c') \<Longrightarrow> g \<in> set (hosts_of c)"
  "SetActiveEnv c env = Inr c' \<Longrightarrow> g \<in> set (hosts_of c') \<Longrightarrow> g \<in> set (hosts_of c)"
proof -
  show "RemoveHostnameByEnvAndHostname c e n = Inr c' \<Longrightarrow> g \<in> set (hosts_of c') \<Longrightarrow> g \<in> set (hosts_of c)"
    using hosts_kept_env
    by (fastforce simp: RemoveHostnameByEnvAndHostname_def RemoveHostname_def Let_def
        split: option.splits dest!: hosts_of_put subsetD [OF set_remove_nth])
  show "RemoveEnvByName c n = Inr c' \<Longrightarrow> g \<in> set (hosts_of c') \<Longrightarrow> g \<in> set (hosts_of c)"
    by (auto simp: RemoveEnvByName_def RemoveEnv_def hosts_of_def split: option.splits
        dest!: subsetD [OF set_remove_nth])
  show "SetActiveEnv c env = Inr c' \<Longrightarrow> g \<in> set (hosts_of c') \<Longrightarrow> g \<in> set (hosts_of c)"
    by (auto simp: SetActiveEnv_def hosts_of_def split: option.splits)
qed

lemma AddHostname_served:
  assumes "served s c" and "quad_text (hIp h)" and "in_int64 (hId h)"
    and "AddHostname (srv_clock s (srv_ticks s)) c e h = Inr c'"
  shows "\<exists>s'. local_AddHostname e h s = Inr (Inr (), s') \<and> served s' c' \<and> store_empty (srv_store s')"
proof -
  let ?now = "srv_clock s (srv_ticks s)"
  have "host_served (stamp_id ?now h)"
    using assms(2,3) served_now [OF assms(1)] by (auto simp: host_served_def stamp_id_def)
  moreover have "ensure_env c' = c'"
    using AddHostname_names [OF assms(4)] assms(1) by (rule ensure_env_same)
  moreover have "conf_wf c'"
    using AddHostname_names [OF assms(4)] assms(1) by (simp add: conf_wf_def served_def)
  moreover have "\<exists>t. add_hostname_op e h s c = (Inr c', s\<lparr>srv_ticks := t\<rparr>)"
    using assms(4) by (auto simp: add_hostname_op_def intro: exI [of _ "srv_ticks s"])
  moreover have "same_frame c c'"
    using AddHostname_frame(1) [OF assms(4,2)] served_now(1) [OF assms(1)] by blast
  ultimately show ?thesis
    using transact_served_Ok [OF assms(1), of "add_hostname_op e h" c'] hosts_added [OF assms(4)]
    unfolding local_AddHostname_def by metis
qed

lemma UpdateHostname_served:
  assumes "served s c" and "quad_text (hIp h)" and "UpdateHostname c e h = Inr c'"
  shows "\<exists>s'. local_UpdateHostname e h s = Inr (Inr (), s') \<and> served s' c' \<and> store_empty (srv_store s')"
proof -
  have "g \<in> set (hosts_of c') \<Longrightarrow> g \<in> set (hosts_of c) \<or> host_served g" for g
    using hosts_updated [OF assms(3)] assms(1,2)
    by (fastforce simp: served_def list_all_iff host_served_def assign_fields_def)
  moreover have "ensure_env c' = c'" and "conf_wf c'"
    using UpdateHostname_names [OF assms(3)] assms(1)
    by (auto simp: conf_wf_def served_def intro: ensure_env_same)
  moreover have "same_frame c c'"
    using UpdateHostname_frame(1) [OF assms(3,2)] assms(1) by (simp add: served_def holds_def)
  ultimately show ?thesis
    using transact_served_Ok [OF assms(1), of "\<lambda>s c. (UpdateHostname c e h, s)" c' "srv_ticks s"] assms(3)
    unfolding local_UpdateHostname_def by auto
qed

lemma RemoveHostname_served:
  assumes "served s c" and "RemoveHostnameByEnvAndHostname c e n = Inr c'"
  shows "\<exists>s'. local_RemoveHostname e n s = Inr (Inr (), s') \<and> served s' c' \<and> store_empty (srv_store s')"
proof -
  have "ensure_env c' = c'" and "conf_wf c'"
    using RemoveHostname_names [OF assms(2)] assms(1)
    by (auto simp: conf_wf_def served_def intro: ensure_env_same)
  then show ?thesis
    using transact_served_Ok [OF assms(1), of "\<lambda>s c. (RemoveHostnameByEnvAndHostname c e n, s)" c' "srv_ticks s"]
      assms(2) RemoveHostname_frame(1) [OF assms(2)] hosts_kept(1) [OF assms(2)]
    unfolding local_RemoveHostname_def by auto
qed

lemma SetActiveEnv_served:
  assumes "served s c" and "SetActiveEnv c env = Inr c'"
  shows "\<exists>s'. local_SetActiveEnv env s = Inr (Inr (), s') \<and> served s' c' \<and> store_empty (srv_store s')"
proof -
  have "ensure_env c' = c'" and "conf_wf c'"
    using SetActiveEnv_names [OF assms(2)] assms(1)
    by (auto simp: conf_wf_def served_def intro: ensure_env_same)
  then show ?thesis
    using transact_served_Ok [OF assms(1), of "\<lambda>s c. (SetActiveEnv c env, s)" c' "srv_ticks s"]
      assms(2) SetActiveEnv_frame(1) [OF assms(2)] hosts_kept(3) [OF assms(2)]
    unfolding local_SetActiveEnv_def by auto
qed

lemma AddEnv_served:
  assumes "served s c" and "AddEnv c env = Inr c'" and "list_all host_served (Hostnames env)"
  shows "\<exists>s'. local_AddEnv env s = Inr (Inr (), s') \<and> served s' c' \<and> store_empty (srv_store s')"
proof -
  have env: "list_all host_ok (Hostnames env)"
    using assms(3) by (auto simp: list_all_iff host_served_ok)
  have names: "env_names c' = env_names c @ [envName env]" "envName env \<notin> set (env_names c)"
    using AddEnv_names [OF assms(2)] by auto
  then have "conf_wf c'" using assms(1) by (simp add: conf_wf_def served_def)
  moreover have "ensure_env c' = c'"
    using names by (auto simp: ensure_env_def env_names_def)
  moreover have "g \<in> set (hosts_of c') \<Longrightarrow> g \<in> set (hosts_of c) \<or> host_served g" for g
    using assms(2,3) by (auto simp: AddEnv_def hosts_of_def list_all_iff split: option.splits)
  ultimately show ?thesis
    using transact_served_Ok [OF assms(1), of "\<lambda>s c. (AddEnv c env, s)" c' "srv_ticks s"]
      assms(2) AddEnv_frame(1) [OF assms(2) env]
    unfolding local_AddEnv_def by auto
qed

lemma RemoveEnv_served:
  assumes "served s c" and "RemoveEnvByName c n = Inr c'"
  shows "\<exists>s'. local_RemoveEnvByName n s = Inr (Inr (), s') \<and> served s' (ensure_env c')
    \<and> store_empty (srv_store s')"
  using transact_served_Ok [OF assms(1), of "\<lambda>s c. (RemoveEnvByName c n, s)" c' "srv_ticks s"]
    assms RemoveEnv_frame(1) [OF assms(2)] hosts_kept(2) [OF assms(2)] RemoveEnvByName_wf [OF assms(2)]
  unfolding local_RemoveEnvByName_def by (auto simp: served_def)

section \<open>Records on the wire\<close>

lemma decode_bytes_encoded:
  "length old = length bs \<Longrightarrow> decode_bytes fld old (map (\<lambda>b. JNum (uint b)) bs) = (bs, None)"
proof (induction old bs rule: list_induct2)
  case (Cons x xs y ys)
  have "uint y \<le> 255" using uint_u8_bound [of y] by simp
  with Cons show ?case by (simp add: keep_first_def)
qed simp

lemma decode_encoded_hostname:
  assumes "length (voIp v) = 4" and "in_int64 (voTtl v)"
  shows "decode_hostname (Some (encode_hostname v)) = (v, None)"
proof -
  have ip: "decode_bytes ''ip'' zero_ip (map (\<lambda>b. JNum (uint b)) (voIp v)) = (voIp v, None)"
    using assms(1) by (intro decode_bytes_encoded) (simp add: zero_ip_def)
  then have "decode_hostname (Some (encode_hostname v)) =
      (empty_voHostname\<lparr>voId := voId v, voHostname := voHostname v, voIp := voIp v, voTarget := voTarget v,
         voTtl := voTtl v, voType := voType v, voEnv := voEnv v\<rparr>, None)"
    using assms(2)
    by (simp add: decode_hostname_def encode_hostname_def decode_hostname_field_def go_field_def hostname_tags_def
        Let_def keep_first_def empty_voHostname_def)
  then show ?thesis by (cases v) (simp add: empty_voHostname_def)
qed

text \<open>
  C35. Nothing of a record is lost on the wire: a stored record is turned into a value object, encoded,
  decoded and turned back into the same record, and the environment it was asked for arrives with it.
\<close>

theorem record_on_the_wire:
  assumes "quad_text (hIp h)" and "in_int64 (hId h)" and "in_int64 (hTtl h)"
  shows "\<exists>v. voFromHostname e h = Inr v \<and> decode_hostname (Some (encode_hostname v)) = (v, None) \<and>
    ToHostname v = h \<and> voEnv v = e"
proof -
  obtain ns where ns: "quad ns" "hIp h = dotted ns" using assms(1) by (auto simp: quad_text_def)
  then obtain ip where ip: "ToIpByteArray zero_ip (hIp h) = Inr ip" "length ip = 4" "map unat ip = ns"
    using goip.parse_text by metis
  let ?v = "\<lparr>voId = go_FormatInt (hId h), voHostname = hHostname h, voIp = ip, voTarget = hTarget h,
            voTtl = hTtl h, voType = hType h, voEnv = e\<rparr>"
  have "ToHostname ?v = h"
    using ns ip assms(2) by (cases h) (simp add: ToHostname_def vo_parseInt_def go_ParseInt_FormatInt ToIpString_dotted)
  moreover have "decode_hostname (Some (encode_hostname ?v)) = (?v, None)"
    by (rule decode_encoded_hostname) (simp_all add: ip assms(3))
  ultimately show ?thesis using ip by (simp add: voFromHostname_def)
qed

theorem record_on_the_wire_witness:
  "\<exists>v. voFromHostname ''qa'' \<lparr>hId = -7, hHostname = ''a.com'', hIp = ''1.2.3.4'', hTarget = '''', hTtl = 60, hType = ''A''\<rparr>
      = Inr v \<and> decode_hostname (Some (encode_hostname v)) = (v, None)"
proof -
  have 1: "quad_text (hIp \<lparr>hId = -7, hHostname = ''a.com'', hIp = ''1.2.3.4'', hTarget = '''', hTtl = 60, hType = ''A''\<rparr>)"
    by (simp add: sample_quad)
  have 2: "in_int64 (-7)" "in_int64 60" by (simp_all add: in_int64_def int64_min_def int64_max_def)
  show ?thesis using record_on_the_wire [OF 1, of "''qa''"] 2 by auto
qed

end
