(* ===== verification/Solver.thy ===== *)
theory Solver
  imports ResolvConf Conf Api
begin

text \<open>
  \<open>src/proxy\<close> and \<open>handleQuestion\<close> of \<open>src/dns.go\<close>: how a DNS question is answered. The solvers are
  asked in turn: the machine's own name, the containers, the records of theory \<open>LocalVo\<close> and the remote
  servers, the last two behind a timed cache of theory \<open>Cache\<close> that is registered in the store, so that
  saving a configuration empties it. What comes from outside (environment variables, flags, the file
  \<open>resolv.conf\<close>, Docker, the answers of remote servers) is collected in \<open>outside\<close>.
\<close>

section \<open>Messages\<close>

datatype rdata = RA "u8 list" | RCNAME string | ROther

record rr =
  rrName :: string
  Rrtype :: nat
  rrClass :: nat
  Ttl :: u32
  rrData :: rdata

record dns_msg =
  Rcode :: nat
  Answer :: "rr list"
  Ns :: "rr list"
  Extra :: "rr list"

record question =
  qName :: string
  Qtype :: nat

definition TypeA :: nat where "TypeA = 1"
definition TypeCNAME :: nat where "TypeCNAME = 5"
definition ClassINET :: nat where "ClassINET = 1"

definition answer_msg :: "rr list \<Rightarrow> dns_msg" where
  "answer_msg rrs = \<lparr>Rcode = 0, Answer = rrs, Ns = [], Extra = []\<rparr>"

datatype dns_error =
    HostnameNotFound string
  | NoActiveEnv
  | HostNotFound
  | NoGateway
  | NoSolver string
  | NoAnswer string
  | BadRcode string nat
  | ConfError string

section \<open>State\<close>

record dns_world =
  dw_server :: "dns_msg server"
  dw_docker :: "(string, string) lru"

record outside =
  o_env :: env_vars
  o_flags :: flag_values
  o_resolv :: resolv_file
  o_docker :: docker_view
  o_addrs :: "string list option"
  o_ask :: "string \<Rightarrow> question \<Rightarrow> dns_msg option"

type_synonym 'a dns = "dns_world \<Rightarrow> (go_panic, 'a \<times> dns_world) result"

type_synonym solved = "dns_msg option \<times> dns_error option"

definition bind_dns :: "'a dns \<Rightarrow> ('a \<Rightarrow> 'b dns) \<Rightarrow> 'b dns" where
  "bind_dns m f w = (case m w of Inl p \<Rightarrow> Inl p | Inr (a, w') \<Rightarrow> f a w')"

definition ret_dns :: "'a \<Rightarrow> 'a dns" where
  "ret_dns a w = Inr (a, w)"

definition panic_dns :: "go_panic \<Rightarrow> 'a dns" where
  "panic_dns p w = Inl p"

definition on_server :: "(dns_msg, 'a) go \<Rightarrow> 'a dns" where
  "on_server m w =
     (case m (dw_server w) of Inl p \<Rightarrow> Inl p | Inr (a, s') \<Rightarrow> Inr (a, w\<lparr>dw_server := s'\<rparr>))"

text \<open>\<open>time.Now()\<close>.\<close>

definition time_Now :: "int dns" where
  "time_Now w =
     (let s = dw_server w in
      Inr (srv_clock s (srv_ticks s), w\<lparr>dw_server := s\<lparr>srv_ticks := Suc (srv_ticks s)\<rparr>\<rparr>))"

section \<open>proxy.go\<close>

text \<open>The loop of \<open>getAllHosts\<close>, \<open>str\<close> being \<open>hostname[fromIndex:]\<close>.\<close>

function dot_suffixes :: "string \<Rightarrow> string list" where
  "dot_suffixes str =
     (case index_where (\<lambda>c. c = CHR ''.'') str of
        None \<Rightarrow> []
      | Some actual \<Rightarrow>
          if actual + 1 \<ge> length str then []
          else drop actual str # dot_suffixes (drop (actual + 1) str))"
  by pat_completeness auto

termination by (relation "measure length") auto

definition getAllHosts :: "string \<Rightarrow> string list" where
  "getAllHosts hostname = drop 1 hostname # dot_suffixes hostname"

text \<open>\<open>question.Name[:len(question.Name)-1]\<close>.\<close>

definition questionName :: "question \<Rightarrow> string dns" where
  "questionName q = (if qName q = [] then panic_dns PanicSliceBounds else ret_dns (butlast (qName q)))"

section \<open>local.go\<close>

definition getCnameMsg :: "question \<Rightarrow> Hostname \<Rightarrow> dns_msg" where
  "getCnameMsg q h =
     answer_msg [\<lparr>rrName = qName q, Rrtype = TypeCNAME, rrClass = 256, Ttl = word_of_int (hTtl h),
       rrData = RCNAME (hTarget h @ ''.'')\<rparr>]"

definition getAMsg :: "question \<Rightarrow> Hostname \<Rightarrow> (go_panic, dns_msg) result" where
  "getAMsg q h =
     (case ToIpByteArray zero_ip (hIp h) of
        Inl p \<Rightarrow> Inl p
      | Inr ipArray \<Rightarrow>
          Inr (answer_msg [\<lparr>rrName = qName q, Rrtype = TypeA, rrClass = ClassINET, Ttl = word_of_int (hTtl h),
            rrData = RA ipArray\<rparr>]))"

text \<open>The answer for a record: \<open>None\<close> for a type that is neither \<open>A\<close>, empty nor \<open>CNAME\<close>.\<close>

definition hostname_msg :: "question \<Rightarrow> Hostname \<Rightarrow> (go_panic, dns_msg option) result" where
  "hostname_msg q h =
     (if hType h = ''A'' \<or> hType h = '''' then (case getAMsg q h of Inl p \<Rightarrow> Inl p | Inr m \<Rightarrow> Inr (Some m))
      else if hType h = ''CNAME'' then Inr (Some (getCnameMsg q h))
      else Inr None)"

definition solveHostname :: "question \<Rightarrow> string \<Rightarrow> solved dns" where
  "solveHostname q key =
     bind_dns (on_server LoadConfiguration) (\<lambda>r.
     case r of
       Inl err \<Rightarrow> ret_dns (None, Some (ConfError err))
     | Inr conf \<Rightarrow>
         (case GetActiveEnv conf of
            None \<Rightarrow> ret_dns (None, Some NoActiveEnv)
          | Some i \<Rightarrow>
              (case GetHostname (Envs conf ! i) key of
                 None \<Rightarrow> ret_dns (None, Some (HostnameNotFound key))
               | Some j \<Rightarrow>
                   (case hostname_msg q (Hostnames (Envs conf ! i) ! j) of
                      Inl p \<Rightarrow> panic_dns p
                    | Inr None \<Rightarrow> ret_dns (None, Some (HostnameNotFound key))
                    | Inr (Some msg) \<Rightarrow> ret_dns (Some msg, None)))))"

fun local_loop :: "question \<Rightarrow> string \<Rightarrow> string list \<Rightarrow> solved dns" where
  "local_loop q name [] = ret_dns (None, Some (HostnameNotFound name))"
| "local_loop q name (host # hosts) =
     bind_dns (solveHostname q host) (\<lambda>(msg, err).
       if err = None then ret_dns (msg, None) else local_loop q name hosts)"

definition local_Solve :: "question \<Rightarrow> solved dns" where
  "local_Solve q =
     bind_dns (questionName q) (\<lambda>name. local_loop q name (getAllHosts (''.'' @ name)))"

section \<open>docker.go and system.go\<close>

text \<open>\<open>getMsg\<close> of both: the parts of the address by \<open>Atoi\<close>, whose error is dropped, and truncated to a byte.\<close>

definition getMsg :: "string \<Rightarrow> question \<Rightarrow> (go_panic, dns_msg) result" where
  "getMsg ip q =
     (let ipArr = split_on (CHR ''.'') ip in
      if length ipArr < 4 then Inl PanicIndexOutOfRange
      else Inr (answer_msg [\<lparr>rrName = qName q, Rrtype = TypeA, rrClass = ClassINET, Ttl = 0,
        rrData = RA (map (\<lambda>p. word_of_int (fst (go_Atoi p))) (take 4 ipArr))\<rparr>]))"

definition docker_doSolve :: "string \<Rightarrow> question \<Rightarrow> solved dns" where
  \<comment> \<open>the entry is read once for the log and once for the answer\<close>
  "docker_doSolve k q w =
     (case lru_Get (snd (lru_Get (dw_docker w) k)) k of
        (None, d) \<Rightarrow> Inl PanicTypeAssertion
      | (Some ip, d) \<Rightarrow>
          (case getMsg ip q of Inl p \<Rightarrow> Inl p | Inr m \<Rightarrow> Inr ((Some m, None), w\<lparr>dw_docker := d\<rparr>)))"

definition docker_Solve :: "question \<Rightarrow> solved dns" where
  "docker_Solve q =
     bind_dns (questionName q) (\<lambda>name w.
       case find (\<lambda>host. lru_Contains (dw_docker w) host) (getAllHosts (''.'' @ name)) of
         Some host \<Rightarrow> docker_doSolve host q w
       | None \<Rightarrow> Inr ((None, Some (HostnameNotFound name)), w))"

text \<open>The address of the gateway and the error, as Go returns them: an empty address with an error.\<close>

definition gateway_msg :: "outside \<Rightarrow> question \<Rightarrow> solved dns" where
  "gateway_msg ext q =
     (case GetGatewayIP (o_docker ext) (o_addrs ext) of
        Some ip \<Rightarrow> (case getMsg ip q of Inl p \<Rightarrow> panic_dns p | Inr m \<Rightarrow> ret_dns (Some m, None))
      | None \<Rightarrow> (case getMsg '''' q of Inl p \<Rightarrow> panic_dns p | Inr m \<Rightarrow> ret_dns (Some m, Some NoGateway)))"

definition system_Solve :: "outside \<Rightarrow> question \<Rightarrow> solved dns" where
  "system_Solve ext q =
     bind_dns (questionName q) (\<lambda>name.
     bind_dns (on_server (conf_GetHostname (o_env ext) (o_flags ext))) (\<lambda>host.
     if name = host then gateway_msg ext q
     else
       bind_dns (on_server (conf_GetHostname (o_env ext) (o_flags ext))) (\<lambda>sub.
       bind_dns (on_server (resolvconf_GetHostname (o_resolv ext) sub)) (\<lambda>host'.
       if name = host' then gateway_msg ext q else ret_dns (None, Some HostNotFound)))))"

section \<open>remote.go\<close>

definition Fqdn :: "string \<Rightarrow> string" where
  "Fqdn s = (if s \<noteq> [] \<and> last s = CHR ''.'' then s else s @ ''.'')"

definition JoinHostPort :: "string \<Rightarrow> string \<Rightarrow> string" where
  "JoinHostPort host port =
     (if CHR '':'' \<in> set host \<or> CHR ''%'' \<in> set host then ''['' @ host @ '']:'' @ port else host @ '':'' @ port)"

definition SERVERS :: string where "SERVERS = ''SERVERS''"

text \<open>The loop over the servers: the last answer and the last error are returned when none succeeds.\<close>

fun ask_servers :: "outside \<Rightarrow> question \<Rightarrow> DNSServer list \<Rightarrow> solved \<Rightarrow> solved" where
  "ask_servers ext q [] res = res"
| "ask_servers ext q (server # servers) res =
     (case o_ask ext (JoinHostPort (dnsIp server) (go_FormatInt (dnsPort server))) (q\<lparr>qName := Fqdn (qName q)\<rparr>) of
        None \<Rightarrow> ask_servers ext q servers (None, Some (NoAnswer (qName q)))
      | Some m \<Rightarrow>
          if Rcode m \<noteq> 0 then ask_servers ext q servers (Some m, Some (BadRcode (qName q) (Rcode m)))
          else (Some m, None))"

definition load_servers :: "(string, unit) result dns" where
  "load_servers w =
     (if lru_Contains (mainCache (srv_store (dw_server w))) SERVERS then Inr (Inr (), w)
      else
        (case LoadConfiguration (dw_server w) of
           Inl p \<Rightarrow> Inl p
         | Inr (Inl err, s') \<Rightarrow> Inr (Inl err, w\<lparr>dw_server := s'\<rparr>)
         | Inr (Inr config, s') \<Rightarrow>
             (let st = srv_store s'; main = snd (PutIfAbsent (mainCache st) SERVERS (CachedConf config)) in
              Inr (Inr (), w\<lparr>dw_server := s'\<lparr>srv_store := st\<lparr>mainCache := main\<rparr>\<rparr>\<rparr>))))"

definition remote_Solve :: "outside \<Rightarrow> question \<Rightarrow> solved dns" where
  "remote_Solve ext q =
     bind_dns load_servers (\<lambda>r w.
     case r of
       Inl err \<Rightarrow> Inr ((None, Some (ConfError err)), w)
     | Inr _ \<Rightarrow>
         (let s = dw_server w; st = srv_store s in
          case lru_Get (mainCache st) SERVERS of
            (Some (CachedConf config), main) \<Rightarrow>
              Inr (ask_servers ext q (GetRemoteServers config) (None, None),
                   w\<lparr>dw_server := s\<lparr>srv_store := st\<lparr>mainCache := main\<rparr>\<rparr>\<rparr>)
          | _ \<Rightarrow> Inl PanicTypeAssertion))"

section \<open>cache.go\<close>

text \<open>
  A caching solver holds a reference to one of the registered caches: its index in \<open>caches\<close>. Every index
  that occurs is in range, since caches are only ever added.
\<close>

definition getTtl :: "dns_msg \<Rightarrow> u32" where
  "getTtl m = (case Answer m of a # _ \<Rightarrow> Ttl a | [] \<Rightarrow> 5)"

definition getHostnameKey :: "question \<Rightarrow> string" where
  "getHostnameKey q = qName q @ ''-'' @ show_nat (Qtype q)"

text \<open>Division of Go's integers, which truncates towards zero.\<close>

definition go_quot :: "int \<Rightarrow> int \<Rightarrow> int" where
  "go_quot a b = (if 0 \<le> a then a div b else - (- a div b))"

definition put_cache :: "nat \<Rightarrow> (string, dns_msg) timed_cache \<Rightarrow> dns_world \<Rightarrow> dns_world" where
  "put_cache i tc w =
     (let s = dw_server w; st = srv_store s in
      w\<lparr>dw_server := s\<lparr>srv_store := st\<lparr>caches := (caches st)[i := tc]\<rparr>\<rparr>\<rparr>)"

definition cache_GetTimeValue :: "nat \<Rightarrow> string \<Rightarrow> dns_msg timed_value option dns" where
  "cache_GetTimeValue i key =
     bind_dns time_Now (\<lambda>now w.
       let (r, tc) = GetTimeValue now (caches (srv_store (dw_server w)) ! i) key in Inr (r, put_cache i tc w))"

definition cache_PutTTL :: "nat \<Rightarrow> string \<Rightarrow> dns_msg \<Rightarrow> int \<Rightarrow> unit dns" where
  "cache_PutTTL i key m ttl =
     bind_dns time_Now (\<lambda>now w.
       Inr ((), put_cache i (PutTTL now (caches (srv_store (dw_server w)) ! i) key m ttl) w))"

text \<open>\<open>doSolve\<close>: a copy of the stored message, each answer with the time that is left of the first one's.\<close>

definition cache_doSolve :: "nat \<Rightarrow> string \<Rightarrow> dns_msg option dns" where
  "cache_doSolve i key =
     bind_dns (cache_GetTimeValue i key) (\<lambda>r.
     case r of
       None \<Rightarrow> ret_dns None
     | Some tvalue \<Rightarrow>
         bind_dns time_Now (\<lambda>now.
           let msg = Val tvalue;
               leftTime = uint (getTtl msg) * second - (now - CreationDate tvalue)
           in ret_dns (Some (msg\<lparr>Answer := map (\<lambda>v. v\<lparr>Ttl := word_of_int (go_quot leftTime second)\<rparr>) (Answer msg)\<rparr>))))"

definition cache_Solve :: "nat \<Rightarrow> (question \<Rightarrow> solved dns) \<Rightarrow> question \<Rightarrow> solved dns" where
  "cache_Solve i delegate q =
     bind_dns (cache_doSolve i (getHostnameKey q)) (\<lambda>cached.
     case cached of
       Some msg \<Rightarrow> ret_dns (Some msg, None)
     | None \<Rightarrow>
         bind_dns (delegate q) (\<lambda>(msg, err).
         case (msg, err) of
           (_, Some _) \<Rightarrow> ret_dns (msg, err)
         | (None, None) \<Rightarrow> panic_dns PanicNilDereference
         | (Some m, None) \<Rightarrow>
             bind_dns (cache_PutTTL i (getHostnameKey q) m (uint (getTtl m))) (\<lambda>_. ret_dns (Some m, None))))"

datatype DnsSolver =
    SystemDnsSolver
  | DockerDnsSolver
  | LocalDnsSolver
  | RemoteDnsSolver
  | CacheDnsSolver nat DnsSolver

fun Solve :: "outside \<Rightarrow> DnsSolver \<Rightarrow> question \<Rightarrow> solved dns" where
  "Solve ext SystemDnsSolver q = system_Solve ext q"
| "Solve ext DockerDnsSolver q = docker_Solve q"
| "Solve ext LocalDnsSolver q = local_Solve q"
| "Solve ext RemoteDnsSolver q = remote_Solve ext q"
| "Solve ext (CacheDnsSolver i delegate) q = cache_Solve i (\<lambda>q'. Solve ext delegate q') q"

text \<open>\<open>NewCacheDnsSolver\<close>: a cache of 4096 entries, registered in the store.\<close>

definition NewCacheDnsSolver :: "DnsSolver \<Rightarrow> dns_world \<Rightarrow> DnsSolver \<times> dns_world" where
  "NewCacheDnsSolver delegate w =
     (let s = dw_server w; st = srv_store s in
      (CacheDnsSolver (length (caches st)) delegate,
       w\<lparr>dw_server := s\<lparr>srv_store := RegisterCache st (NewTimed (the (NewLRU 4096)) 30)\<rparr>\<rparr>))"

section \<open>factory.go\<close>

fun default_Solve :: "outside \<Rightarrow> question \<Rightarrow> DnsSolver list \<Rightarrow> solved dns" where
  "default_Solve ext q [] = ret_dns (None, Some (NoSolver (qName q)))"
| "default_Solve ext q (solver # solvers) =
     bind_dns (Solve ext solver q) (\<lambda>(msg, err).
       if msg \<noteq> None then ret_dns (msg, err) else default_Solve ext q solvers)"

text \<open>
  A first answer of type \<open>CNAME\<close> and class 256, the mark of a local record, is followed once: its target is
  asked for, and the two answers are joined.
\<close>

definition cname_Solve :: "outside \<Rightarrow> question \<Rightarrow> DnsSolver list \<Rightarrow> solved dns" where
  "cname_Solve ext q solvers =
     bind_dns (default_Solve ext q solvers) (\<lambda>(firstMsg, err).
     case (firstMsg, err) of
       (_, Some _) \<Rightarrow> ret_dns (firstMsg, err)
     | (None, None) \<Rightarrow> panic_dns PanicNilDereference
     | (Some m, None) \<Rightarrow>
         (case Answer m of
            [] \<Rightarrow> ret_dns (firstMsg, None)
          | firstAnswer # _ \<Rightarrow>
              if Rrtype firstAnswer = TypeCNAME \<and> rrClass firstAnswer = 256 then
                (case rrData firstAnswer of
                   RCNAME target \<Rightarrow>
                     bind_dns (default_Solve ext (q\<lparr>qName := target\<rparr>) solvers) (\<lambda>(secondMsg, err2).
                     case (secondMsg, err2) of
                       (Some _, Some e) \<Rightarrow> ret_dns (None, Some e)
                     | (Some m2, None) \<Rightarrow>
                         ret_dns (Some (answer_msg (\<lparr>rrName = rrName firstAnswer, Rrtype = TypeCNAME, rrClass = ClassINET,
                           Ttl = Ttl firstAnswer, rrData = RCNAME target\<rparr> # Answer m2)), None)
                     | (None, _) \<Rightarrow> ret_dns (firstMsg, None))
                 | _ \<Rightarrow> panic_dns PanicTypeAssertion)
              else ret_dns (firstMsg, None)))"

section \<open>dns.go\<close>

definition getSolvers :: "dns_world \<Rightarrow> DnsSolver list \<times> dns_world" where
  "getSolvers w =
     (let (cachedLocal, w1) = NewCacheDnsSolver LocalDnsSolver w;
          (cachedRemote, w2) = NewCacheDnsSolver RemoteDnsSolver w1
      in ([SystemDnsSolver, DockerDnsSolver, cachedLocal, cachedRemote], w2))"

text \<open>
  The reply to a request, \<open>None\<close> when nothing is written to the client. A panic is recovered and logged,
  and nothing is written either.
\<close>

definition handleQuestion :: "outside \<Rightarrow> DnsSolver list \<Rightarrow> question list \<Rightarrow> dns_msg option dns" where
  "handleQuestion ext solvers questions =
     (case questions of
        [] \<Rightarrow> ret_dns None
      | firstQuestion # _ \<Rightarrow>
          bind_dns (cname_Solve ext firstQuestion solvers) (\<lambda>(msg, err). ret_dns msg))"

section \<open>The names that are tried\<close>

text \<open>The reference definition: every suffix that starts at a dot and is more than the dot, longest first.\<close>

fun host_suffixes :: "string \<Rightarrow> string list" where
  "host_suffixes [] = []"
| "host_suffixes (c # s) =
     (if c = CHR ''.'' \<and> s \<noteq> [] then (c # s) # host_suffixes s else host_suffixes s)"

declare dot_suffixes.simps [simp del]

lemma dot_suffixes_host_suffixes: "dot_suffixes s = host_suffixes s"
proof (induction s)
  case Nil
  then show ?case by (simp add: dot_suffixes.simps)
next
  case (Cons c s)
  show ?case
  proof (cases "c = CHR ''.''")
    case True
    then show ?thesis using Cons by (subst dot_suffixes.simps) auto
  next
    case False
    have "dot_suffixes (c # s) = dot_suffixes s"
      using False by (subst (1 2) dot_suffixes.simps) (auto split: option.splits)
    then show ?thesis using Cons False by simp
  qed
qed

lemma getAllHosts_names: "getAllHosts (''.'' @ n) = n # host_suffixes (''.'' @ n)"
  by (simp add: getAllHosts_def dot_suffixes_host_suffixes)

lemma host_suffixes_sound: "h \<in> set (host_suffixes s) \<Longrightarrow> (\<exists>p t. s = p @ h \<and> h = CHR ''.'' # t \<and> t \<noteq> [])"
proof (induction s)
  case (Cons c s)
  show ?case
  proof (cases "h \<in> set (host_suffixes s)")
    case True
    then obtain p t where "s = p @ h" "h = CHR ''.'' # t" "t \<noteq> []" using Cons.IH by blast
    then show ?thesis by (metis append_Cons)
  next
    case False
    then have "h = c # s" "c = CHR ''.''" "s \<noteq> []" using Cons.prems by (auto split: if_splits)
    then show ?thesis by (intro exI [of _ "[]"] exI [of _ s]) simp
  qed
qed simp

lemma host_suffixes_complete: "t \<noteq> [] \<Longrightarrow> CHR ''.'' # t \<in> set (host_suffixes (p @ CHR ''.'' # t))"
  by (induction p) auto

section \<open>Local records\<close>

lemmas dns_simps = bind_dns_def ret_dns_def panic_dns_def on_server_def

text \<open>The answer for a record whose address is well-formed.\<close>

definition host_answer :: "question \<Rightarrow> Hostname \<Rightarrow> dns_msg option" where
  "host_answer q h =
     (if hType h = ''A'' \<or> hType h = '''' then
        Some (answer_msg [\<lparr>rrName = qName q, Rrtype = TypeA, rrClass = ClassINET, Ttl = word_of_int (hTtl h),
          rrData = RA (projr (ToIpByteArray zero_ip (hIp h)))\<rparr>])
      else if hType h = ''CNAME'' then Some (getCnameMsg q h) else None)"

lemma hostname_msg_served: "quad_text (hIp h) \<Longrightarrow> hostname_msg q h = Inr (host_answer q h)"
  using quad_text_bytes [of "hIp h"] by (auto simp: hostname_msg_def host_answer_def getAMsg_def)

text \<open>
  \<open>local_answer q rs keys\<close>: the answer of the first key whose first record has an answer.
\<close>

fun local_answer :: "question \<Rightarrow> Hostname list \<Rightarrow> string list \<Rightarrow> dns_msg option" where
  "local_answer q rs [] = None"
| "local_answer q rs (k # ks) =
     (case Option.bind (find (\<lambda>h. hHostname h = k) rs) (host_answer q) of
        Some m \<Rightarrow> Some m | None \<Rightarrow> local_answer q rs ks)"

lemma solveHostname_served:
  assumes "served (dw_server w) c" and "records c (ActiveEnv c) = Some rs"
  shows "solveHostname q k w =
    Inr (case Option.bind (find (\<lambda>h. hHostname h = k) rs) (host_answer q) of
           Some m \<Rightarrow> (Some m, None) | None \<Rightarrow> (None, Some (HostnameNotFound k)), w)"
proof -
  obtain i where i: "GetActiveEnv c = Some i" "Hostnames (Envs c ! i) = rs"
    using assms(2) by (auto simp: records_def GetActiveEnv_def)
  have l: "solveHostname q k w = (case GetHostname (Envs c ! i) k of
       None \<Rightarrow> Inr ((None, Some (HostnameNotFound k)), w)
     | Some j \<Rightarrow> (case hostname_msg q (rs ! j) of
           Inl p \<Rightarrow> Inl p
         | Inr None \<Rightarrow> Inr ((None, Some (HostnameNotFound k)), w)
         | Inr (Some msg) \<Rightarrow> Inr ((Some msg, None), w)))"
    using i served_load [OF assms(1)]
    by (simp add: solveHostname_def dns_simps split: option.splits sum.splits)
  show ?thesis
  proof (cases "GetHostname (Envs c ! i) k")
    case None
    then have "find (\<lambda>h. hHostname h = k) rs = None"
      using i index_where_find [of rs "\<lambda>h. hHostname h = k"] by (simp add: GetHostname_def)
    then show ?thesis using l None by simp
  next
    case (Some j)
    then have j: "find (\<lambda>h. hHostname h = k) rs = Some (rs ! j)" "j < length rs"
      using i index_where_find [of rs "\<lambda>h. hHostname h = k"] index_where_bound by (auto simp: GetHostname_def)
    then have "quad_text (hIp (rs ! j))"
      using served_records [OF assms] by (auto simp: list_all_length host_served_def)
    then show ?thesis using l Some j by (simp add: hostname_msg_served split: option.splits)
  qed
qed

lemma local_loop_served:
  assumes "served (dw_server w) c" and "records c (ActiveEnv c) = Some rs"
  shows "local_loop q name ks w =
    Inr (case local_answer q rs ks of Some m \<Rightarrow> (Some m, None) | None \<Rightarrow> (None, Some (HostnameNotFound name)), w)"
  by (induction ks) (simp_all add: dns_simps solveHostname_served [OF assms] split: option.split)

lemma local_Solve_served:
  assumes "served (dw_server w) c" and "records c (ActiveEnv c) = Some rs" and "qName q = n @ ''.''"
  shows "local_Solve q w =
    Inr (case local_answer q rs (n # host_suffixes (''.'' @ n)) of
           Some m \<Rightarrow> (Some m, None) | None \<Rightarrow> (None, Some (HostnameNotFound n)), w)"
  unfolding local_Solve_def getAllHosts_names
  by (simp add: assms(3) questionName_def dns_simps local_loop_served [OF assms(1,2)]
      del: local_answer.simps local_loop.simps host_suffixes.simps)

section \<open>The cached answers\<close>

lemma caches_put_cache:
  "i < length (caches (srv_store (dw_server w))) \<Longrightarrow> caches (srv_store (dw_server (put_cache i tc w))) ! i = tc"
  by (simp add: put_cache_def Let_def)

lemma put_cache_same: "put_cache i (caches (srv_store (dw_server w)) ! i) w = w"
  by (simp add: put_cache_def Let_def)

lemma cache_doSolve_empty:
  assumes "lru_entries (tc_cache (caches (srv_store (dw_server w)) ! i)) = []"
  shows "cache_doSolve i key w = Inr (None, w\<lparr>dw_server := (dw_server w)\<lparr>srv_ticks := Suc (srv_ticks (dw_server w))\<rparr>\<rparr>)"
proof -
  let ?w = "w\<lparr>dw_server := (dw_server w)\<lparr>srv_ticks := Suc (srv_ticks (dw_server w))\<rparr>\<rparr>"
  have "GetTimeValue now (caches (srv_store (dw_server w)) ! i) key = (None, caches (srv_store (dw_server ?w)) ! i)" for now
    using assms by (simp add: GetTimeValue_def lru_Get_def)
  then show ?thesis
    using put_cache_same [of i ?w]
    by (simp add: cache_doSolve_def cache_GetTimeValue_def time_Now_def dns_simps Let_def)
qed

lemma Solve_cached_local:
  assumes "served (dw_server w) c" and "records c (ActiveEnv c) = Some rs" and "qName q = n @ ''.''"
    and "store_empty (srv_store (dw_server w))" and "i < length (caches (srv_store (dw_server w)))"
    and "local_answer q rs (n # host_suffixes (''.'' @ n)) = Some m"
  shows "\<exists>w'. Solve ext (CacheDnsSolver i LocalDnsSolver) q w = Inr ((Some m, None), w')"
proof -
  let ?w = "w\<lparr>dw_server := (dw_server w)\<lparr>srv_ticks := Suc (srv_ticks (dw_server w))\<rparr>\<rparr>"
  have "lru_entries (tc_cache (caches (srv_store (dw_server w)) ! i)) = []"
    using assms(4,5) by (simp add: store_empty_def list_all_length)
  then have "cache_doSolve i (getHostnameKey q) w = Inr (None, ?w)" by (rule cache_doSolve_empty)
  moreover have "served (dw_server ?w) c" using assms(1) by simp
  from local_Solve_served [OF this assms(2,3)] have "local_Solve q ?w = Inr ((Some m, None), ?w)"
    by (simp only: assms(6) option.case)
  ultimately show ?thesis by (simp add: cache_Solve_def dns_simps cache_PutTTL_def time_Now_def Let_def)
qed

section \<open>The contract of a solver\<close>

lemma cache_doSolve_total: "\<exists>r w1. cache_doSolve i key w = Inr (r, w1)"
proof -
  obtain r tc where "GetTimeValue (srv_clock (dw_server w) (srv_ticks (dw_server w))) (caches (srv_store (dw_server w)) ! i) key
      = (r, tc)" by fastforce
  then show ?thesis
    by (cases r) (simp_all add: cache_doSolve_def cache_GetTimeValue_def dns_simps time_Now_def Let_def)
qed

lemma ask_servers_message: "servers \<noteq> [] \<Longrightarrow> ask_servers ext q servers res = (msg, None) \<Longrightarrow> msg \<noteq> None"
proof (induction servers arbitrary: res)
  case (Cons server servers)
  show ?case
  proof (cases "o_ask ext (JoinHostPort (dnsIp server) (go_FormatInt (dnsPort server))) (q\<lparr>qName := Fqdn (qName q)\<rparr>)")
    case None
    with Cons show ?thesis by (cases servers) (auto simp del: ask_servers.simps(2) simp: ask_servers.simps(2) [of _ _ server])
  next
    case (Some m)
    with Cons show ?thesis by (cases "Rcode m = 0"; cases servers)
      (auto simp del: ask_servers.simps(2) simp: ask_servers.simps(2) [of _ _ server])
  qed
qed simp

lemma remote_servers_message: "ask_servers ext q (GetRemoteServers config) res = (msg, None) \<Longrightarrow> msg \<noteq> None"
  by (rule ask_servers_message) (simp_all add: GetRemoteServers_def)

text \<open>
  What the caching solver and the factories rely on when they look into a message after a test for an
  error: a solver that reports no error returns a message.
\<close>

locale solver_contract =
  fixes solve :: "question \<Rightarrow> solved dns"
  assumes no_error_message: "solve q w = Inr ((msg, None), w') \<Longrightarrow> msg \<noteq> None"
begin

text \<open>The cache keeps the contract, and panics only where the solver behind it does.\<close>

lemma cached_message: "cache_Solve i solve q w = Inr ((msg, None), w') \<Longrightarrow> msg \<noteq> None"
  using no_error_message [of q]
  by (auto simp: cache_Solve_def dns_simps cache_PutTTL_def time_Now_def Let_def split: sum.splits option.splits)

lemma cached_panic: "cache_Solve i solve q w = Inl p \<Longrightarrow> \<exists>w'. solve q w' = Inl p"
proof -
  assume a: "cache_Solve i solve q w = Inl p"
  obtain r w1 where r: "cache_doSolve i (getHostnameKey q) w = Inr (r, w1)"
    using cache_doSolve_total by blast
  show ?thesis
  proof (cases r)
    case None
    with a r no_error_message [of q w1] show ?thesis
      by (auto simp: cache_Solve_def dns_simps cache_PutTTL_def time_Now_def Let_def
          split: sum.splits option.splits prod.splits)
  next
    case (Some m)
    with a r show ?thesis by (simp add: cache_Solve_def dns_simps)
  qed
qed

end

interpretation local_solver: solver_contract local_Solve
proof
  show "msg \<noteq> None" if "local_Solve q w = Inr ((msg, None), w')" for q w msg w'
  proof -
    have loop: "local_loop q name hosts w = Inr ((msg, None), w') \<Longrightarrow> msg \<noteq> None" for name hosts w
      by (induction hosts arbitrary: w)
        (auto simp: dns_simps solveHostname_def split: sum.splits option.splits if_splits prod.splits)
    then show ?thesis using that by (auto simp: local_Solve_def questionName_def dns_simps split: if_splits)
  qed
qed

interpretation docker_solver: solver_contract docker_Solve
  by unfold_locales
    (auto simp: docker_Solve_def docker_doSolve_def questionName_def dns_simps
      split: if_splits option.splits prod.splits sum.splits)

interpretation system_solver: solver_contract "system_Solve ext" for ext
  by unfold_locales
    (auto simp: system_Solve_def gateway_msg_def questionName_def dns_simps
      split: if_splits option.splits prod.splits sum.splits)

interpretation remote_solver: solver_contract "remote_Solve ext" for ext
  by unfold_locales
    (auto simp: remote_Solve_def bind_dns_def Let_def
      split: sum.splits option.splits prod.splits cached.splits dest!: remote_servers_message)

text \<open>Every solver keeps the contract, so no message that is missing is ever looked into.\<close>

lemma Solve_message: "Solve ext solver q w = Inr ((msg, None), w') \<Longrightarrow> msg \<noteq> None"
proof (induction solver arbitrary: q w msg w')
  case (CacheDnsSolver i d)
  then have "solver_contract (\<lambda>q'. Solve ext d q')" by unfold_locales blast
  with CacheDnsSolver.prems show ?case by (auto dest!: solver_contract.cached_message)
qed (auto dest: local_solver.no_error_message docker_solver.no_error_message system_solver.no_error_message
    remote_solver.no_error_message)

end
