(* ===== verification/DockerNetwork.thy ===== *)
theory DockerNetwork
  imports Solver
begin

text \<open>
  \<open>src/docker/dockernetwork/dockernetwork.go\<close>: the networks and addresses of containers. The Docker
  daemon is a parameter: \<open>docker_api\<close> holds the calls of its client, each a function on the state \<open>'d\<close>
  of the daemon, which may change with every call. A failed call returns the text of its error.
\<close>

section \<open>The client of the daemon\<close>

text \<open>Go's maps are association lists, in the order in which an iteration meets their keys.\<close>

record EndpointSettings =
  epNetworkID :: string
  epIPAddress :: string

record EndpointResource =
  erName :: string
  erIPv4Address :: string

record NetworkResource =
  nwName :: string
  nwDriver :: string
  nwGateways :: "string list"
  nwContainers :: "(string \<times> EndpointResource) list"

record Container =
  ctID :: string
  ctNames :: "string list"

record ContainerJSON =
  cjID :: string
  cjName :: string
  cjHostname :: string
  cjDomainname :: string
  cjEnv :: "string list"
  cjLabels :: "(string \<times> string) list"
  cjNetworks :: "(string \<times> EndpointSettings) list"
  cjIPAddress :: string

record NetworkCreateOptions =
  ncDriver :: string
  ncSubnet :: string
  ncIPRange :: string
  ncGateway :: string
  ncAttachable :: bool
  ncLabels :: "(string \<times> string) list"

type_synonym filter_args = "(string \<times> string) list"

type_synonym ('d, 'a) api_call = "'d \<Rightarrow> (string, 'a) result \<times> 'd"

record 'd docker_api =
  ServerVersion :: "('d, unit) api_call"
  ContainerList :: "filter_args \<Rightarrow> ('d, Container list) api_call"
  ContainerInspect :: "string \<Rightarrow> ('d, ContainerJSON) api_call"
  NetworkList :: "filter_args \<Rightarrow> ('d, NetworkResource list) api_call"
  NetworkCreate :: "string \<Rightarrow> NetworkCreateOptions \<Rightarrow> ('d, unit) api_call"
  api_NetworkConnect :: "string \<Rightarrow> string \<Rightarrow> string \<Rightarrow> ('d, unit) api_call"
  api_NetworkDisconnect :: "string \<Rightarrow> string \<Rightarrow> ('d, unit) api_call"
  api_Events :: "filter_args \<Rightarrow> ('d, unit) api_call"

text \<open>The state: the daemon, the variable \<open>cli\<close>, set or \<open>nil\<close>, and the DNS server's own state.\<close>

record 'd dock =
  dk_daemon :: 'd
  dk_cli :: bool
  dk_world :: dns_world

type_synonym ('d, 'a) dk = "'d dock \<Rightarrow> (go_panic, 'a \<times> 'd dock) result"

definition bind_dk :: "('d, 'a) dk \<Rightarrow> ('a \<Rightarrow> ('d, 'b) dk) \<Rightarrow> ('d, 'b) dk" where
  "bind_dk m f st = (case m st of Inl p \<Rightarrow> Inl p | Inr (a, st') \<Rightarrow> f a st')"

definition ret_dk :: "'a \<Rightarrow> ('d, 'a) dk" where
  "ret_dk a st = Inr (a, st)"

definition panic_dk :: "string \<Rightarrow> ('d, 'a) dk" where
  "panic_dk msg st = Inl (PanicMessage msg)"

text \<open>A method of \<open>cli\<close>, which panics when that is \<open>nil\<close>.\<close>

definition call :: "('d, 'a) api_call \<Rightarrow> ('d, (string, 'a) result) dk" where
  "call f st =
     (if dk_cli st then let (r, d) = f (dk_daemon st) in Inr (r, st\<lparr>dk_daemon := d\<rparr>)
      else Inl PanicNilDereference)"

text \<open>A function of \<open>conf\<close>.\<close>

definition on_conf :: "(dns_msg, 'a) go \<Rightarrow> ('d, 'a) dk" where
  "on_conf m st =
     (case on_server m (dk_world st) of Inl p \<Rightarrow> Inl p | Inr (a, w) \<Rightarrow> Inr (a, st\<lparr>dk_world := w\<rparr>))"

definition go_Contains :: "string \<Rightarrow> string \<Rightarrow> bool" where
  "go_Contains s sub = list_ex (\<lambda>i. take (length sub) (drop i s) = sub) [0..<Suc (length s)]"

definition WithMessage :: "string \<Rightarrow> string \<Rightarrow> string" where
  "WithMessage err message = message @ '': '' @ err"

section \<open>Networks\<close>

definition dps_network :: string where "dps_network = ''dps''"

definition SetCli :: "'d dock \<Rightarrow> 'd dock" where
  "SetCli st = st\<lparr>dk_cli := True\<rparr>"

definition alreadyCreated :: "string \<Rightarrow> bool" where
  "alreadyCreated err = go_Contains err (''network with name '' @ dps_network @ '' already exists'')"

definition CreateOrUpdateDpsNetwork :: "'d docker_api \<Rightarrow> string \<Rightarrow> ('d, (string, unit) result) dk" where
  "CreateOrUpdateDpsNetwork api version =
     bind_dk (call (NetworkCreate api dps_network
       \<lparr>ncDriver = ''bridge'', ncSubnet = ''172.157.0.0/16'', ncIPRange = ''172.157.5.3/24'',
        ncGateway = ''172.157.5.1'', ncAttachable = True,
        ncLabels = [(''description'', ''this is a Dns Proxy Server Network''), (''version'', version)]\<rparr>)) (\<lambda>r.
     case r of
       Inr _ \<Rightarrow> ret_dk (Inr ())
     | Inl err \<Rightarrow> if alreadyCreated err then ret_dk (Inr ()) else ret_dk (Inl err))"

text \<open>\<open>filters.ParseFlag\<close>, of the client library, and the loop over the arguments.\<close>

definition ParseFlag :: "string \<Rightarrow> filter_args \<Rightarrow> (string, filter_args) result" where
  "ParseFlag arg prev =
     (if arg = [] then Inr prev
      else
        (case index_where (\<lambda>c. c = CHR ''='') arg of
           None \<Rightarrow> Inl ''bad format of filter (expected name=value)''
         | Some i \<Rightarrow>
             (let e = (map to_lower (go_TrimSpace (take i arg)), go_TrimSpace (drop (Suc i) arg)) in
              Inr (if e \<in> set prev then prev else prev @ [e]))))"

fun parse_flags :: "string list \<Rightarrow> filter_args \<Rightarrow> (string, filter_args) result" where
  "parse_flags [] args = Inr args"
| "parse_flags (f # fs) args = (case ParseFlag f args of Inl err \<Rightarrow> Inl err | Inr args' \<Rightarrow> parse_flags fs args')"

definition MustParseFlags :: "string list \<Rightarrow> ('d, filter_args) dk" where
  "MustParseFlags flags =
     (case parse_flags flags [] of
        Inl err \<Rightarrow> panic_dk (WithMessage err ''can't parse flags'') | Inr args \<Rightarrow> ret_dk args)"

definition ListNetworks :: "'d docker_api \<Rightarrow> string list \<Rightarrow> ('d, (string, NetworkResource list) result) dk" where
  "ListNetworks api args =
     bind_dk (MustParseFlags args) (\<lambda>fs.
     bind_dk (call (NetworkList api fs)) (\<lambda>r.
     case r of
       Inl err \<Rightarrow> ret_dk (Inl (WithMessage err ''can't list networks''))
     | Inr networks \<Rightarrow> ret_dk (Inr networks)))"

definition FindNetwork :: "'d docker_api \<Rightarrow> string list \<Rightarrow> ('d, (string, NetworkResource) result) dk" where
  "FindNetwork api args =
     bind_dk (ListNetworks api args) (\<lambda>r.
     case r of
       Inl err \<Rightarrow> ret_dk (Inl (WithMessage err ''can't list networks''))
     | Inr [n] \<Rightarrow> ret_dk (Inr n)
     | Inr _ \<Rightarrow> ret_dk (Inl (''didn't found the specified network with args: ['' @ join_with (CHR '' '') args @ '']'')))"

definition FindNetworkByName :: "'d docker_api \<Rightarrow> string \<Rightarrow> ('d, (string, NetworkResource) result) dk" where
  "FindNetworkByName api name = FindNetwork api [''name=^'' @ name @ ''$'']"

definition FindNetworkByID :: "'d docker_api \<Rightarrow> string \<Rightarrow> ('d, (string, NetworkResource) result) dk" where
  "FindNetworkByID api nid = FindNetwork api [''id=^'' @ nid]"

definition FindDpsNetwork :: "'d docker_api \<Rightarrow> ('d, (string, NetworkResource) result) dk" where
  "FindDpsNetwork api = FindNetworkByName api dps_network"

section \<open>Gateways\<close>

text \<open>\<open>n.IPAM.Config[0].Gateway\<close>.\<close>

definition GetNetworkGatewayIp :: "NetworkResource \<Rightarrow> ('d, string) dk" where
  "GetNetworkGatewayIp n st =
     (case nwGateways n of [] \<Rightarrow> Inl PanicIndexOutOfRange | g # _ \<Rightarrow> Inr (g, st))"

definition FindNetworkGatewayIp :: "'d docker_api \<Rightarrow> string \<Rightarrow> ('d, (string, string) result) dk" where
  "FindNetworkGatewayIp api name =
     bind_dk (FindNetworkByName api name) (\<lambda>r.
     case r of
       Inl err \<Rightarrow> ret_dk (Inl err)
     | Inr n \<Rightarrow> bind_dk (GetNetworkGatewayIp n) (\<lambda>ip. ret_dk (Inr ip)))"

definition dn_FindDpsNetworkGatewayIp :: "'d docker_api \<Rightarrow> ('d, (string, string) result) dk" where
  "dn_FindDpsNetworkGatewayIp api = FindNetworkGatewayIp api dps_network"

definition FindDockerNetworkNetworkGatewayIp :: "'d docker_api \<Rightarrow> ('d, (string, string) result) dk" where
  "FindDockerNetworkNetworkGatewayIp api =
     bind_dk (FindNetworkGatewayIp api ''bridge'') (\<lambda>r.
     case r of
       Inr ip \<Rightarrow> ret_dk (Inr ip)
     | Inl _ \<Rightarrow>
         bind_dk (ListNetworks api []) (\<lambda>r.
         case r of
           Inl err \<Rightarrow> ret_dk (Inl err)
         | Inr [] \<Rightarrow> ret_dk (Inl ''No network found on this docker daemon'')
         | Inr (n # _) \<Rightarrow> bind_dk (GetNetworkGatewayIp n) (\<lambda>ip. ret_dk (Inr ip))))"

definition dn_GetGatewayIp :: "'d docker_api \<Rightarrow> ('d, (string, string) result) dk" where
  "dn_GetGatewayIp api =
     bind_dk (dn_FindDpsNetworkGatewayIp api) (\<lambda>r.
     case r of
       Inr ip \<Rightarrow> ret_dk (Inr ip)
     | Inl _ \<Rightarrow> FindDockerNetworkNetworkGatewayIp api)"

section \<open>Connections\<close>

definition MustNetworkDisconnect :: "'d docker_api \<Rightarrow> string \<Rightarrow> string \<Rightarrow> ('d, unit) dk" where
  "MustNetworkDisconnect api networkId containerId =
     bind_dk (call (api_NetworkDisconnect api networkId containerId)) (\<lambda>r.
     case r of
       Inr _ \<Rightarrow> ret_dk ()
     | Inl err \<Rightarrow>
         if go_Contains err (''is not connected to network '' @ dps_network) then ret_dk ()
         else panic_dk (''could not disconnect dps container from dps network: '' @ err))"

fun disconnect_ip :: "'d docker_api \<Rightarrow> string \<Rightarrow> string \<Rightarrow> (string \<times> EndpointResource) list \<Rightarrow> ('d, unit) dk" where
  "disconnect_ip api networkName containerIP [] = ret_dk ()"
| "disconnect_ip api networkName containerIP ((containerId, container) # rest) =
     (if go_Contains (erIPv4Address container) containerIP then
        bind_dk (MustNetworkDisconnect api networkName containerId) (\<lambda>_. disconnect_ip api networkName containerIP rest)
      else disconnect_ip api networkName containerIP rest)"

definition MustNetworkDisconnectForIp :: "'d docker_api \<Rightarrow> string \<Rightarrow> string \<Rightarrow> ('d, unit) dk" where
  "MustNetworkDisconnectForIp api networkName containerIP =
     bind_dk (FindNetworkByName api networkName) (\<lambda>r.
     case r of
       Inl err \<Rightarrow> panic_dk (WithMessage err (''can't find network='' @ networkName))
     | Inr n \<Rightarrow> disconnect_ip api networkName containerIP (nwContainers n))"

definition NetworkConnect :: "'d docker_api \<Rightarrow> string \<Rightarrow> string \<Rightarrow> string \<Rightarrow> ('d, (string, unit) result) dk" where
  "NetworkConnect api networkId containerId networkIpAddress =
     bind_dk (call (api_NetworkConnect api networkId containerId networkIpAddress)) (\<lambda>r.
     case r of
       Inl err \<Rightarrow> if go_Contains err ''already exists in network'' then ret_dk (Inr ()) else ret_dk (Inl err)
     | Inr _ \<Rightarrow> ret_dk (Inr ()))"

definition MustNetworkConnect :: "'d docker_api \<Rightarrow> outside \<Rightarrow> string \<Rightarrow> string \<Rightarrow> string \<Rightarrow> ('d, unit) dk" where
  "MustNetworkConnect api ext networkId containerId networkIpAddress =
     bind_dk (on_conf (conf_DpsNetworkAutoConnect (o_env ext) (o_flags ext))) (\<lambda>auto.
     if \<not> auto then ret_dk ()
     else
       bind_dk (NetworkConnect api networkId containerId networkIpAddress) (\<lambda>r.
       case r of
         Inl err \<Rightarrow> panic_dk (WithMessage err (''can't connect container '' @ containerId @ '' to network '' @ networkId
                      @ '', ip='' @ networkIpAddress))
       | Inr _ \<Rightarrow> ret_dk ()))"

text \<open>The result of \<open>/network/disconnect-containers/\<close>: one line for each container, also for a success.\<close>

fun disconnect_all :: "'d docker_api \<Rightarrow> string \<Rightarrow> string list \<Rightarrow> ('d, string list) dk" where
  "disconnect_all api networkId [] = ret_dk []"
| "disconnect_all api networkId (cid # cids) =
     bind_dk (call (api_NetworkDisconnect api networkId cid)) (\<lambda>r.
     bind_dk (disconnect_all api networkId cids) (\<lambda>errs.
     ret_dk ((case r of
        Inl err \<Rightarrow> WithMessage err (''cant disconnect container '' @ cid)
      | Inr _ \<Rightarrow> ''success for '' @ cid) # errs)))"

definition DisconnectNetworkContainers :: "'d docker_api \<Rightarrow> string \<Rightarrow> ('d, string list) dk" where
  "DisconnectNetworkContainers api networkId =
     bind_dk (FindNetworkByID api networkId) (\<lambda>r.
     case r of
       Inl err \<Rightarrow> ret_dk [WithMessage err (''cant inspect network: '' @ networkId)]
     | Inr n \<Rightarrow> disconnect_all api networkId (map fst (nwContainers n)))"

section \<open>The address of a container\<close>

definition GetIPFromNetworksMap :: "(string \<times> EndpointSettings) list \<Rightarrow> string \<Rightarrow> string" where
  "GetIPFromNetworksMap networks key =
     (case map_of networks key of None \<Rightarrow> '''' | Some n \<Rightarrow> epIPAddress n)"

definition MapValues :: "(string \<times> EndpointSettings) list \<Rightarrow> EndpointSettings list" where
  "MapValues endpointsMap = map snd endpointsMap"

record CompleteNetwork =
  cnIpAddress :: string
  cnNetworkId :: string
  cnDriver :: string

definition getDriverOrder :: "string \<Rightarrow> int" where
  "getDriverOrder driver = (if driver = ''bridge'' then 0 else 1)"

fun constructCompleteNetwork :: "'d docker_api \<Rightarrow> EndpointSettings list \<Rightarrow> ('d, CompleteNetwork list) dk" where
  "constructCompleteNetwork api [] = ret_dk []"
| "constructCompleteNetwork api (endpoint # rest) =
     bind_dk (FindNetworkByID api (epNetworkID endpoint)) (\<lambda>r.
     case r of
       Inl err \<Rightarrow> panic_dk (WithMessage err (''can't inspect network: '' @ epNetworkID endpoint))
     | Inr networkRes \<Rightarrow>
         bind_dk (constructCompleteNetwork api rest) (\<lambda>ns.
         ret_dk (\<lparr>cnIpAddress = epIPAddress endpoint, cnNetworkId = epNetworkID endpoint, cnDriver = nwDriver networkRes\<rparr> # ns)))"

text \<open>
  \<open>sort.Sort\<close> leaves open how equal elements are ordered. They come from a map, whose order is open as well,
  so the results for all orders are those of a stable sort for all orders.
\<close>

definition sort_by_driver :: "CompleteNetwork list \<Rightarrow> CompleteNetwork list" where
  "sort_by_driver ns = sort_key (\<lambda>n. getDriverOrder (cnDriver n)) ns"

definition FindBestIpForNetworks :: "'d docker_api \<Rightarrow> ContainerJSON \<Rightarrow> string list \<Rightarrow> ('d, string) dk" where
  "FindBestIpForNetworks api container preferredNetworks =
     (case find (\<lambda>n. GetIPFromNetworksMap (cjNetworks container) n \<noteq> '''') preferredNetworks of
        Some n \<Rightarrow> ret_dk (GetIPFromNetworksMap (cjNetworks container) n)
      | None \<Rightarrow>
          bind_dk (constructCompleteNetwork api (MapValues (cjNetworks container))) (\<lambda>ns.
          ret_dk (case find (\<lambda>n. cnIpAddress n \<noteq> '''') (sort_by_driver ns) of
             Some n \<Rightarrow> cnIpAddress n
           | None \<Rightarrow> cjIPAddress container)))"

definition FindBestIP :: "'d docker_api \<Rightarrow> ContainerJSON \<Rightarrow> ('d, string) dk" where
  "FindBestIP api container = FindBestIpForNetworks api container [dps_network, ''bridge'']"

text \<open>\<open>toContainerNames\<close>, of the warning about several containers, looks at the first name of each.\<close>

definition toContainerNames :: "Container list \<Rightarrow> ('d, string list) dk" where
  "toContainerNames cs st =
     (if list_ex (\<lambda>c. ctNames c = []) cs then Inl PanicIndexOutOfRange else Inr (map (\<lambda>c. hd (ctNames c)) cs, st))"

definition FindDpsContainer :: "'d docker_api \<Rightarrow> ('d, (string, Container) result) dk" where
  "FindDpsContainer api =
     bind_dk (MustParseFlags [''status=running'', ''label=dps.container=true'']) (\<lambda>fs.
     bind_dk (call (ContainerList api fs)) (\<lambda>r.
     case r of
       Inl err \<Rightarrow> ret_dk (Inl (WithMessage err ''can't list containers''))
     | Inr [] \<Rightarrow> ret_dk (Inl ''containers result must be exactly one but found: 0'')
     | Inr [c] \<Rightarrow> ret_dk (Inr c)
     | Inr (c # cs) \<Rightarrow> bind_dk (toContainerNames (c # cs)) (\<lambda>_. ret_dk (Inr c))))"

definition dn_FindDpsContainerIP :: "'d docker_api \<Rightarrow> ('d, (string, string) result) dk" where
  "dn_FindDpsContainerIP api =
     bind_dk (FindDpsContainer api) (\<lambda>r.
     case r of
       Inl err \<Rightarrow> ret_dk (Inl err)
     | Inr c \<Rightarrow>
         bind_dk (call (ContainerInspect api (ctID c))) (\<lambda>r.
         case r of
           Inr cj \<Rightarrow> bind_dk (FindBestIP api cj) (\<lambda>ip. ret_dk (Inr ip))
         | Inl err \<Rightarrow> ret_dk (Inl (WithMessage err (''can't inspect container: ['' @ join_with (CHR '' '') (ctNames c) @ '']'')))))"

section \<open>The choice of the address\<close>

lemmas dk_simps = bind_dk_def ret_dk_def panic_dk_def

text \<open>
  What the daemon documents for the filter \<open>id\<close> on the networks a container is connected to: it finds the
  one network, and looking does not change anything.
\<close>

definition id_filter :: "string \<Rightarrow> filter_args" where
  "id_filter nid = [(''id'', go_TrimSpace (''^'' @ nid))]"

definition knows_networks :: "'d docker_api \<Rightarrow> (string \<Rightarrow> string) \<Rightarrow> ContainerJSON \<Rightarrow> bool" where
  "knows_networks api driver c \<longleftrightarrow>
     (\<forall>ep \<in> snd ` set (cjNetworks c). \<forall>d. \<exists>n.
        NetworkList api (id_filter (epNetworkID ep)) d = (Inr [n], d) \<and> nwDriver n = driver (epNetworkID ep))"

text \<open>The reference: the preferred networks in turn, then a bridge, then any network, then the default.\<close>

definition best_ip :: "(string \<Rightarrow> string) \<Rightarrow> string list \<Rightarrow> ContainerJSON \<Rightarrow> string" where
  "best_ip driver preferred c =
     (let preferredIps = filter (\<lambda>ip. ip \<noteq> '''') (map (GetIPFromNetworksMap (cjNetworks c)) preferred);
          eps = filter (\<lambda>e. epIPAddress e \<noteq> '''') (map snd (cjNetworks c));
          bridges = filter (\<lambda>e. driver (epNetworkID e) = ''bridge'') eps
      in hd (preferredIps @ map epIPAddress bridges @ map epIPAddress eps @ [cjIPAddress c]))"

lemma id_flags: "parse_flags [''id=^'' @ nid] [] = Inr (id_filter nid)"
  by (simp add: ParseFlag_def id_filter_def go_TrimSpace_def go_is_space_def to_lower_def)

lemma FindNetworkByID_known:
  assumes "dk_cli st" and "NetworkList api (id_filter nid) (dk_daemon st) = (Inr [n], dk_daemon st)"
  shows "FindNetworkByID api nid st = Inr (Inr n, st)"
  using assms id_flags [of nid]
  by (simp add: FindNetworkByID_def FindNetwork_def ListNetworks_def MustParseFlags_def call_def dk_simps)

lemma find_hd: "find P xs = (case filter P xs of [] \<Rightarrow> None | x # _ \<Rightarrow> Some x)"
  by (induction xs) auto

lemma insort_two:
  fixes f :: "'a \<Rightarrow> int"
  assumes "f y = 0 \<or> f y = 1" "\<forall>x \<in> set as. f x = 0" "\<forall>x \<in> set bs. f x = 1"
  shows "insort_key f y (as @ bs) = (if f y = 0 then y # as @ bs else as @ y # bs)"
  using assms(2)
proof (induction as)
  case Nil
  show ?case using assms(1,3) by (cases bs) (auto simp del: insort_key_left_comm)
next
  case (Cons a as)
  then show ?case using assms(1) by auto
qed

lemma sort_two:
  fixes f :: "'a \<Rightarrow> int"
  assumes "\<forall>x \<in> set xs. f x = 0 \<or> f x = 1"
  shows "sort_key f xs = filter (\<lambda>x. f x = 0) xs @ filter (\<lambda>x. f x \<noteq> 0) xs"
  using assms
proof (induction xs)
  case (Cons y xs)
  let ?as = "filter (\<lambda>x. f x = 0) xs" and ?bs = "filter (\<lambda>x. f x \<noteq> 0) xs"
  have "sort_key f (y # xs) = insort_key f y (?as @ ?bs)" using Cons by simp
  also have "\<dots> = (if f y = 0 then y # ?as @ ?bs else ?as @ y # ?bs)"
    using Cons.prems by (intro insort_two) auto
  finally show ?case by simp
qed simp

lemma hd_preferred:
  "hd (map g (filter b (filter p xs)) @ map g (filter p xs) @ [z]) =
    (case find p (filter b xs @ filter (\<lambda>x. \<not> b x) xs) of None \<Rightarrow> z | Some e \<Rightarrow> g e)"
proof (cases "filter b (filter p xs)")
  case Nil
  then have "filter p (filter b xs) = []" "filter p (filter (\<lambda>x. \<not> b x) xs) = filter p xs"
    by (auto simp: filter_empty_conv intro!: filter_cong)
  with Nil show ?thesis by (cases "filter p xs") (simp_all add: find_hd del: filter_filter)
next
  case (Cons e es)
  then have "filter p (filter b xs) = e # es" by (simp add: conj_commute)
  with Cons show ?thesis by (simp add: find_hd del: filter_filter)
qed

lemma constructCompleteNetwork_known:
  assumes "dk_cli st" and "\<forall>ep \<in> set eps. \<exists>n. NetworkList api (id_filter (epNetworkID ep)) (dk_daemon st) =
      (Inr [n], dk_daemon st) \<and> nwDriver n = driver (epNetworkID ep)"
  shows "constructCompleteNetwork api eps st =
    Inr (map (\<lambda>e. \<lparr>cnIpAddress = epIPAddress e, cnNetworkId = epNetworkID e, cnDriver = driver (epNetworkID e)\<rparr>) eps, st)"
  using assms(2)
proof (induction eps)
  case (Cons e eps)
  then obtain n where "NetworkList api (id_filter (epNetworkID e)) (dk_daemon st) = (Inr [n], dk_daemon st)"
    "nwDriver n = driver (epNetworkID e)" by auto
  with Cons FindNetworkByID_known [OF assms(1)] show ?case by (simp add: dk_simps)
qed (simp add: dk_simps)

lemma best_ip_result:
  assumes "dk_cli st" and "knows_networks api driver c"
  shows "FindBestIpForNetworks api c preferred st = Inr (best_ip driver preferred c, st)"
proof -
  let ?N = "GetIPFromNetworksMap (cjNetworks c)" and ?eps = "map snd (cjNetworks c)"
  let ?cn = "\<lambda>e. \<lparr>cnIpAddress = epIPAddress e, cnNetworkId = epNetworkID e, cnDriver = driver (epNetworkID e)\<rparr>"
  let ?br = "\<lambda>e. driver (epNetworkID e) = ''bridge''"
  have ns: "constructCompleteNetwork api (MapValues (cjNetworks c)) st = Inr (map ?cn ?eps, st)"
    using assms unfolding MapValues_def
    by (intro constructCompleteNetwork_known) (auto simp: knows_networks_def image_iff)
  have sorted: "sort_by_driver (map ?cn ?eps) = map ?cn (filter ?br ?eps @ filter (\<lambda>e. \<not> ?br e) ?eps)"
    unfolding sort_by_driver_def by (subst sort_two) (simp_all add: getDriverOrder_def filter_map o_def)
  show ?thesis
  proof (cases "filter (\<lambda>n. ?N n \<noteq> '''') preferred")
    case Nil
    then have "filter (\<lambda>ip. ip \<noteq> '''') (map ?N preferred) = []" by (simp add: filter_map o_def)
    moreover have "find (\<lambda>n. cnIpAddress n \<noteq> '''') (sort_by_driver (map ?cn ?eps)) =
        map_option ?cn (find (\<lambda>e. epIPAddress e \<noteq> '''') (filter ?br ?eps @ filter (\<lambda>e. \<not> ?br e) ?eps))"
      unfolding sorted by (simp add: find_hd filter_map o_def split: list.split del: filter_filter map_append filter_append)
    ultimately show ?thesis
      using Nil ns hd_preferred [of epIPAddress ?br "\<lambda>e. epIPAddress e \<noteq> ''''" ?eps "cjIPAddress c"]
      by (simp add: FindBestIpForNetworks_def best_ip_def find_hd [of _ preferred] dk_simps Let_def comp_def
          del: filter_filter split: option.split)
  next
    case (Cons n ns')
    then have "filter (\<lambda>ip. ip \<noteq> '''') (map ?N preferred) = ?N n # map ?N ns'" by (simp add: filter_map o_def)
    with Cons show ?thesis by (simp add: FindBestIpForNetworks_def best_ip_def find_hd dk_simps Let_def)
  qed
qed

text \<open>
  C26. The address of a container is the one in the first preferred network that has one; else one in
  a network of the driver \<open>bridge\<close>; else one in any of its networks; else the default address. The sort by
  driver and the loops over the networks compute exactly that, and leave daemon and server as they are.
\<close>

theorem best_ip_choice:
  assumes "dk_cli st" and "knows_networks api driver c"
  shows "FindBestIpForNetworks api c preferred st = Inr (best_ip driver preferred c, st)"
  using assms by (rule best_ip_result)

text \<open>
  A daemon with two containers: one in an overlay network and in a bridge, one in the host's network,
  which has no address. A connection to the network \<open>dps\<close> gives the address \<open>172.157.5.10\<close>.
\<close>

definition demo_web :: ContainerJSON where
  "demo_web = \<lparr>cjID = ''w1'', cjName = ''/web'', cjHostname = ''web'', cjDomainname = ''acme.com'',
     cjEnv = [''PATH=/bin'', ''HOSTNAMES=www.acme.com,shop.acme.com''], cjLabels = [],
     cjNetworks = [(''ov'', \<lparr>epNetworkID = ''o1'', epIPAddress = ''10.1.0.2''\<rparr>),
       (''front'', \<lparr>epNetworkID = ''b1'', epIPAddress = ''172.17.0.2''\<rparr>)], cjIPAddress = ''''\<rparr>"

definition demo_host :: ContainerJSON where
  "demo_host = \<lparr>cjID = ''h1'', cjName = ''/h'', cjHostname = ''a'', cjDomainname = ''com'', cjEnv = [], cjLabels = [],
     cjNetworks = [(''host'', \<lparr>epNetworkID = ''o1'', epIPAddress = ''''\<rparr>)], cjIPAddress = ''''\<rparr>"

definition demo_driver :: "string \<Rightarrow> string" where
  "demo_driver nid = (if nid = ''b1'' \<or> nid = ''d1'' then ''bridge'' else ''overlay'')"

definition demo_networks :: "NetworkResource list" where
  "demo_networks = map (\<lambda>i. \<lparr>nwName = i, nwDriver = demo_driver i, nwGateways = [], nwContainers = []\<rparr>) [''o1'', ''b1'', ''d1'']"

definition demo_connect :: "ContainerJSON \<Rightarrow> ContainerJSON" where
  "demo_connect c = c\<lparr>cjNetworks := (dps_network, \<lparr>epNetworkID = ''d1'', epIPAddress = ''172.157.5.10''\<rparr>) # cjNetworks c\<rparr>"

record demo_daemon =
  dd_web :: bool
  dd_host :: bool
  dd_connected :: bool

definition demo_view :: "demo_daemon \<Rightarrow> string \<Rightarrow> ContainerJSON option" where
  "demo_view d i =
     (if i = ''w1'' \<and> dd_web d then Some (if dd_connected d then demo_connect demo_web else demo_web)
      else if i = ''h1'' \<and> dd_host d then Some demo_host else None)"

definition demo_api :: "demo_daemon docker_api" where
  "demo_api = \<lparr>ServerVersion = (\<lambda>d. (Inr (), d)),
     ContainerList = (\<lambda>_ d. (Inr [], d)),
     ContainerInspect = (\<lambda>i d. (case demo_view d i of Some c \<Rightarrow> Inr c | None \<Rightarrow> Inl (''No such container: '' @ i), d)),
     NetworkList = (\<lambda>fs d. (Inr (filter (\<lambda>n. fs = id_filter (nwName n)) demo_networks), d)),
     NetworkCreate = (\<lambda>_ _ d. (Inr (), d)),
     api_NetworkConnect = (\<lambda>n i _ d. (Inr (), d\<lparr>dd_connected := True\<rparr>)),
     api_NetworkDisconnect = (\<lambda>_ _ d. (Inr (), d)),
     api_Events = (\<lambda>_ d. (Inr (), d))\<rparr>"

definition demo_dock :: "dns_world \<Rightarrow> demo_daemon dock" where
  "demo_dock w = \<lparr>dk_daemon = \<lparr>dd_web = True, dd_host = True, dd_connected = False\<rparr>, dk_cli = True, dk_world = w\<rparr>"

lemma demo_filters: "id_filter ''o1'' = [(''id'', ''^o1'')]" "id_filter ''b1'' = [(''id'', ''^b1'')]" "id_filter ''d1'' = [(''id'', ''^d1'')]"
  by (simp_all add: id_filter_def go_TrimSpace_def go_is_space_def)

lemma demo_list:
  "nid \<in> {''o1'', ''b1'', ''d1''} \<Longrightarrow> \<exists>n. NetworkList demo_api (id_filter nid) d = (Inr [n], d) \<and> nwDriver n = demo_driver nid"
  by (auto simp: demo_api_def demo_networks_def demo_filters demo_driver_def)

lemma demo_knows:
  "knows_networks demo_api demo_driver demo_web" "knows_networks demo_api demo_driver demo_host"
  "knows_networks demo_api demo_driver (demo_connect demo_web)"
  using demo_list by (simp_all add: knows_networks_def demo_web_def demo_host_def demo_connect_def)

theorem best_ip_choice_witness:
  "\<forall>w. FindBestIpForNetworks demo_api demo_web [''''] (demo_dock w) = Inr (''172.17.0.2'', demo_dock w)"
proof
  show "FindBestIpForNetworks demo_api demo_web [''''] (demo_dock w) = Inr (''172.17.0.2'', demo_dock w)" for w
    using best_ip_choice [of "demo_dock w" demo_api demo_driver demo_web "['''']"] demo_knows
    by (simp add: demo_dock_def best_ip_def demo_web_def demo_driver_def GetIPFromNetworksMap_def)
qed

section \<open>What the rest of the server sees of Docker\<close>

text \<open>
  \<open>GetDpsIP\<close> and \<open>GetGatewayIP\<close> of \<open>resolvconf.go\<close> with the calls they make. \<open>ResolvConf\<close> has them over a
  \<open>docker_view\<close>, the results of those calls; \<open>sees\<close> says that a view is what the calls give in a state.
\<close>

definition dk_GetDpsIP :: "'d docker_api \<Rightarrow> string list option \<Rightarrow> ('d, string option) dk" where
  "dk_GetDpsIP api addrs st =
     (if dk_cli st then
        bind_dk (dn_FindDpsContainerIP api) (\<lambda>r.
        case r of
          Inr ip \<Rightarrow> ret_dk (Some ip)
        | Inl _ \<Rightarrow>
            bind_dk (dn_FindDpsNetworkGatewayIp api) (\<lambda>r.
            case r of Inr ip \<Rightarrow> ret_dk (Some ip) | Inl _ \<Rightarrow> ret_dk (GetCurrentIpAddress addrs))) st
      else ret_dk (GetCurrentIpAddress addrs) st)"

definition ok_value :: "(string, 'a) result \<Rightarrow> 'a option" where
  "ok_value r = (case r of Inr a \<Rightarrow> Some a | Inl _ \<Rightarrow> None)"

definition dk_GetGatewayIP :: "'d docker_api \<Rightarrow> string list option \<Rightarrow> ('d, string option) dk" where
  "dk_GetGatewayIP api addrs st =
     (if dk_cli st then bind_dk (dn_GetGatewayIp api) (\<lambda>r. ret_dk (ok_value r)) st
      else ret_dk (GetCurrentIpAddress addrs) st)"

definition sees :: "'d docker_api \<Rightarrow> 'd dock \<Rightarrow> docker_view \<Rightarrow> bool" where
  "sees api st v \<longleftrightarrow> IsDockerConnected v = dk_cli st \<and>
     (dk_cli st \<longrightarrow>
        (\<exists>r. dn_FindDpsContainerIP api st = Inr (r, st) \<and> FindDpsContainerIP v = ok_value r) \<and>
        (\<exists>r. dn_FindDpsNetworkGatewayIp api st = Inr (r, st) \<and> FindDpsNetworkGatewayIp v = ok_value r) \<and>
        (\<exists>r. dn_GetGatewayIp api st = Inr (r, st) \<and> GetGatewayIp v = ok_value r))"

lemma seen_addresses:
  assumes "sees api st v"
  shows "dk_GetDpsIP api addrs st = Inr (GetDpsIP v addrs, st)"
    and "dk_GetGatewayIP api addrs st = Inr (GetGatewayIP v addrs, st)"
proof -
  have "dk_GetDpsIP api addrs st = Inr (GetDpsIP v addrs, st) \<and> dk_GetGatewayIP api addrs st = Inr (GetGatewayIP v addrs, st)"
  proof (cases "dk_cli st")
    case True
    then obtain a b c where "dn_FindDpsContainerIP api st = Inr (a, st)" "FindDpsContainerIP v = ok_value a"
      "dn_FindDpsNetworkGatewayIp api st = Inr (b, st)" "FindDpsNetworkGatewayIp v = ok_value b"
      "dn_GetGatewayIp api st = Inr (c, st)" "GetGatewayIp v = ok_value c" "IsDockerConnected v"
      using assms by (auto simp: sees_def)
    with True show ?thesis
      by (cases a; cases b)
        (simp_all add: dk_GetDpsIP_def dk_GetGatewayIP_def GetDpsIP_def GetGatewayIP_def ok_value_def dk_simps)
  next
    case False
    with assms show ?thesis
      by (simp add: sees_def dk_GetDpsIP_def dk_GetGatewayIP_def GetDpsIP_def GetGatewayIP_def ret_dk_def)
  qed
  then show "dk_GetDpsIP api addrs st = Inr (GetDpsIP v addrs, st)"
    and "dk_GetGatewayIP api addrs st = Inr (GetGatewayIP v addrs, st)" by simp_all
qed

text \<open>The daemon of the example, in which no container is the server's own and the network \<open>dps\<close> is missing.\<close>

lemma demo_no_name:
  "name = dps_network \<or> name = ''bridge'' \<Longrightarrow> \<exists>e. FindNetworkByName demo_api name (demo_dock w) = Inr (Inl e, demo_dock w)"
  by (auto simp: FindNetworkByName_def FindNetwork_def ListNetworks_def MustParseFlags_def ParseFlag_def call_def dps_network_def
      demo_api_def demo_networks_def demo_filters demo_dock_def go_TrimSpace_def go_is_space_def dk_simps)

lemma demo_sees:
  "\<exists>v. sees demo_api (demo_dock w) v \<and> IsDockerConnected v \<and> FindDpsContainerIP v = None"
proof -
  have own: "\<exists>e. dn_FindDpsContainerIP demo_api (demo_dock w) = Inr (Inl e, demo_dock w)"
    by (simp add: dn_FindDpsContainerIP_def FindDpsContainer_def MustParseFlags_def ParseFlag_def call_def demo_api_def
        demo_dock_def dk_simps)
  have no: "\<exists>e. FindNetworkGatewayIp demo_api name (demo_dock w) = Inr (Inl e, demo_dock w)"
    if "name = dps_network \<or> name = ''bridge''" for name
    using demo_no_name [OF that, of w] by (auto simp: FindNetworkGatewayIp_def dk_simps)
  have "\<exists>e. dn_GetGatewayIp demo_api (demo_dock w) = Inr (Inl e, demo_dock w)"
    using no [of dps_network] no [of "''bridge''"]
    by (auto simp: dn_GetGatewayIp_def dn_FindDpsNetworkGatewayIp_def FindDockerNetworkNetworkGatewayIp_def ListNetworks_def
        MustParseFlags_def call_def demo_api_def demo_networks_def demo_filters demo_dock_def dk_simps)
  moreover note own
  moreover have "dk_cli (demo_dock w)" by (simp add: demo_dock_def)
  moreover obtain e where "FindNetworkGatewayIp demo_api dps_network (demo_dock w) = Inr (Inl e, demo_dock w)"
    using no [of dps_network] by blast
  ultimately show ?thesis
    by (intro exI [of _ "\<lparr>IsDockerConnected = True, FindDpsContainerIP = None, FindDpsNetworkGatewayIp = None, GetGatewayIp = None\<rparr>"])
      (auto simp: sees_def dn_FindDpsNetworkGatewayIp_def ok_value_def)
qed

end
