(* ===== verification/JsBase.thy ===== *)
theory JsBase
  imports Api
begin

text \<open>
  The JavaScript the front end is written in: numbers as far as \<open>parseInt\<close> produces them,
  values, property access on plain objects, conversion to text, \<open>Array.prototype.join\<close>,
  \<open>String.prototype.trim\<close>, \<open>JSON.stringify\<close> and \<open>JSON.parse\<close>. A string is a sequence of
  Latin-1 code units; a thrown exception is a value of \<open>js_error\<close>.
\<close>

section \<open>Numbers\<close>

datatype jsnum = NaN | PosInf | NegInf | JInt int

text \<open>\<open>InvariantViolation\<close> is what React throws for an object in the place of a child.\<close>

datatype js_error = TypeError string | SyntaxError | InvariantViolation

fun bitlen :: "nat \<Rightarrow> nat" where
  "bitlen n = (if n = 0 then 0 else Suc (bitlen (n div 2)))"

declare bitlen.simps [simp del]

text \<open>The double nearest to an integer, ties to even.\<close>

definition round53 :: "nat \<Rightarrow> nat" where
  "round53 n =
     (if n \<le> 2 ^ 53 then n
      else
        let e = bitlen n - 53; q = n div 2 ^ e; r = n mod 2 ^ e; half = 2 ^ (e - 1);
            q' = (if half < r \<or> (r = half \<and> odd q) then Suc q else q)
        in q' * 2 ^ e)"

definition js_num :: "int \<Rightarrow> jsnum" where
  "js_num i =
     (let m = round53 (nat \<bar>i\<bar>) in
      if 2 ^ 1024 \<le> m then (if i < 0 then NegInf else PosInf)
      else JInt (if i < 0 then - int m else int m))"

lemma js_num_exact: "\<bar>i\<bar> \<le> 2 ^ 53 \<Longrightarrow> js_num i = JInt i"
proof -
  assume "\<bar>i\<bar> \<le> 2 ^ 53"
  then have le: "nat \<bar>i\<bar> \<le> 2 ^ 53" by (simp add: nat_le_iff)
  moreover have "(2::nat) ^ 53 < 2 ^ 1024" by (rule power_strict_increasing) simp_all
  ultimately have "\<not> 2 ^ 1024 \<le> nat \<bar>i\<bar>" by simp
  with le show ?thesis by (auto simp: js_num_def round53_def Let_def)
qed

lemma js_num_byte: "0 \<le> n \<Longrightarrow> n < 256 \<Longrightarrow> js_num n = JInt n"
  by (rule js_num_exact) simp

text \<open>
  Text of an integer: up to \<open>2 ^ 53\<close> its digits; above, the shortest digits that denote the
  same double, in exponent form from \<open>10 ^ 21\<close> on.
\<close>

definition shortest_digits :: "nat \<Rightarrow> nat \<times> nat" where
  "shortest_digits n =
     (let d = length (show_nat n);
          cands = concat (map (\<lambda>k. let p = 10 ^ (d - k); m = n div p in
                    filter (\<lambda>(s, p). round53 (s * p) = n)
                      (if n - m * p \<le> Suc m * p - n then [(m, p), (Suc m, p)] else [(Suc m, p), (m, p)]))
                    [1..<Suc d])
      in case cands of [] \<Rightarrow> (n, 1) | c # _ \<Rightarrow> c)"

definition js_show_nat :: "nat \<Rightarrow> string" where
  "js_show_nat n =
     (if n \<le> 2 ^ 53 then show_nat n
      else
        let (s, p) = shortest_digits n; v = s * p in
        if v < 10 ^ 21 then show_nat v
        else
          let ds = show_nat s; e = length (show_nat v) - 1 in
          (case ds of [] \<Rightarrow> '''' | c # cs \<Rightarrow> c # (if cs = [] then [] else CHR ''.'' # cs))
            @ ''e+'' @ show_nat e)"

fun js_show_num :: "jsnum \<Rightarrow> string" where
  "js_show_num NaN = ''NaN''"
| "js_show_num PosInf = ''Infinity''"
| "js_show_num NegInf = ''-Infinity''"
| "js_show_num (JInt i) = (if i < 0 then CHR ''-'' # js_show_nat (nat (- i)) else js_show_nat (nat i))"

section \<open>parseInt\<close>

definition js_space :: "char \<Rightarrow> bool" where
  "js_space c \<longleftrightarrow> c \<in> {CHR 0x09, CHR 0x0A, CHR 0x0B, CHR 0x0C, CHR 0x0D, CHR '' '', CHR 0xA0}"

definition hex_digit :: "char \<Rightarrow> nat option" where
  "hex_digit c =
     (let n = of_char c :: nat in
      if is_digit c then Some (n - 48)
      else if 97 \<le> n \<and> n \<le> 102 then Some (n - 87)
      else if 65 \<le> n \<and> n \<le> 70 then Some (n - 55)
      else None)"

definition hex_val :: "string \<Rightarrow> nat" where
  "hex_val ds = foldl (\<lambda>a c. 16 * a + the (hex_digit c)) 0 ds"

definition parse_magnitude :: "string \<Rightarrow> nat option" where
  "parse_magnitude u =
     (if take 2 u = ''0x'' \<or> take 2 u = ''0X''
      then (let ds = takeWhile (\<lambda>c. hex_digit c \<noteq> None) (drop 2 u) in if ds = [] then None else Some (hex_val ds))
      else (let ds = takeWhile is_digit u in if ds = [] then None else Some (digits_val ds)))"

definition js_parseInt :: "string \<Rightarrow> jsnum" where
  "js_parseInt s =
     (let t = dropWhile js_space s;
          neg = (take 1 t = ''-'');
          u = (if take 1 t = ''-'' \<or> take 1 t = ''+'' then drop 1 t else t)
      in case parse_magnitude u of
           None \<Rightarrow> NaN
         | Some m \<Rightarrow> js_num (if neg then - int m else int m))"

lemma is_digit_not_space: "is_digit c \<Longrightarrow> \<not> js_space c"
  by (auto simp: is_digit_def js_space_def)

lemma js_parseInt_digits:
  assumes "ds \<noteq> []" and "list_all is_digit ds"
  shows "js_parseInt ds = js_num (int (digits_val ds))"
proof -
  obtain c cs where ds: "ds = c # cs" and c: "is_digit c" using assms by (cases ds) auto
  have "dropWhile js_space ds = ds" using ds c is_digit_not_space by simp
  moreover have "take 1 ds \<noteq> ''-''" "take 1 ds \<noteq> ''+''"
    using ds c is_digit_neq by auto
  moreover have "take 2 ds \<noteq> ''0x''" "take 2 ds \<noteq> ''0X''"
    using assms(2) ds by (auto simp: numeral_2_eq_2 is_digit_def split: list.splits; cases cs; simp)+
  moreover have "parse_magnitude ds = Some (digits_val ds)" if "take 2 ds \<noteq> ''0x''" "take 2 ds \<noteq> ''0X''"
    using that assms takeWhile_eq_all_conv [of is_digit ds] unfolding parse_magnitude_def list_all_iff
    by presburger
  ultimately show ?thesis
    by (simp add: js_parseInt_def Let_def)
qed

lemma js_parseInt_show_nat: "js_parseInt (show_nat n) = js_num (int n)"
  by (simp add: js_parseInt_digits show_nat_digits)

lemma js_parseInt_Nil: "js_parseInt [] = NaN"
  by (simp add: js_parseInt_def parse_magnitude_def)

section \<open>Values\<close>

datatype jsv =
    JSUndef
  | JSNull
  | JSBool bool
  | JSNum jsnum
  | JSStr string
  | JSArr "jsv list"
  | JSObj "(string \<times> jsv) list"

type_synonym jsobj = "(string \<times> jsv) list"

definition js_get :: "jsobj \<Rightarrow> string \<Rightarrow> jsv" where
  "js_get ob k = (case map_of ob k of None \<Rightarrow> JSUndef | Some v \<Rightarrow> v)"

fun js_set :: "jsobj \<Rightarrow> string \<Rightarrow> jsv \<Rightarrow> jsobj" where
  "js_set [] k v = [(k, v)]"
| "js_set ((k', v') # ob) k v = (if k' = k then (k, v) # ob else (k', v') # js_set ob k v)"

fun js_truthy :: "jsv \<Rightarrow> bool" where
  "js_truthy JSUndef = False"
| "js_truthy JSNull = False"
| "js_truthy (JSBool b) = b"
| "js_truthy (JSNum n) = (n \<noteq> NaN \<and> n \<noteq> JInt 0)"
| "js_truthy (JSStr s) = (s \<noteq> '''')"
| "js_truthy (JSArr _) = True"
| "js_truthy (JSObj _) = True"

fun is_str :: "jsv \<Rightarrow> bool" where "is_str (JSStr _) = True" | "is_str _ = False"
fun is_num :: "jsv \<Rightarrow> bool" where "is_num (JSNum _) = True" | "is_num _ = False"
fun is_arr :: "jsv \<Rightarrow> bool" where "is_arr (JSArr _) = True" | "is_arr _ = False"

lemma is_str_child: "is_str v \<Longrightarrow> \<exists>s. v = JSStr s" by (cases v) auto
lemma is_num_child: "is_num v \<Longrightarrow> \<exists>n. v = JSNum n" by (cases v) auto
lemma is_arr_child: "is_arr v \<Longrightarrow> \<exists>xs. v = JSArr xs" by (cases v) auto

lemma js_get_set [simp]: "js_get (js_set ob k v) k' = (if k' = k then v else js_get ob k')"
  by (induction ob k v rule: js_set.induct) (auto simp: js_get_def)

lemma map_of_js_set: "map_of (js_set ob k v) = (map_of ob)(k \<mapsto> v)"
  by (induction ob k v rule: js_set.induct) (auto simp: fun_eq_iff)

lemma js_set_keys: "map fst (js_set ob k v) =
    (if k \<in> set (map fst ob) then map fst ob else map fst ob @ [k])"
  by (induction ob k v rule: js_set.induct) auto

section \<open>Text\<close>

fun js_to_string :: "jsv \<Rightarrow> string" where
  "js_to_string JSUndef = ''undefined''"
| "js_to_string JSNull = ''null''"
| "js_to_string (JSBool b) = (if b then ''true'' else ''false'')"
| "js_to_string (JSNum n) = js_show_num n"
| "js_to_string (JSStr s) = s"
| "js_to_string (JSArr xs) =
     join_with (CHR '','') (map (\<lambda>x. if x = JSUndef \<or> x = JSNull then [] else js_to_string x) xs)"
| "js_to_string (JSObj _) = ''[object Object]''"

definition js_join_dot :: "jsv list \<Rightarrow> string" where
  "js_join_dot xs =
     join_with (CHR ''.'') (map (\<lambda>x. if x = JSUndef \<or> x = JSNull then [] else js_to_string x) xs)"

definition js_trim :: "string \<Rightarrow> string" where
  "js_trim s = rev (dropWhile js_space (rev (dropWhile js_space s)))"

section \<open>JSON\<close>

text \<open>\<open>stringify v = None\<close>: the value has no JSON text (\<open>undefined\<close>).\<close>

fun stringify :: "jsv \<Rightarrow> json option" where
  "stringify JSUndef = None"
| "stringify JSNull = Some JNull"
| "stringify (JSBool b) = Some (JBool b)"
| "stringify (JSNum (JInt i)) = Some (JNum i)"
| "stringify (JSNum _) = Some JNull"
| "stringify (JSStr s) = Some (JStr s)"
| "stringify (JSArr xs) = Some (JArr (map (\<lambda>x. case stringify x of None \<Rightarrow> JNull | Some j \<Rightarrow> j) xs))"
| "stringify (JSObj kvs) =
     Some (JObj (concat (map (\<lambda>kv. case stringify (snd kv) of None \<Rightarrow> [] | Some j \<Rightarrow> [(fst kv, j)]) kvs)))"

fun json_parse :: "json \<Rightarrow> jsv" where
  "json_parse JNull = JSNull"
| "json_parse (JBool b) = JSBool b"
| "json_parse (JNum n) = JSNum (js_num n)"
| "json_parse (JStr s) = JSStr s"
| "json_parse (JArr js) = JSArr (map json_parse js)"
| "json_parse (JObj kvs) = JSObj (map (\<lambda>kv. (fst kv, json_parse (snd kv))) kvs)"

section \<open>Regular expressions\<close>

text \<open>
  The fragment the sources use, with its backtracking as the list of all remainders a match
  can leave, and the global replacement of a run of characters.
\<close>

datatype rx =
    REps
  | RClass "char \<Rightarrow> bool"
  | RSeq rx rx
  | RAlt rx rx
  | ROpt rx

fun rmatch :: "rx \<Rightarrow> string \<Rightarrow> string list" where
  "rmatch REps s = [s]"
| "rmatch (RClass P) s = (case s of [] \<Rightarrow> [] | c # t \<Rightarrow> if P c then [t] else [])"
| "rmatch (RSeq a b) s = concat (map (rmatch b) (rmatch a s))"
| "rmatch (RAlt a b) s = rmatch a s @ rmatch b s"
| "rmatch (ROpt a) s = rmatch a s @ [s]"

fun r_times :: "nat \<Rightarrow> rx \<Rightarrow> rx" where
  "r_times 0 a = REps"
| "r_times (Suc n) a = RSeq a (r_times n a)"

fun r_string :: "string \<Rightarrow> rx" where
  "r_string [] = REps"
| "r_string (c # cs) = RSeq (RClass ((=) c)) (r_string cs)"

definition r_between :: "char \<Rightarrow> char \<Rightarrow> rx" where
  "r_between lo hi = RClass (\<lambda>c. (of_char lo :: nat) \<le> of_char c \<and> (of_char c :: nat) \<le> of_char hi)"

text \<open>\<open>/^r$/.test(s)\<close>.\<close>

definition r_full :: "rx \<Rightarrow> string \<Rightarrow> bool" where
  "r_full r s \<longleftrightarrow> [] \<in> set (rmatch r s)"

text \<open>\<open>s.replace(/[P]+/g, rep)\<close>.\<close>

function replace_runs :: "(char \<Rightarrow> bool) \<Rightarrow> string \<Rightarrow> string \<Rightarrow> string" where
  "replace_runs P rep [] = []"
| "replace_runs P rep (c # t) =
     (if P c then rep @ replace_runs P rep (dropWhile P t) else c # replace_runs P rep t)"
  by pat_completeness auto
termination by (relation "measure (\<lambda>(_, _, s). length s)") (auto simp: less_Suc_eq_le length_dropWhile_le)

lemma rmatch_suffix: "t \<in> set (rmatch r s) \<Longrightarrow> \<exists>u. s = u @ t"
proof (induction r arbitrary: s t)
  case (RClass P)
  then show ?case by (auto split: list.splits if_splits)
next
  case (RSeq a b)
  then obtain v where "v \<in> set (rmatch a s)" "t \<in> set (rmatch b v)" by auto
  with RSeq.IH show ?case by (metis append.assoc)
qed auto

lemma rmatch_r_string: "t \<in> set (rmatch (r_string w) s) \<longleftrightarrow> s = w @ t"
  by (induction w arbitrary: s) (auto split: list.splits)

lemma replace_runs_filter: "replace_runs P [] s = filter (\<lambda>c. \<not> P c) s"
proof (induction P "[] :: string" s rule: replace_runs.induct)
  case (2 P c t)
  have "filter (\<lambda>c. \<not> P c) (dropWhile P t) = filter (\<lambda>c. \<not> P c) t" by (induction t) auto
  with 2 show ?case by simp
qed simp

lemma js_trim_set: "set (js_trim s) \<subseteq> set s"
proof -
  have "set (dropWhile js_space t) \<subseteq> set t" for t by (blast dest: set_dropWhileD)
  then show ?thesis unfolding js_trim_def set_rev by (metis set_rev subset_trans)
qed

lemma js_trim_ends:
  assumes "js_trim s \<noteq> []"
  shows "\<not> js_space (hd (js_trim s)) \<and> \<not> js_space (last (js_trim s))"
proof -
  let ?t = "dropWhile js_space s"
  let ?u = "dropWhile js_space (rev ?t)"
  have u: "?u \<noteq> []" using assms by (simp add: js_trim_def)
  then have "\<not> js_space (hd ?u)" by (rule hd_dropWhile)
  then have l: "\<not> js_space (last (js_trim s))" using u by (simp add: js_trim_def last_rev)
  have "rev ?t = takeWhile js_space (rev ?t) @ ?u" by simp
  then have "?t = rev ?u @ rev (takeWhile js_space (rev ?t))" unfolding rev_append [symmetric] by simp
  then have t: "?t = js_trim s @ rev (takeWhile js_space (rev ?t))" unfolding js_trim_def .
  have "hd ?t = hd (js_trim s)" by (subst t) (simp add: assms)
  moreover have "\<not> js_space (hd ?t)" by (rule hd_dropWhile) (metis u dropWhile.simps(1) rev.simps(1))
  ultimately show ?thesis using l by simp
qed

lemma js_trim_Nil_iff: "js_trim s = [] \<longleftrightarrow> list_all js_space s"
proof -
  have "js_trim s = [] \<longleftrightarrow> list_all js_space (dropWhile js_space s)"
    by (simp add: js_trim_def list_all_iff)
  also have "\<dots> \<longleftrightarrow> list_all js_space s"
    by (induction s) auto
  finally show ?thesis .
qed

lemma js_trim_id: "s = [] \<or> \<not> js_space (hd s) \<and> \<not> js_space (last s) \<Longrightarrow> js_trim s = s"
proof -
  have "dropWhile js_space t = t" if "t = [] \<or> \<not> js_space (hd t)" for t
    using that by (cases t) auto
  then show "s = [] \<or> \<not> js_space (hd s) \<and> \<not> js_space (last s) \<Longrightarrow> js_trim s = s"
    unfolding js_trim_def by (metis hd_rev rev_is_Nil_conv rev_rev_ident)
qed

end
