(* ===== verification/Web.thy ===== *)
theory Web
  imports JsBase
begin

text \<open>
  What the components of \<open>src/app/src/components\<close> share: the element trees their \<open>render\<close>
  methods return, the events a tree accepts, the requests they hand to \<open>$.ajax\<close>, the
  notifications they hand to \<open>window.$.notify\<close>, and the way a request reaches the server of
  theory \<open>Api\<close>. jQuery is not part of the repository: the function \<open>jq\<close> that turns a response
  into the outcome its callbacks see is a parameter, with the documented behaviour the
  components rely on in \<open>jq_contract\<close>.
\<close>

section \<open>Element trees\<close>

datatype 'h attr = Attr string jsv | On string 'h

datatype 'h vnode = Elem string "'h attr list" "'h vnode list" | Txt string

abbreviation at :: "string \<Rightarrow> string \<Rightarrow> 'h attr" where
  "at n v \<equiv> Attr n (JSStr v)"

abbreviation cls :: "string \<Rightarrow> 'h attr" where
  "cls c \<equiv> at ''className'' c"

abbreviation flag :: "string \<Rightarrow> 'h attr" where
  "flag n \<equiv> Attr n (JSBool True)"

text \<open>\<open>{cond && <x/>}\<close>: nothing is rendered for \<open>false\<close>.\<close>

definition shown :: "bool \<Rightarrow> 'h vnode \<Rightarrow> 'h vnode list" where
  "shown b t = (if b then [t] else [])"

text \<open>A value in the place of a child: text, nothing, a list of children, or an exception.\<close>

fun child :: "jsv \<Rightarrow> (js_error, 'h vnode list) result" where
  "child JSUndef = Inr []"
| "child JSNull = Inr []"
| "child (JSBool _) = Inr []"
| "child (JSNum n) = Inr [Txt (js_show_num n)]"
| "child (JSStr s) = Inr [Txt s]"
| "child (JSArr xs) = (case map_result child xs of Inl e \<Rightarrow> Inl e | Inr ts \<Rightarrow> Inr (concat ts))"
| "child (JSObj _) = Inl InvariantViolation"

fun elements :: "'h vnode \<Rightarrow> ('h attr list) list" where
  "elements (Txt _) = []"
| "elements (Elem _ as ts) = as # concat (map elements ts)"

fun attr_of :: "'h attr list \<Rightarrow> string \<Rightarrow> jsv" where
  "attr_of [] n = JSUndef"
| "attr_of (Attr m v # as) n = (if m = n then v else attr_of as n)"
| "attr_of (On _ _ # as) n = attr_of as n"

text \<open>
  \<open>handlers t\<close>: every event the tree listens to, with the \<open>name\<close> of its element (the
  \<open>event.target.name\<close> the handler reads) and the handler.
\<close>

definition target_name :: "'h attr list \<Rightarrow> string" where
  "target_name as = (case attr_of as ''name'' of JSStr s \<Rightarrow> s | _ \<Rightarrow> '''')"

fun listeners :: "'h attr list \<Rightarrow> (string \<times> 'h) list" where
  "listeners [] = []"
| "listeners (On ev h # as) = (ev, h) # listeners as"
| "listeners (Attr _ _ # as) = listeners as"

definition handlers :: "'h vnode list \<Rightarrow> (string \<times> string \<times> 'h) list" where
  "handlers ts =
     concat (map (\<lambda>t. concat (map (\<lambda>as. map (\<lambda>(ev, h). (ev, target_name as, h)) (listeners as)) (elements t))) ts)"

lemma handlers_simps [js_simps]:
  "handlers [] = []"
  "handlers (t # u # ts) = handlers [t] @ handlers (u # ts)"
  "handlers [Txt s] = []"
  "handlers [Elem tag as us] = map (\<lambda>(ev, h). (ev, target_name as, h)) (listeners as) @ handlers us"
  by (simp_all add: handlers_def map_concat o_def) (induction us, auto)

lemma handlers_append [js_simps]:
  "handlers (ts @ us) = handlers ts @ handlers us"
  "handlers (t # ts @ us) = handlers [t] @ handlers ts @ handlers us"
  by (simp_all add: handlers_def)

lemma handlers_shown [js_simps]: "handlers (shown b t) = (if b then handlers [t] else [])"
  by (simp add: shown_def js_simps)

text \<open>An event of the browser: \<open>event.target\<close> has a name and a value.\<close>

record event =
  ev_name :: string
  ev_value :: string

section \<open>Effects\<close>

datatype message = MsgVal jsv | MsgResponse payload

record notification =
  n_title :: "string option"
  n_message :: message
  n_type :: "string option"

record ajax =
  ax_method :: http_method
  ax_url :: string
  ax_contentType :: "string option"
  ax_data :: "json option"

text \<open>
  What a handler does beside changing its component's state, in order: start a request, whose
  outcome goes to the callback \<open>'c\<close>; show a notification; call a function passed as a property;
  throw.
\<close>

datatype 'c effect =
    Ajax ajax 'c
  | Notify notification
  | CallProp string "jsv list"
  | Throw js_error

definition notice :: "string option \<Rightarrow> string \<Rightarrow> string option \<Rightarrow> 'c effect" where
  "notice ti msg ty = Notify \<lparr>n_title = ti, n_message = MsgVal (JSStr msg), n_type = ty\<rparr>"

text \<open>\<open>public/js/index.js\<close>: the defaults the page hands to \<open>$.notifyDefaults\<close> when it is loaded.\<close>

definition notifyDefaults :: jsobj where
  "notifyDefaults =
     [(''mouse_over'', JSStr ''pause''),
      (''z_index'', JSNum (JInt 5000)),
      (''delay'', JSNum (JInt 5000)),
      (''placement'', JSObj [(''from'', JSStr ''bottom''), (''align'', JSStr ''right'')]),
      (''animate'', JSObj [(''enter'', JSStr ''animated fadeInRight''), (''exit'', JSStr ''animated fadeOutRight'')])]"

definition ajax_get :: "string \<Rightarrow> ajax" where
  "ajax_get url = \<lparr>ax_method = GET, ax_url = url, ax_contentType = None, ax_data = None\<rparr>"

definition ajax_json :: "http_method \<Rightarrow> string \<Rightarrow> jsobj \<Rightarrow> ajax" where
  "ajax_json m url ob =
     \<lparr>ax_method = m, ax_url = url, ax_contentType = Some ''application/json'',
      ax_data = stringify (JSObj ob)\<rparr>"

datatype ajax_result = AjaxDone jsv | AjaxFail nat payload

text \<open>\<open>JSON.parse\<close> of a response text; a body that is not JSON is a syntax error.\<close>

fun parse_payload :: "payload \<Rightarrow> (js_error, jsv) result" where
  "parse_payload (JsonBody j) = Inr (json_parse j)"
| "parse_payload _ = Inl SyntaxError"

text \<open>\<open>v.name\<close>: a property of a primitive value other than \<open>null\<close> and \<open>undefined\<close> is \<open>undefined\<close>.\<close>

fun js_member :: "jsv \<Rightarrow> string \<Rightarrow> (js_error, jsv) result" where
  "js_member JSUndef k = Inl (TypeError k)"
| "js_member JSNull k = Inl (TypeError k)"
| "js_member (JSObj ob) k = Inr (js_get ob k)"
| "js_member (JSStr s) k = Inr (if k = ''length'' then JSNum (js_num (int (length s))) else JSUndef)"
| "js_member (JSArr xs) k = Inr (if k = ''length'' then JSNum (js_num (int (length xs))) else JSUndef)"
| "js_member _ k = Inr JSUndef"

section \<open>From \<open>$.ajax\<close> to the server\<close>

text \<open>
  The browser drops tabs and line ends from a URL, cuts the fragment, and percent-encodes the
  characters a query may not hold; Go's \<open>url.ParseQuery\<close> splits at \<open>&\<close> and \<open>;\<close>, reads \<open>+\<close> as
  a space, and skips a pair with a malformed escape.
\<close>

definition url_clean :: "string \<Rightarrow> string" where
  "url_clean u = takeWhile (\<lambda>c. c \<noteq> CHR ''#'') (filter (\<lambda>c. c \<notin> {CHR 0x09, CHR 0x0A, CHR 0x0D}) u)"

definition hex_char :: "nat \<Rightarrow> char" where
  "hex_char n = (if n < 10 then digit_char n else char_of (55 + n))"

definition must_encode :: "char \<Rightarrow> bool" where
  "must_encode c \<longleftrightarrow>
     (of_char c :: nat) \<le> 32 \<or> 127 \<le> (of_char c :: nat) \<or> c \<in> {CHR 0x22, CHR 0x27, CHR ''<'', CHR ''>''}"

definition query_encode :: "string \<Rightarrow> string" where
  "query_encode s =
     concat (map (\<lambda>c. if must_encode c then [CHR ''%'', hex_char (of_char c div 16), hex_char (of_char c mod 16)]
       else [c]) s)"

fun QueryUnescape :: "string \<Rightarrow> string option" where
  "QueryUnescape [] = Some []"
| "QueryUnescape (c # s) =
     (if c = CHR ''%'' then
        (case s of
           a # b # t \<Rightarrow>
             (case (hex_digit a, hex_digit b) of
                (Some h, Some l) \<Rightarrow> map_option ((#) (char_of (16 * h + l))) (QueryUnescape t)
              | _ \<Rightarrow> None)
         | _ \<Rightarrow> None)
      else map_option ((#) (if c = CHR ''+'' then CHR '' '' else c)) (QueryUnescape s))"

definition query_pair :: "string \<Rightarrow> (string \<times> string) list" where
  "query_pair w =
     (if w = [] then []
      else case (QueryUnescape (takeWhile (\<lambda>c. c \<noteq> CHR ''='') w),
                 QueryUnescape (drop 1 (dropWhile (\<lambda>c. c \<noteq> CHR ''='') w))) of
        (Some k, Some v) \<Rightarrow> [(k, v)]
      | _ \<Rightarrow> [])"

definition ParseQuery :: "string \<Rightarrow> (string \<times> string) list" where
  "ParseQuery q =
     concat (map query_pair (split_on (CHR ''&'') (map (\<lambda>c. if c = CHR '';'' then CHR ''&'' else c) q)))"

definition request_of :: "ajax \<Rightarrow> request" where
  "request_of a =
     (let u = url_clean (ax_url a) in
      \<lparr>rq_method = ax_method a,
       rq_path = takeWhile (\<lambda>c. c \<noteq> CHR ''?'') u,
       rq_query = ParseQuery (query_encode (drop 1 (dropWhile (\<lambda>c. c \<noteq> CHR ''?'') u))),
       rq_body = ax_data a\<rparr>)"

definition jq_contract :: "(response \<Rightarrow> ajax_result) \<Rightarrow> bool" where
  "jq_contract jq \<longleftrightarrow>
     (\<forall>r. (200 \<le> rs_status r \<and> rs_status r < 204 \<longrightarrow>
             (\<forall>j. rs_json r \<and> rs_body r = JsonBody j \<longrightarrow> jq r = AjaxDone (json_parse j)) \<and>
             (rs_json r \<and> rs_body r = NoBody \<longrightarrow> jq r = AjaxFail (rs_status r) NoBody) \<and>
             (\<not> rs_json r \<and> rs_body r = NoBody \<longrightarrow> jq r = AjaxDone (JSStr ''''))) \<and>
          (400 \<le> rs_status r \<longrightarrow> jq r = AjaxFail (rs_status r) (rs_body r)))"

definition jq_std :: "response \<Rightarrow> ajax_result" where
  "jq_std r =
     (if 200 \<le> rs_status r \<and> rs_status r < 300 then
        (case rs_body r of
           JsonBody j \<Rightarrow> if rs_json r then AjaxDone (json_parse j) else AjaxDone (JSStr '''')
         | NoBody \<Rightarrow> if rs_json r then AjaxFail (rs_status r) NoBody else AjaxDone (JSStr '''')
         | TextBody t \<Rightarrow> if rs_json r then AjaxFail (rs_status r) (TextBody t) else AjaxDone (JSStr t))
      else AjaxFail (rs_status r) (rs_body r))"

lemma jq_std_contract: "jq_contract jq_std"
  by (auto simp: jq_contract_def jq_std_def)

text \<open>The outcome of a request at the server; a panic of a handler closes the connection.\<close>

definition perform ::
  "(response \<Rightarrow> ajax_result) \<Rightarrow> (string \<Rightarrow> string \<Rightarrow> bool) \<Rightarrow> (jerr \<Rightarrow> string) \<Rightarrow> ajax \<Rightarrow> ('m, ajax_result) go" where
  "perform jq re jerr_text a s =
     (case exchange re jerr_text (request_of a) s of
        Inl p \<Rightarrow> Inl p | Inr (r, s') \<Rightarrow> Inr (jq r, s'))"

lemma of_hex_char: "n < 16 \<Longrightarrow> (of_char (hex_char n) :: nat) = (if n < 10 then 48 + n else 55 + n)"
  by (simp add: hex_char_def digit_char_def)

lemma hex_digit_char: "n < 16 \<Longrightarrow> hex_digit (hex_char n) = Some n"
  by (auto simp: hex_digit_def Let_def is_digit_def of_hex_char)

lemma hex_char_not_sep: "n < 16 \<Longrightarrow> hex_char n \<noteq> CHR ''&'' \<and> hex_char n \<noteq> CHR '';''"
proof -
  assume "n < 16"
  then have "(of_char (hex_char n) :: nat) \<noteq> 38" "(of_char (hex_char n) :: nat) \<noteq> 59"
    by (auto simp: of_hex_char)
  then show ?thesis by auto
qed

lemma of_char_hex: "(of_char c :: nat) div 16 < 16" "char_of (16 * ((of_char c :: nat) div 16) + of_char c mod 16) = c"
proof -
  have "(of_char c :: nat) < 256" by simp
  then show "(of_char c :: nat) div 16 < 16" by linarith
  have "16 * ((of_char c :: nat) div 16) + of_char c mod 16 = of_char c" by (simp add: mult.commute)
  then show "char_of (16 * ((of_char c :: nat) div 16) + of_char c mod 16) = c" by simp
qed

lemma QueryUnescape_encode:
  "list_all (\<lambda>c. c \<noteq> CHR ''%'' \<and> c \<noteq> CHR ''+'') s \<Longrightarrow> QueryUnescape (query_encode s) = Some s"
  by (induction s) (auto simp: query_encode_def hex_digit_char of_char_hex)

lemma query_encode_seps:
  "list_all (\<lambda>c. c \<noteq> CHR ''&'' \<and> c \<noteq> CHR '';'') s \<Longrightarrow>
   list_all (\<lambda>c. c \<noteq> CHR ''&'' \<and> c \<noteq> CHR '';'') (query_encode s)"
  using hex_char_not_sep of_char_hex(1) by (fastforce simp: query_encode_def list_all_iff)

text \<open>\<open>url_safe\<close>: the names that arrive as they were when they are pasted into a query.\<close>

definition url_safe :: "string \<Rightarrow> bool" where
  "url_safe s \<longleftrightarrow> list_all (\<lambda>c. c \<notin> {CHR 0x09, CHR 0x0A, CHR 0x0D, CHR ''#'', CHR ''&'', CHR '';'', CHR ''+'', CHR ''%''}) s"

lemma query_encode_append [simp]: "query_encode (s @ t) = query_encode s @ query_encode t"
  by (simp add: query_encode_def)

lemma query_encode_plain: "list_all (\<lambda>c. \<not> must_encode c) s \<Longrightarrow> query_encode s = s"
  by (induction s) (auto simp: query_encode_def)

lemma request_of_find:
  assumes "url_safe e"
  shows "request_of (ajax_get (''/hostname/find/?env='' @ e @ ''&hostname='')) =
    \<lparr>rq_method = GET, rq_path = ''/hostname/find/'', rq_query = [(''env'', e), (''hostname'', '''')], rq_body = None\<rparr>"
proof -
  let ?q = "query_encode e"
  have c: "url_clean (''/hostname/find/?env='' @ e @ ''&hostname='') = ''/hostname/find/?env='' @ e @ ''&hostname=''"
    using assms by (auto simp: url_clean_def url_safe_def list_all_iff filter_id_conv takeWhile_eq_all_conv)
  have s: "list_all (\<lambda>c. c \<noteq> CHR ''&'' \<and> c \<noteq> CHR '';'') ?q"
    by (rule query_encode_seps) (use assms in \<open>auto simp: url_safe_def list_all_iff\<close>)
  then have m: "map (\<lambda>c. if c = CHR '';'' then CHR ''&'' else c) ?q = ?q"
    unfolding list_all_iff by (intro map_idI) auto
  have u: "QueryUnescape ?q = Some e"
    by (rule QueryUnescape_encode) (use assms in \<open>auto simp: url_safe_def list_all_iff\<close>)
  have e: "query_encode (''env='' @ e @ ''&hostname='') = ''env='' @ ?q @ ''&hostname=''"
  proof -
    have "query_encode ''env='' = ''env=''" "query_encode ''&hostname='' = ''&hostname=''"
      by (rule query_encode_plain, simp add: must_encode_def)+
    then show ?thesis by (simp only: query_encode_append)
  qed
  have "CHR ''&'' \<notin> set (''env='' @ ?q)" using s by (auto simp: list_all_iff)
  then have "split_on (CHR ''&'') ((''env='' @ ?q) @ CHR ''&'' # ''hostname='') = [''env='' @ ?q, ''hostname='']"
    by (subst split_on_append) simp_all
  then have "ParseQuery (''env='' @ ?q @ ''&hostname='') = [(''env'', e), (''hostname'', '''')]"
    by (simp add: ParseQuery_def m query_pair_def u)
  then show ?thesis
    using e unfolding request_of_def Let_def ajax_get_def ajax.simps c by simp
qed

end
