(* ===== verification/EnvUi.thy ===== *)
theory EnvUi
  imports Web
begin

text \<open>
  The environment controls: \<open>EnvForm.js\<close> (create an environment) and \<open>EnvPicker.js\<close> (choose and
  delete one). A method is a function of the component's state that returns the new state and
  its effects; the functions the parent passes as properties are \<open>CallProp\<close> effects; the
  continuation of a request is a constructor of the component's callback type, and
  \<open>*_settled\<close> is what it does with the outcome. Logging on the console is left out.
\<close>

section \<open>EnvForm.js\<close>

datatype env_form_callback = EnvCreated string

datatype env_form_handler = EnvSave | EnvCancel

text \<open>\<open>[a-z0-9\s_-]\<close> under the flag \<open>i\<close>.\<close>

definition env_name_char :: "char \<Rightarrow> bool" where
  "env_name_char c \<longleftrightarrow>
     (let n = of_char c :: nat in
      97 \<le> n \<and> n \<le> 122 \<or> 65 \<le> n \<and> n \<le> 90 \<or> 48 \<le> n \<and> n \<le> 57) \<or> js_space c \<or> c = CHR ''_'' \<or> c = CHR ''-''"

definition sanitize :: "string \<Rightarrow> string" where
  "sanitize name = js_trim (replace_runs (\<lambda>c. \<not> env_name_char c) '''' name)"

definition createEnvironment :: "string \<Rightarrow> env_form_callback effect list" where
  "createEnvironment name =
     (let sanitizedInput = sanitize name in
      if length sanitizedInput = 0
      then [notice (Some ''Ops'') ''Only letters, numbers, _ and - are allowed in environment name''
              (Some ''warning'')]
      else [Ajax (ajax_json POST ''/env/'' [(''name'', JSStr sanitizedInput)]) (EnvCreated sanitizedInput)])"

text \<open>
  The promise is resolved by the success callback, and by the error callback at status 200: an
  empty body under a JSON content type is a parse error to jQuery.
\<close>

definition resolved :: "ajax_result \<Rightarrow> bool" where
  "resolved r = (case r of AjaxDone _ \<Rightarrow> True | AjaxFail st _ \<Rightarrow> st = 200)"

definition createEnvironment_settled :: "string \<Rightarrow> ajax_result \<Rightarrow> env_form_callback effect list" where
  "createEnvironment_settled sanitizedInput r =
     (if resolved r
      then [notice None (''Environment '' @ [CHR 0x27] @ sanitizedInput @ [CHR 0x27] @ '' created successfully'')
              (Some ''success''),
            CallProp ''onCreate'' [JSStr sanitizedInput]]
      else [notice (Some ''Ops!'') ''An error ocurred'' (Some ''danger'')])"

definition EnvForm_render :: "env_form_handler vnode list" where
  "EnvForm_render =
     [Elem ''div'' [cls ''input-group'']
       [Elem ''input'' [at ''placeholder'' ''my new env...'', at ''type'' ''text'', cls ''form-control''] [],
        Elem ''div'' [cls ''input-group-append'']
          [Elem ''button''
             [at ''title'' ''Save'', cls ''btn btn-info fa fa-save'', at ''type'' ''button'', On ''onClick'' EnvSave] [],
           Elem ''button''
             [at ''title'' ''Cancel'', cls ''btn btn-dark fa fa-times'', On ''onClick'' EnvCancel,
              at ''type'' ''button''] []]]]"

text \<open>\<open>text\<close> is the value of the input the \<open>textInput\<close> reference points to.\<close>

fun EnvForm_fire :: "env_form_handler \<Rightarrow> string \<Rightarrow> env_form_callback effect list" where
  "EnvForm_fire EnvSave text = createEnvironment text"
| "EnvForm_fire EnvCancel text = [CallProp ''onCancel'' []]"

subsection \<open>Environment names\<close>

lemma sanitize_filter: "sanitize name = js_trim (filter env_name_char name)"
  by (simp add: sanitize_def replace_runs_filter)

lemma sanitize_chars: "list_all env_name_char (sanitize name)"
  using js_trim_set [of "filter env_name_char name"] by (auto simp: sanitize_filter list_all_iff)

lemma sanitize_idem: "sanitize (sanitize name) = sanitize name"
proof -
  have "filter env_name_char (sanitize name) = sanitize name"
    using sanitize_chars by (simp add: filter_id_conv list_all_iff)
  moreover have "js_trim (sanitize name) = sanitize name"
    by (rule js_trim_id) (metis js_trim_ends sanitize_filter)
  ultimately show ?thesis by (simp add: sanitize_filter)
qed

lemma env_name_char_url: "env_name_char c \<Longrightarrow> c \<notin> {CHR ''#'', CHR ''&'', CHR '';'', CHR ''+'', CHR ''%''}"
  by (auto simp: env_name_char_def js_space_def Let_def)

section \<open>EnvPicker.js\<close>

definition DEFAULT_ENV :: string where "DEFAULT_ENV = ''''"

record env_picker =
  envList :: jsv
  current :: jsv

datatype env_picker_callback = EnvListed | EnvDeleted

datatype env_picker_handler = PickerChange | PickerToggle | PickerDelete

text \<open>\<open>const { env: current = '' } = this.props\<close>.\<close>

definition EnvPicker_new :: "jsv \<Rightarrow> env_picker" where
  "EnvPicker_new env = \<lparr>envList = JSArr [], current = (if env = JSUndef then JSStr '''' else env)\<rparr>"

definition EnvPicker_reload :: "env_picker_callback effect list" where
  "EnvPicker_reload = [Ajax (ajax_get ''/env/'') EnvListed]"

definition EnvPicker_reload_settled :: "ajax_result \<Rightarrow> env_picker \<Rightarrow> env_picker" where
  "EnvPicker_reload_settled r p = (case r of AjaxDone data \<Rightarrow> p\<lparr>envList := data\<rparr> | AjaxFail _ _ \<Rightarrow> p)"

definition deleteCurrent :: "env_picker \<Rightarrow> env_picker_callback effect list" where
  "deleteCurrent p =
     (if current p = JSStr DEFAULT_ENV
      then [notice (Some ''Ops!'') ''Deleting default environment is not allowed'' (Some ''danger'')]
      else [Ajax (ajax_json DELETE ''/env/'' [(''name'', current p)]) EnvDeleted])"

text \<open>\<open>deleteEnv\<close> of \<open>render\<close>: the parent is told when the promise is resolved.\<close>

definition deleteEnv_settled :: "ajax_result \<Rightarrow> env_picker_callback effect list" where
  "deleteEnv_settled r = (if resolved r then [CallProp ''onDelete'' []] else [])"

definition EnvPicker_componentDidMount :: "env_picker_callback effect list" where
  "EnvPicker_componentDidMount = EnvPicker_reload"

definition EnvPicker_handleChanges :: "string \<Rightarrow> env_picker \<Rightarrow> env_picker \<times> env_picker_callback effect list" where
  "EnvPicker_handleChanges v p = (p\<lparr>current := JSStr v\<rparr>, [CallProp ''onChange'' [JSStr v]])"

text \<open>One option; \<open>name\<close> is destructured from the list entry and \<open>name.length\<close> is read.\<close>

definition env_option :: "jsv \<Rightarrow> (js_error, 'h vnode) result" where
  "env_option entry =
     bind_result (js_member entry ''name'') (\<lambda>name.
     bind_result (js_member name ''length'') (\<lambda>len.
     bind_result (child (if js_truthy len then name else JSStr ''Default'')) (\<lambda>label.
     Inr (Elem ''option'' [Attr ''key'' name, Attr ''value'' name] label))))"

definition env_options :: "jsv \<Rightarrow> (js_error, 'h vnode list) result" where
  "env_options l = (case l of JSArr es \<Rightarrow> map_result env_option es | _ \<Rightarrow> Inl (TypeError ''map''))"

definition EnvPicker_render :: "env_picker \<Rightarrow> (js_error, env_picker_handler vnode list) result" where
  "EnvPicker_render p =
     bind_result (env_options (envList p)) (\<lambda>opts. Inr
       [Elem ''div'' [cls ''input-group'']
         [Elem ''select''
            [cls ''form-control'', On ''onChange'' PickerChange, Attr ''value'' (current p), at ''name'' ''env''] opts,
          Elem ''div'' [cls ''input-group-append'']
            [Elem ''button''
               [at ''title'' ''Create new env'', On ''onClick'' PickerToggle, cls ''btn btn-info'', at ''type'' ''button'']
               [Elem ''span'' [cls ''fa fa-plus-circle''] []],
             Elem ''button''
               [at ''title'' ''Delete selected env'', On ''onClick'' PickerDelete, cls ''btn btn-danger'',
                at ''type'' ''button'']
               [Elem ''span'' [cls ''fa fa-trash-alt''] []]]]])"

text \<open>\<open>v\<close> is \<open>options[selectedIndex].value\<close> for a change of the selection.\<close>

fun EnvPicker_fire ::
  "env_picker_handler \<Rightarrow> string \<Rightarrow> env_picker \<Rightarrow> env_picker \<times> env_picker_callback effect list" where
  "EnvPicker_fire PickerChange v p = EnvPicker_handleChanges v p"
| "EnvPicker_fire PickerToggle v p = (p, [CallProp ''onToggle'' []])"
| "EnvPicker_fire PickerDelete v p = (p, deleteCurrent p)"

subsection \<open>Rendering\<close>

text \<open>\<open>env_entries l\<close>: a list of objects with a textual name, as the server answers.\<close>

definition env_entry :: "jsv \<Rightarrow> bool" where
  "env_entry v = (case v of JSObj ob \<Rightarrow> (case js_get ob ''name'' of JSStr _ \<Rightarrow> True | _ \<Rightarrow> False) | _ \<Rightarrow> False)"

definition env_entries :: "jsv \<Rightarrow> bool" where
  "env_entries v = (case v of JSArr es \<Rightarrow> list_all env_entry es | _ \<Rightarrow> False)"

lemma env_option_entry: "env_entry v \<Longrightarrow> \<exists>t. env_option v = Inr t"
  by (auto simp: env_entry_def env_option_def split: jsv.splits)

lemma EnvPicker_render_ok:
  assumes "env_entries (envList p)"
  shows "\<exists>t. EnvPicker_render p = Inr t"
proof -
  from assms obtain es where es: "envList p = JSArr es" "list_all env_entry es"
    by (auto simp: env_entries_def split: jsv.splits)
  then have "\<exists>ts. map_result env_option es = (Inr ts :: (js_error, env_picker_handler vnode list) result)"
    by (intro map_result_exists env_option_entry) (simp add: list_all_iff)
  then show ?thesis by (auto simp: EnvPicker_render_def env_options_def es)
qed

section \<open>Properties\<close>

text \<open>
  The form for a new environment asks the server exactly when the typed text holds a character that
  is allowed and no white space. The name it sends holds allowed characters only, has no white space at
  its ends, and would be sent unchanged if it were typed; in every other case nothing is sent and the
  page says what is allowed.
\<close>

lemma create_env_name:
  "if list_ex (\<lambda>c. env_name_char c \<and> \<not> js_space c) name
   then createEnvironment name =
       [Ajax (ajax_json POST ''/env/'' [(''name'', JSStr (sanitize name))]) (EnvCreated (sanitize name))] \<and>
     sanitize name \<noteq> '''' \<and> list_all env_name_char (sanitize name) \<and>
     \<not> js_space (hd (sanitize name)) \<and> \<not> js_space (last (sanitize name)) \<and>
     createEnvironment (sanitize name) = createEnvironment name
   else createEnvironment name =
       [notice (Some ''Ops'') ''Only letters, numbers, _ and - are allowed in environment name'' (Some ''warning'')]"
proof -
  let ?n = "sanitize name"
  have nil: "?n = '''' \<longleftrightarrow> \<not> list_ex (\<lambda>c. env_name_char c \<and> \<not> js_space c) name"
    by (auto simp: sanitize_filter js_trim_Nil_iff list_all_iff list_ex_iff)
  moreover have "\<not> js_space (hd ?n) \<and> \<not> js_space (last ?n)" if "?n \<noteq> ''''"
    using js_trim_ends that unfolding sanitize_filter by blast
  ultimately show ?thesis
    by (simp add: createEnvironment_def Let_def sanitize_idem sanitize_chars)
qed

end
