(* ===== verification/RecordForm.thy ===== *)
theory RecordForm
  imports Web
begin

text \<open>
  \<open>RecordForm.js\<close>: the form that creates a record. \<open>fm_form\<close> is the object \<open>this.state.form\<close>,
  which the handlers mutate in place and set again.
\<close>

section \<open>State and handlers\<close>

record record_form =
  fm_form :: jsobj
  showIp :: bool
  showTarget :: bool
  valueField :: jsv

datatype record_form_callback = RecordSaved

datatype record_form_handler = FormSubmit | FormChange | FormIp | FormType | FormNumber

definition RecordForm_new :: record_form where
  "RecordForm_new =
     \<lparr>fm_form = [(''hostname'', JSStr ''mywebsite.acme.com''), (''ip'', JSStr ''192.168.0.1''),
                (''target'', JSStr ''acme.com''), (''type'', JSStr ''A''), (''ttl'', JSNum (JInt 60))],
      showIp = True, showTarget = False, valueField = JSObj []\<rparr>"

definition shouldComponentUpdate :: "jsv \<Rightarrow> record_form \<Rightarrow> bool" where
  "shouldComponentUpdate nextEnv nextState \<longleftrightarrow> nextEnv \<noteq> js_get (fm_form nextState) ''env''"

definition processValueLabel :: "jsv \<Rightarrow> record_form \<Rightarrow> record_form" where
  "processValueLabel k f =
     f\<lparr>valueField :=
       (if k = JSStr ''A'' then JSObj [(''label'', JSStr ''IP *''), (''field'', JSStr ''ip'')]
        else if k = JSStr ''CNAME'' then JSObj [(''label'', JSStr ''CNAME *''), (''field'', JSStr ''target'')]
        else JSUndef)\<rparr>"

definition RecordForm_componentDidMount :: "record_form \<Rightarrow> record_form" where
  "RecordForm_componentDidMount f = processValueLabel (js_get (fm_form f) ''type'') f"

definition parse_ip_text :: "string \<Rightarrow> jsv" where
  "parse_ip_text s = JSArr (map (\<lambda>it. JSNum (js_parseInt it)) (split_on (CHR ''.'') s))"

definition form_handleIp :: "event \<Rightarrow> record_form \<Rightarrow> record_form" where
  "form_handleIp e f = f\<lparr>fm_form := js_set (fm_form f) (ev_name e) (parse_ip_text (ev_value e))\<rparr>"

definition form_handleChange :: "event \<Rightarrow> record_form \<Rightarrow> record_form" where
  "form_handleChange e f = f\<lparr>fm_form := js_set (fm_form f) (ev_name e) (JSStr (ev_value e))\<rparr>"

definition form_handleNumberChange :: "event \<Rightarrow> record_form \<Rightarrow> record_form" where
  "form_handleNumberChange e f =
     f\<lparr>fm_form := js_set (fm_form f) (ev_name e) (JSNum (js_parseInt (ev_value e)))\<rparr>"

definition form_handleType :: "event \<Rightarrow> record_form \<Rightarrow> record_form" where
  "form_handleType e f =
     (let isA = (ev_value e = ''A'') in
      f\<lparr>fm_form := js_set (fm_form f) (ev_name e) (JSStr (ev_value e)),
        showIp := isA, showTarget := \<not> isA\<rparr>)"

text \<open>\<open>{...this.state.form, env: this.props.env}\<close>.\<close>

definition form_body :: "jsv \<Rightarrow> record_form \<Rightarrow> jsobj" where
  "form_body env f = js_set (fm_form f) ''env'' env"

definition handleSubmit :: "jsv \<Rightarrow> record_form \<Rightarrow> record_form_callback effect list" where
  "handleSubmit env f = [Ajax (ajax_json POST ''/hostname/'' (form_body env f)) RecordSaved]"

definition handleSubmit_settled :: "ajax_result \<Rightarrow> record_form_callback effect list" where
  "handleSubmit_settled r =
     (case r of
        AjaxDone _ \<Rightarrow> [notice None ''Saved'' None, CallProp ''onUpdate'' []]
      | AjaxFail st body \<Rightarrow>
          if st < 500 then
            (case bind_result (parse_payload body) (\<lambda>v. js_member v ''message'') of
               Inl e \<Rightarrow> [Throw e]
             | Inr m \<Rightarrow> [Notify \<lparr>n_title = None, n_message = MsgVal m, n_type = Some ''danger''\<rparr>])
          else [Notify \<lparr>n_title = None, n_message = MsgResponse body, n_type = Some ''danger''\<rparr>])"

section \<open>Rendering\<close>

definition asterisk :: "'h vnode" where
  "asterisk = Elem ''span'' [cls ''asteriskField''] [Txt ''*'']"

text \<open>The pattern of the address field; \<open>0x5C\<close> is the backslash.\<close>

definition ip_pattern :: string where
  "ip_pattern =
     (let d = ''[0-9]+''; dot = [CHR 0x5C, CHR ''.''] in d @ dot @ d @ dot @ d @ dot @ d)"

definition form_head :: "record_form \<Rightarrow> record_form_handler vnode list" where
  "form_head f =
     [Elem ''colgroup'' []
        [Elem ''col'' [at ''width'' ''50%''] [],
         Elem ''col'' [at ''width'' ''14.5%''] [],
         Elem ''col'' [at ''width'' ''14.5%''] [],
         Elem ''col'' [at ''width'' ''9%'', Attr ''style'' (JSObj [(''textAlign'', JSStr ''right'')])] [],
         Elem ''col'' [at ''width'' ''7.5%''] []],
      Elem ''thead'' [cls ''thead-dark'']
        [Elem ''tr'' []
           [Elem ''th'' []
              [Elem ''label'' [cls ''control-label '', at ''htmlFor'' ''hostname''] [Txt ''Hostname'', asterisk]],
            Elem ''th'' []
              (shown (showIp f)
                 (Elem ''label'' [cls ''control-label requiredField'', at ''htmlFor'' ''ip''] [Txt ''IP'', asterisk])
               @ shown (showTarget f)
                 (Elem ''label'' [cls ''control-label requiredField'', at ''htmlFor'' ''target'', flag ''required'']
                    [Txt ''Target'', asterisk])),
            Elem ''th'' [] [Elem ''label'' [cls ''control-label''] [Txt ''Type'', asterisk]],
            Elem ''th'' []
              [Elem ''label'' [cls ''control-label requiredField'', at ''htmlFor'' ''ttl''] [Txt ''TTL'', asterisk]],
            Elem ''th'' [] [Txt ''Actions'']]]]"

definition form_fields :: "record_form \<Rightarrow> record_form_handler vnode list" where
  "form_fields f =
     [Elem ''td'' []
        [Elem ''input''
           [cls ''form-control'', at ''id'' ''hostname'', at ''name'' ''hostname'', On ''onChange'' FormChange,
            Attr ''value'' (js_get (fm_form f) ''hostname''), at ''type'' ''text'', flag ''required''] []],
      Elem ''td'' []
        (shown (showIp f)
           (Elem ''input''
              [cls ''form-control'', at ''pattern'' ip_pattern,
               at ''title'' ''Please provide a valid IP'', at ''name'' ''ip'', at ''id'' ''ip'',
               On ''onChange'' FormIp, flag ''required''] [])
         @ shown (showTarget f)
           (Elem ''input''
              [cls ''form-control'', at ''name'' ''target'', at ''id'' ''target'', On ''onChange'' FormChange] [])),
      Elem ''td'' []
        [Elem ''select''
           [at ''name'' ''type'', On ''onChange'' FormType, cls ''form-control'', at ''type'' ''text'']
           [Elem ''option'' [at ''value'' ''A''] [Txt ''A''],
            Elem ''option'' [at ''value'' ''CNAME''] [Txt ''CNAME'']]],
      Elem ''td'' []
        [Elem ''input''
           [On ''onChange'' FormNumber, cls ''form-control'', Attr ''value'' (js_get (fm_form f) ''ttl''),
            at ''id'' ''ttl'', at ''name'' ''ttl'', at ''type'' ''number'', at ''size'' ''3'', at ''min'' ''1'',
            flag ''required''] []],
      Elem ''td'' [cls ''text-center'']
        [Elem ''button'' [at ''type'' ''submit'', cls ''btn btn-info''] [Elem ''span'' [cls ''fa fa-save''] []]]]"

definition RecordForm_render :: "record_form \<Rightarrow> record_form_handler vnode list" where
  "RecordForm_render f =
     [Elem ''form'' [On ''onSubmit'' FormSubmit]
        [Elem ''table'' [cls ''table table-bordered table-hover table-condensed '']
           (form_head f @ [Elem ''tbody'' [] [Elem ''tr'' [] (form_fields f)]])]]"

fun RecordForm_fire ::
  "jsv \<Rightarrow> record_form_handler \<Rightarrow> event \<Rightarrow> record_form \<Rightarrow> record_form \<times> record_form_callback effect list" where
  "RecordForm_fire env FormSubmit e f = (f, handleSubmit env f)"
| "RecordForm_fire env FormChange e f = (form_handleChange e f, [])"
| "RecordForm_fire env FormIp e f = (form_handleIp e f, [])"
| "RecordForm_fire env FormType e f = (form_handleType e f, [])"
| "RecordForm_fire env FormNumber e f = (form_handleNumberChange e f, [])"

section \<open>The form between events\<close>

lemma asterisk_handlers [js_simps]: "handlers [asterisk] = []"
  by (simp add: asterisk_def js_simps)

lemma form_head_handlers: "handlers (form_head f) = []"
  by (simp add: form_head_def js_simps)

lemma form_fields_handlers:
  "handlers (form_fields f) =
     (''onChange'', ''hostname'', FormChange) #
     (if showIp f then [(''onChange'', ''ip'', FormIp)] else []) @
     (if showTarget f then [(''onChange'', ''target'', FormChange)] else []) @
     [(''onChange'', ''type'', FormType), (''onChange'', ''ttl'', FormNumber)]"
  by (simp add: form_fields_def js_simps target_name_def)

lemma RecordForm_handlers:
  "handlers (RecordForm_render f) = (''onSubmit'', '''', FormSubmit) # handlers (form_fields f)"
  by (simp add: RecordForm_render_def js_simps form_head_handlers target_name_def)

text \<open>
  \<open>form_inv\<close>: the form keeps its five properties, text where the server expects text; exactly
  one of the value fields is shown, the address for type \<open>A\<close>. Having no property \<open>env\<close> of its own,
  the form lets every update through.
\<close>

definition form_inv :: "record_form \<Rightarrow> bool" where
  "form_inv f \<longleftrightarrow>
     showIp f = (js_get (fm_form f) ''type'' = JSStr ''A'') \<and> showTarget f = (\<not> showIp f) \<and>
     map fst (fm_form f) = [''hostname'', ''ip'', ''target'', ''type'', ''ttl''] \<and>
     is_str (js_get (fm_form f) ''hostname'') \<and> is_str (js_get (fm_form f) ''target'') \<and>
     is_str (js_get (fm_form f) ''type'') \<and> is_num (js_get (fm_form f) ''ttl'')"

lemma RecordForm_new_inv: "form_inv (RecordForm_componentDidMount RecordForm_new)"
  by (simp add: form_inv_def RecordForm_new_def RecordForm_componentDidMount_def processValueLabel_def js_get_def)

definition form_keys :: "string list" where
  "form_keys = [''hostname'', ''ip'', ''target'', ''type'', ''ttl'']"

lemma js_set_same_keys: "map fst ob = ks \<Longrightarrow> k \<in> set ks \<Longrightarrow> map fst (js_set ob k v) = ks"
  by (auto simp: js_set_keys)

lemma form_put:
  assumes "form_inv f" and "k \<in> set form_keys" and "k \<noteq> ''type''"
    and "k = ''hostname'' \<or> k = ''target'' \<Longrightarrow> is_str v" and "k = ''ttl'' \<Longrightarrow> is_num v"
  shows "form_inv (f\<lparr>fm_form := js_set (fm_form f) k v\<rparr>)"
proof -
  have "map fst (js_set (fm_form f) k v) = form_keys"
    using assms(1,2) by (intro js_set_same_keys) (simp_all add: form_inv_def form_keys_def)
  then show ?thesis
    using assms(1,3-5) unfolding form_inv_def form_keys_def by simp
qed

lemma form_put_type:
  assumes "form_inv f"
  shows "form_inv (f\<lparr>fm_form := js_set (fm_form f) ''type'' (JSStr v), showIp := (v = ''A''), showTarget := (v \<noteq> ''A'')\<rparr>)"
proof -
  have "map fst (js_set (fm_form f) ''type'' (JSStr v)) = form_keys"
    using assms by (intro js_set_same_keys) (simp_all add: form_inv_def form_keys_def)
  then show ?thesis
    using assms unfolding form_inv_def form_keys_def by simp
qed

lemma RecordForm_fire_inv:
  assumes "form_inv f" and "(ev, n, h) \<in> set (handlers (RecordForm_render f))" and "ev_name e = n"
  shows "form_inv (fst (RecordForm_fire env h e f))"
proof (cases h)
  case FormSubmit
  then show ?thesis using assms(1) by simp
next
  case FormChange
  then have "n = ''hostname'' \<or> n = ''target''"
    using assms(2) by (auto simp: RecordForm_handlers form_fields_handlers split: if_splits)
  then show ?thesis
    using FormChange assms(1,3) by (auto simp: form_handleChange_def form_keys_def intro!: form_put)
next
  case FormIp
  then have "n = ''ip''"
    using assms(2) by (auto simp: RecordForm_handlers form_fields_handlers split: if_splits)
  then show ?thesis using FormIp assms(1,3) by (auto simp: form_handleIp_def form_keys_def intro!: form_put)
next
  case FormType
  then have "n = ''type''"
    using assms(2) by (auto simp: RecordForm_handlers form_fields_handlers split: if_splits)
  then show ?thesis
    using FormType assms(1,3) form_put_type by (simp add: form_handleType_def Let_def)
next
  case FormNumber
  then have "n = ''ttl''"
    using assms(2) by (auto simp: RecordForm_handlers form_fields_handlers split: if_splits)
  then show ?thesis using FormNumber assms(1,3) by (auto simp: form_handleNumberChange_def form_keys_def intro!: form_put)
qed

lemma form_typed_inv:
  assumes "form_inv f"
  shows "form_inv (form_handleChange \<lparr>ev_name = ''hostname'', ev_value = v\<rparr> f)"
    and "form_inv (form_handleChange \<lparr>ev_name = ''target'', ev_value = v\<rparr> f)"
    and "form_inv (form_handleIp \<lparr>ev_name = ''ip'', ev_value = v\<rparr> f)"
    and "form_inv (form_handleNumberChange \<lparr>ev_name = ''ttl'', ev_value = v\<rparr> f)"
    and "form_inv (form_handleType \<lparr>ev_name = ''type'', ev_value = v\<rparr> f)"
  using assms form_put_type [OF assms]
  by (auto simp: form_handleChange_def form_handleIp_def form_handleNumberChange_def form_handleType_def Let_def
      form_keys_def intro!: form_put)

lemma form_inv_fields:
  assumes "form_inv f"
  shows "fm_form f = map (\<lambda>k. (k, js_get (fm_form f) k)) [''hostname'', ''ip'', ''target'', ''type'', ''ttl'']"
proof -
  have d: "ob = map (\<lambda>k. (k, js_get ob k)) ks" if "distinct ks" "map fst ob = ks" for ks and ob :: jsobj
  proof -
    have "map (\<lambda>k. (k, js_get ob k)) (map fst ob) = ob"
      unfolding list.map_comp
      by (rule map_idI) (use that in \<open>auto simp: js_get_def map_of_is_SomeI\<close>)
    with that show ?thesis by simp
  qed
  show ?thesis by (rule d) (use assms in \<open>simp_all add: form_inv_def\<close>)
qed

lemma form_inv_updates: "form_inv f \<Longrightarrow> is_str env \<Longrightarrow> shouldComponentUpdate env f"
proof -
  assume "form_inv f" "is_str env"
  then have "js_get (fm_form f) ''env'' = JSUndef" by (subst form_inv_fields) (simp_all add: js_get_def)
  with \<open>is_str env\<close> show ?thesis by (auto simp: shouldComponentUpdate_def)
qed

text \<open>The value sent for a field is the one its handler stored.\<close>

lemma form_body_get: "k \<noteq> ''env'' \<Longrightarrow> js_get (form_body env f) k = js_get (fm_form f) k"
  by (simp add: form_body_def)

section \<open>Addresses typed into the form\<close>

definition num_ip :: "nat list \<Rightarrow> jsv list" where
  "num_ip ns = map (\<lambda>n. JSNum (JInt (int n))) ns"

definition js_octets :: "jsv list \<Rightarrow> nat list" where
  "js_octets xs = map (\<lambda>v. case v of JSNum (JInt i) \<Rightarrow> nat i | _ \<Rightarrow> 0) xs"

definition js_quad :: "jsv list \<Rightarrow> bool" where
  "js_quad xs \<longleftrightarrow> (\<exists>ns. quad ns \<and> xs = num_ip ns)"

lemma js_octets_num_ip [simp]: "js_octets (num_ip ns) = ns"
  by (simp add: js_octets_def num_ip_def o_def)

lemma js_show_small: "n < 256 \<Longrightarrow> js_show_num (JInt (int n)) = show_nat n"
  by (simp add: js_show_nat_def)

lemma join_num_ip: "quad ns \<Longrightarrow> js_join_dot (num_ip ns) = dotted ns"
  by (auto simp: js_join_dot_def num_ip_def dotted_def quad_def list_all_iff o_def js_show_small
      simp del: js_show_num.simps intro!: arg_cong [where f = "join_with _"])

lemma parse_num_ip_exact:
  assumes "ns \<noteq> []" and "list_all (\<lambda>n. n \<le> 2 ^ 53) ns"
  shows "map (\<lambda>it. JSNum (js_parseInt it)) (split_on (CHR ''.'') (dotted ns)) = num_ip ns"
  using assms by (auto simp: split_dotted num_ip_def list_all_iff js_parseInt_show_nat js_num_exact)

lemma parse_num_ip: "quad ns \<Longrightarrow> map (\<lambda>it. JSNum (js_parseInt it)) (split_on (CHR ''.'') (dotted ns)) = num_ip ns"
  by (rule parse_num_ip_exact) (auto simp: quad_def list_all_iff)

lemma parse_ip_text_exact:
  "ns \<noteq> [] \<Longrightarrow> list_all (\<lambda>n. n \<le> 2 ^ 53) ns \<Longrightarrow> parse_ip_text (dotted ns) = JSArr (num_ip ns)"
  by (simp add: parse_ip_text_def parse_num_ip_exact)

lemma parse_ip_text_dotted: "quad ns \<Longrightarrow> parse_ip_text (dotted ns) = JSArr (num_ip ns)"
  by (simp add: parse_ip_text_def parse_num_ip)

lemma js_quad_laws:
  "js_quad a \<Longrightarrow> quad (js_octets a)"
  "js_quad a \<Longrightarrow> js_quad b \<Longrightarrow> js_octets a = js_octets b \<Longrightarrow> a = b"
  "js_quad a \<Longrightarrow> js_join_dot a = dotted (js_octets a)"
  "quad ns \<Longrightarrow> js_quad (num_ip ns)"
  by (auto simp: js_quad_def join_num_ip)

text \<open>What \<open>join\<close> prints, \<open>split\<close> and \<open>parseInt\<close> read back.\<close>

interpretation formip: dotted_quad js_join_dot
  "\<lambda>s. Inr (map (\<lambda>it. JSNum (js_parseInt it)) (split_on (CHR ''.'') s)) :: (js_error, jsv list) result"
  js_octets js_quad
  by unfold_locales (simp_all add: js_quad_laws parse_num_ip)

end
