(* ===== verification/RecordTable.thy ===== *)
theory RecordTable
  imports RecordForm
begin

text \<open>
  \<open>RecordTable.js\<close>: the records of the active environment, with editing in place. The handlers
  mutate the row objects that \<open>state.table\<close> and the closures in the rendered tree share, so
  rows live in a heap and are named by their address; an answer of the server allocates fresh
  ones.
\<close>

section \<open>State\<close>

datatype table_value = Rows "nat list" | Other jsv

record record_table =
  tb_heap :: "jsobj list"
  tb_table :: table_value
  someText :: jsv

datatype record_table_callback = TableLoaded | RowUpdated | RowDeleted nat

datatype record_table_handler =
    RowSwap nat | RowUpdate nat | RowDelete nat
  | RowChange nat | RowNumber nat | RowIp nat | RowTarget nat

definition RecordTable_new :: record_table where
  "RecordTable_new = \<lparr>tb_heap = [], tb_table = Rows [], someText = JSUndef\<rparr>"

text \<open>An address outside the heap never occurs; reading one gives an object with no property.\<close>

definition row_at :: "record_table \<Rightarrow> nat \<Rightarrow> jsobj" where
  "row_at t a = (if a < length (tb_heap t) then tb_heap t ! a else [])"

definition row_set :: "nat \<Rightarrow> string \<Rightarrow> jsv \<Rightarrow> record_table \<Rightarrow> record_table" where
  "row_set a k v t = t\<lparr>tb_heap := (tb_heap t)[a := js_set (row_at t a) k v]\<rparr>"

fun as_objects :: "jsv list \<Rightarrow> jsobj list option" where
  "as_objects [] = Some []"
| "as_objects (JSObj ob # vs) = map_option ((#) ob) (as_objects vs)"
| "as_objects (_ # vs) = None"

definition table_of :: "jsv \<Rightarrow> record_table \<Rightarrow> record_table" where
  "table_of data t =
     (case data of
        JSArr vs \<Rightarrow>
          (case as_objects vs of
             Some obs \<Rightarrow> t\<lparr>tb_heap := tb_heap t @ obs,
                           tb_table := Rows [length (tb_heap t)..<length (tb_heap t) + length obs]\<rparr>
           | None \<Rightarrow> t\<lparr>tb_table := Other data\<rparr>)
      | _ \<Rightarrow> t\<lparr>tb_table := Other data\<rparr>)"

section \<open>Methods\<close>

definition reloadTable :: "jsv \<Rightarrow> record_table_callback effect list" where
  "reloadTable env =
     [Ajax (ajax_get (''/hostname/find/?env='' @ js_to_string env @ ''&hostname='')) TableLoaded]"

definition reloadTable_settled :: "ajax_result \<Rightarrow> record_table \<Rightarrow> record_table" where
  "reloadTable_settled r t = (case r of AjaxDone data \<Rightarrow> table_of data t | AjaxFail _ _ \<Rightarrow> t)"

definition RecordTable_componentDidMount :: "jsv \<Rightarrow> record_table_callback effect list" where
  "RecordTable_componentDidMount env = reloadTable env"

definition swapEditionMode :: "nat \<Rightarrow> record_table \<Rightarrow> record_table" where
  "swapEditionMode a t =
     (row_set a ''editing'' (JSBool (\<not> js_truthy (js_get (row_at t a) ''editing''))) t)\<lparr>someText := JSStr ''hi''\<rparr>"

definition updateRecord :: "jsv \<Rightarrow> nat \<Rightarrow> record_table \<Rightarrow> record_table \<times> record_table_callback effect list" where
  "updateRecord env a t =
     (let t' = swapEditionMode a t; row = row_at t' a in
      (t', [Ajax (ajax_json PUT ''/hostname''
              [(''env'', env), (''id'', js_get row ''id''), (''type'', js_get row ''type''),
               (''hostname'', js_get row ''hostname''), (''ip'', js_get row ''ip''),
               (''target'', js_get row ''target''), (''ttl'', js_get row ''ttl'')]) RowUpdated]))"

definition updateRecord_settled :: "ajax_result \<Rightarrow> record_table_callback effect list" where
  "updateRecord_settled r =
     (case r of
        AjaxDone _ \<Rightarrow> [notice None ''Saved'' None]
      | AjaxFail _ body \<Rightarrow> [Notify \<lparr>n_title = None, n_message = MsgResponse body, n_type = Some ''danger''\<rparr>])"

definition deleteRecord :: "jsv \<Rightarrow> nat \<Rightarrow> record_table \<Rightarrow> record_table_callback effect list" where
  "deleteRecord env a t =
     [Ajax (ajax_json DELETE ''/hostname'' [(''env'', env), (''hostname'', js_get (row_at t a) ''hostname'')])
        (RowDeleted a)]"

text \<open>The hostname in the message and the environment are read when the answer arrives.\<close>

definition deleteRecord_settled :: "jsv \<Rightarrow> nat \<Rightarrow> ajax_result \<Rightarrow> record_table \<Rightarrow> record_table_callback effect list" where
  "deleteRecord_settled env a r t =
     (case r of
        AjaxDone _ \<Rightarrow>
          notice None (''Removed: '' @ js_to_string (js_get (row_at t a) ''hostname'')) None # reloadTable env
      | AjaxFail _ body \<Rightarrow> [Notify \<lparr>n_title = None, n_message = MsgResponse body, n_type = Some ''danger''\<rparr>])"

text \<open>\<open>ip.join('.')\<close>: only an array has the method.\<close>

definition formatIp :: "jsv \<Rightarrow> (js_error, string) result" where
  "formatIp ip = (case ip of JSArr xs \<Rightarrow> Inr (js_join_dot xs) | _ \<Rightarrow> Inl (TypeError ''join''))"

definition row_handleChange :: "event \<Rightarrow> nat \<Rightarrow> record_table \<Rightarrow> record_table" where
  "row_handleChange e a t = row_set a (ev_name e) (JSStr (ev_value e)) t"

definition row_handleNumberChange :: "event \<Rightarrow> nat \<Rightarrow> record_table \<Rightarrow> record_table" where
  "row_handleNumberChange e a t = row_set a (ev_name e) (JSNum (js_parseInt (ev_value e))) t"

definition parse_row_ip :: "string \<Rightarrow> jsv list" where
  "parse_row_ip s = map (\<lambda>it. if it \<noteq> '''' then JSNum (js_parseInt it) else JSStr '''') (split_on (CHR ''.'') s)"

definition handleIpChange :: "event \<Rightarrow> nat \<Rightarrow> record_table \<Rightarrow> record_table" where
  "handleIpChange e a t = row_set a (ev_name e) (JSArr (parse_row_ip (ev_value e))) t"

definition handleTargetChange :: "event \<Rightarrow> nat \<Rightarrow> record_table \<Rightarrow> record_table" where
  "handleTargetChange e a t = row_set a (ev_name e) (JSStr (ev_value e)) t"

section \<open>Rendering\<close>

definition cell :: "record_table_handler attr list \<Rightarrow> jsv \<Rightarrow> (js_error, record_table_handler vnode) result" where
  "cell as v = bind_result (child v) (\<lambda>ts. Inr (Elem ''td'' as ts))"

definition isA :: "jsv \<Rightarrow> bool" where
  "isA ty \<longleftrightarrow> \<not> js_truthy ty \<or> ty = JSStr ''A''"

definition renderLineView :: "nat \<Rightarrow> jsobj \<Rightarrow> nat \<Rightarrow> (js_error, record_table_handler vnode) result" where
  "renderLineView a v k =
     bind_result (if isA (js_get v ''type'')
                  then bind_result (formatIp (js_get v ''ip'')) (\<lambda>s. Inr [Elem ''td'' [] [Txt s]]) else Inr []) (\<lambda>ip.
     bind_result (cell [] (js_get v ''hostname'')) (\<lambda>host.
     bind_result (cell [cls ''text-center''] (js_get v ''type'')) (\<lambda>ty.
     bind_result (if js_get v ''type'' = JSStr ''CNAME''
                  then bind_result (cell [] (js_get v ''target'')) (\<lambda>x. Inr [x]) else Inr []) (\<lambda>target.
     bind_result (cell [cls ''text-right''] (js_get v ''ttl'')) (\<lambda>ttl.
     Inr (Elem ''tr'' [Attr ''key'' (JSNum (JInt (int k)))]
       ([host, ty] @ ip @ target @
        [ttl,
         Elem ''td'' [cls ''text-center records-actions'']
           [Elem ''div'' [cls ''btn-group'']
              [Elem ''button'' [cls ''btn btn-info fa fa-pencil-alt'', On ''onClick'' (RowSwap a)] [],
               Elem ''button'' [cls ''btn btn-danger fa fa-trash-alt'', On ''onClick'' (RowDelete a)] []]]])))))))"

definition renderLineEditing :: "nat \<Rightarrow> jsobj \<Rightarrow> nat \<Rightarrow> (js_error, record_table_handler vnode) result" where
  "renderLineEditing a v k =
     bind_result (if isA (js_get v ''type'')
                  then bind_result (formatIp (js_get v ''ip'')) (\<lambda>s. Inr
                    [Elem ''td'' []
                       [Elem ''input''
                          [cls ''form-control'', at ''name'' ''ip'', at ''type'' ''text'',
                           On ''onChange'' (RowIp a), at ''value'' s] []]]) else Inr []) (\<lambda>ip.
     Inr (Elem ''tr'' [Attr ''key'' (JSNum (JInt (int k)))]
       ([Elem ''td'' []
           [Elem ''input''
              [cls ''form-control'', at ''name'' ''hostname'', On ''onChange'' (RowChange a),
               Attr ''value'' (js_get v ''hostname'')] []],
         Elem ''td'' [cls ''text-center'']
           [Elem ''select''
              [at ''name'' ''type'', On ''onChange'' (RowChange a), Attr ''value'' (js_get v ''type''),
               cls ''form-control'']
              [Elem ''option'' [at ''value'' ''A''] [Txt ''A''],
               Elem ''option'' [at ''value'' ''CNAME''] [Txt ''CNAME'']]]]
        @ ip
        @ shown (js_get v ''type'' = JSStr ''CNAME'')
            (Elem ''td'' []
               [Elem ''input''
                  [cls ''form-control'', at ''name'' ''target'', at ''type'' ''text'',
                   On ''onChange'' (RowTarget a), Attr ''value'' (js_get v ''target'')] []])
        @ [Elem ''td'' [cls ''text-right'']
             [Elem ''input''
                [cls ''form-control'', at ''name'' ''ttl'', at ''type'' ''number'',
                 On ''onChange'' (RowNumber a), Attr ''value'' (js_get v ''ttl'')] []],
           Elem ''td'' [cls ''text-center records-actions'']
             [Elem ''div'' [cls ''btn-group'']
                [Elem ''button'' [cls ''btn btn-primary fa fa-save'', On ''onClick'' (RowUpdate a)] [],
                 Elem ''button'' [cls ''btn btn-danger fa fa-times'', On ''onClick'' (RowSwap a)] []]]])))"

definition render_line :: "record_table \<Rightarrow> nat \<times> nat \<Rightarrow> (js_error, record_table_handler vnode) result" where
  "render_line t ka =
     (let (k, a) = ka; v = row_at t a in
      if js_truthy (js_get v ''editing'') then renderLineEditing a v k else renderLineView a v k)"

definition table_head :: "record_table_handler vnode list" where
  "table_head =
     [Elem ''colgroup'' []
        [Elem ''col'' [at ''width'' ''45%''] [], Elem ''col'' [at ''width'' ''15%''] [],
         Elem ''col'' [at ''width'' ''15%''] [], Elem ''col'' [at ''width'' ''10%''] [],
         Elem ''col'' [at ''width'' ''10%''] []],
      Elem ''thead'' [cls ''thead-dark'']
        [Elem ''tr'' []
           [Elem ''th'' [] [Txt ''Hostname''], Elem ''th'' [cls ''text-center''] [Txt ''Type''],
            Elem ''th'' [] [Txt ''Value''], Elem ''th'' [] [Txt ''TTL''],
            Elem ''th'' [cls ''text-center''] [Txt ''Actions'']]]]"

text \<open>
  \<open>state.table\<close> that is not an array of objects: no \<open>length\<close> renders nothing; a non-empty string
  or an object with a length has no \<open>map\<close>; an array with an entry that is not an object fails at
  that entry, on \<open>null.editing\<close> or in \<open>formatIp(undefined)\<close>.
\<close>

definition RecordTable_render :: "record_table \<Rightarrow> (js_error, record_table_handler vnode list) result" where
  "RecordTable_render t =
     (case tb_table t of
        Other v \<Rightarrow>
          bind_result (js_member v ''length'') (\<lambda>n. if js_truthy n then Inl (TypeError ''map'') else Inr [])
      | Rows as \<Rightarrow>
          if length as = 0 then Inr []
          else
            bind_result (map_result (render_line t) (enumerate 0 as)) (\<lambda>trs. Inr
              [Elem ''div'' []
                 [Elem ''h3'' [] [Txt ''Records''],
                  Elem ''table''
                    [cls ''table table-bordered table-hover table-condensed editable-table demoTable table-hostnames'']
                    (table_head @ [Elem ''tbody'' [] trs])]]))"

fun RecordTable_fire ::
  "jsv \<Rightarrow> record_table_handler \<Rightarrow> event \<Rightarrow> record_table \<Rightarrow> record_table \<times> record_table_callback effect list" where
  "RecordTable_fire env (RowSwap a) e t = (swapEditionMode a t, [])"
| "RecordTable_fire env (RowUpdate a) e t = updateRecord env a t"
| "RecordTable_fire env (RowDelete a) e t = (t, deleteRecord env a t)"
| "RecordTable_fire env (RowChange a) e t = (row_handleChange e a t, [])"
| "RecordTable_fire env (RowNumber a) e t = (row_handleNumberChange e a t, [])"
| "RecordTable_fire env (RowIp a) e t = (handleIpChange e a t, [])"
| "RecordTable_fire env (RowTarget a) e t = (handleTargetChange e a t, [])"

section \<open>Rows\<close>

lemma row_at_set [simp]:
  "a < length (tb_heap t) \<Longrightarrow> row_at (row_set a k v t) b = (if b = a then js_set (row_at t a) k v else row_at t b)"
  by (auto simp: row_at_def row_set_def)

lemma row_set_frame [simp]:
  "length (tb_heap (row_set a k v t)) = length (tb_heap t)" "tb_table (row_set a k v t) = tb_table t"
  "someText (row_set a k v t) = someText t"
  by (simp_all add: row_set_def)

lemma row_at_someText [simp]: "row_at (t\<lparr>someText := x\<rparr>) a = row_at t a"
  by (simp add: row_at_def)

lemma row_at_swap [simp]:
  "a < length (tb_heap t) \<Longrightarrow> row_at (swapEditionMode a t) b =
     (if b = a then js_set (row_at t a) ''editing'' (JSBool (\<not> js_truthy (js_get (row_at t a) ''editing'')))
      else row_at t b)"
  by (simp add: swapEditionMode_def)

lemma swap_frame [simp]:
  "length (tb_heap (swapEditionMode a t)) = length (tb_heap t)" "tb_table (swapEditionMode a t) = tb_table t"
  by (simp_all add: swapEditionMode_def)

lemma as_objects_map [simp]: "as_objects (map JSObj obs) = Some obs"
  by (induction obs) auto

text \<open>
  \<open>row_ok\<close>: the fields have the shapes in which \<open>render\<close> can print them. \<open>table_inv\<close>: the table
  lists rows of the heap, and all of them are such rows.
\<close>

definition row_ok :: "jsobj \<Rightarrow> bool" where
  "row_ok v \<longleftrightarrow> is_str (js_get v ''hostname'') \<and> is_str (js_get v ''type'') \<and> is_arr (js_get v ''ip'') \<and>
     is_str (js_get v ''target'') \<and> is_num (js_get v ''ttl'')"

definition table_inv :: "record_table \<Rightarrow> bool" where
  "table_inv t \<longleftrightarrow>
     (case tb_table t of Rows as \<Rightarrow> list_all (\<lambda>a. a < length (tb_heap t)) as | Other _ \<Rightarrow> False) \<and>
     list_all row_ok (tb_heap t)"

lemma table_inv_Rows: "table_inv t \<Longrightarrow> \<exists>as. tb_table t = Rows as \<and> (\<forall>a \<in> set as. a < length (tb_heap t))"
  by (auto simp: table_inv_def list_all_iff split: table_value.splits)

lemma RecordTable_new_inv: "table_inv RecordTable_new"
  by (simp add: table_inv_def RecordTable_new_def)

lemma table_inv_row: "table_inv t \<Longrightarrow> a < length (tb_heap t) \<Longrightarrow> row_ok (row_at t a)"
  by (simp add: table_inv_def row_at_def list_all_length)

lemma table_inv_row_set:
  assumes "table_inv t" and "a < length (tb_heap t) \<Longrightarrow> row_ok (row_at t a) \<Longrightarrow> row_ok (js_set (row_at t a) k v)"
  shows "table_inv (row_set a k v t)"
proof (cases "a < length (tb_heap t)")
  case True
  then have "row_ok (js_set (row_at t a) k v)" using assms table_inv_row by blast
  then have "list_all row_ok ((tb_heap t)[a := js_set (row_at t a) k v])"
    using assms(1) by (auto simp: table_inv_def list_all_iff dest!: subsetD [OF set_update_subset_insert])
  then show ?thesis using assms(1) by (simp add: table_inv_def row_set_def split: table_value.splits)
next
  case False
  then show ?thesis using assms(1) by (simp add: row_set_def list_update_beyond)
qed

lemma table_inv_swap: "table_inv t \<Longrightarrow> table_inv (swapEditionMode a t)"
proof -
  have "table_inv (t\<lparr>someText := x\<rparr>) = table_inv t" for t x
    by (simp add: table_inv_def split: table_value.splits)
  then show "table_inv t \<Longrightarrow> ?thesis"
    unfolding swapEditionMode_def by (simp, intro table_inv_row_set) (auto simp: row_ok_def)
qed

lemma table_of_objects: "table_of (JSArr (map JSObj obs)) t =
    t\<lparr>tb_heap := tb_heap t @ obs, tb_table := Rows [length (tb_heap t)..<length (tb_heap t) + length obs]\<rparr>"
  by (simp add: table_of_def)

lemma table_inv_table_of: "table_inv t \<Longrightarrow> list_all row_ok obs \<Longrightarrow> table_inv (table_of (JSArr (map JSObj obs)) t)"
  by (auto simp: table_of_objects table_inv_def list_all_iff)

text \<open>A table loaded from the server shows the rows of the answer, in order.\<close>

definition shown_rows :: "record_table \<Rightarrow> jsobj list" where
  "shown_rows t = (case tb_table t of Rows as \<Rightarrow> map (row_at t) as | Other _ \<Rightarrow> [])"

lemma shown_rows_table_of: "shown_rows (table_of (JSArr (map JSObj obs)) t) = obs"
  by (auto simp: shown_rows_def table_of_objects row_at_def intro!: nth_equalityI)

section \<open>A table that satisfies the invariant renders\<close>

lemma cell_ok: "is_str v \<or> is_num v \<Longrightarrow> \<exists>s. cell as v = Inr (Elem ''td'' as [Txt s])"
  by (auto simp: cell_def dest!: is_str_child is_num_child)

lemma formatIp_ok: "is_arr v \<Longrightarrow> \<exists>s. formatIp v = Inr s"
  by (auto simp: formatIp_def dest!: is_arr_child)

definition row_listener :: "nat \<Rightarrow> string \<times> record_table_handler \<Rightarrow> bool" where
  "row_listener a nh \<longleftrightarrow>
     nh \<in> {('''', RowSwap a), ('''', RowDelete a), ('''', RowUpdate a), (''hostname'', RowChange a),
       (''type'', RowChange a), (''ip'', RowIp a), (''target'', RowTarget a), (''ttl'', RowNumber a)}"

lemma renderLineView_ok:
  assumes "row_ok v"
  shows "\<exists>tr. renderLineView a v k = Inr tr \<and> (\<forall>x \<in> set (handlers [tr]). row_listener a (snd x))"
proof -
  from assms obtain h ty ta tt ip where
    "\<And>as. cell as (js_get v ''hostname'') = Inr (Elem ''td'' as [Txt h])"
    "\<And>as. cell as (js_get v ''type'') = Inr (Elem ''td'' as [Txt ty])"
    "\<And>as. cell as (js_get v ''target'') = Inr (Elem ''td'' as [Txt ta])"
    "\<And>as. cell as (js_get v ''ttl'') = Inr (Elem ''td'' as [Txt tt])"
    "formatIp (js_get v ''ip'') = Inr ip"
    unfolding row_ok_def using formatIp_ok
    by (fastforce simp: cell_def dest!: is_str_child is_num_child)
  then show ?thesis
    by (auto simp: renderLineView_def js_simps row_listener_def target_name_def)
qed

lemma renderLineEditing_ok:
  assumes "row_ok v"
  shows "\<exists>tr. renderLineEditing a v k = Inr tr \<and> (\<forall>x \<in> set (handlers [tr]). row_listener a (snd x))"
proof -
  from assms obtain ip where "formatIp (js_get v ''ip'') = Inr ip"
    unfolding row_ok_def using formatIp_ok by blast
  then show ?thesis
    by (cases "isA (js_get v ''type'')"; cases "js_get v ''type'' = JSStr ''CNAME''")
      (simp_all add: renderLineEditing_def js_simps row_listener_def target_name_def)
qed

lemma render_line_ok:
  "row_ok (row_at t a) \<Longrightarrow>
   \<exists>tr. render_line t (k, a) = Inr tr \<and> (\<forall>x \<in> set (handlers [tr]). row_listener a (snd x))"
  using renderLineView_ok [of "row_at t a" a k] renderLineEditing_ok [of "row_at t a" a k]
  by (simp add: render_line_def Let_def)

lemma table_head_handlers: "handlers table_head = []"
  by (simp add: table_head_def js_simps)

lemma map_result_in: "map_result f xs = Inr ys \<Longrightarrow> y \<in> set ys \<Longrightarrow> \<exists>x \<in> set xs. f x = Inr y"
  by (induction xs arbitrary: ys) (fastforce split: sum.splits)+

lemma handlers_each: "x \<in> set (handlers ts) \<Longrightarrow> \<exists>t \<in> set ts. x \<in> set (handlers [t])"
  by (auto simp: handlers_def)

lemma RecordTable_render_ok:
  assumes "table_inv t"
  shows "\<exists>ts. RecordTable_render t = Inr ts \<and>
    (\<forall>x \<in> set (handlers ts). \<exists>a. a < length (tb_heap t) \<and> row_listener a (snd x))"
proof -
  obtain as where as: "tb_table t = Rows as" "\<forall>a \<in> set as. a < length (tb_heap t)"
    using table_inv_Rows [OF assms] by blast
  have line: "\<exists>tr. render_line t ka = Inr tr \<and> (\<forall>x \<in> set (handlers [tr]). row_listener (snd ka) (snd x))"
    and bound: "snd ka < length (tb_heap t)" if "ka \<in> set (enumerate 0 as)" for ka
  proof -
    have "snd ka \<in> set as" using that by (metis map_snd_enumerate image_eqI set_map)
    then show "snd ka < length (tb_heap t)" using as(2) by blast
    then show "\<exists>tr. render_line t ka = Inr tr \<and> (\<forall>x \<in> set (handlers [tr]). row_listener (snd ka) (snd x))"
      using render_line_ok [of t "snd ka" "fst ka"] table_inv_row [OF assms] by simp
  qed
  obtain trs where trs: "map_result (render_line t) (enumerate 0 as) = Inr trs"
    using map_result_exists [of "enumerate 0 as" "render_line t"] line by meson
  have "\<exists>a. a < length (tb_heap t) \<and> row_listener a (snd x)" if x: "x \<in> set (handlers trs)" for x
  proof -
    obtain tr ka where "x \<in> set (handlers [tr])" "ka \<in> set (enumerate 0 as)" "render_line t ka = Inr tr"
      using handlers_each [OF x] map_result_in [OF trs] by blast
    then show ?thesis using line bound by fastforce
  qed
  then show ?thesis
    using as(1) trs by (auto simp: RecordTable_render_def js_simps table_head_handlers target_name_def)
qed

lemma RecordTable_fire_inv:
  assumes "table_inv t" and "row_listener a (n, h)" and "ev_name e = n"
  shows "table_inv (fst (RecordTable_fire env h e t))"
  using assms table_inv_swap
  by (auto simp: row_listener_def updateRecord_def Let_def row_handleChange_def row_handleNumberChange_def
      handleIpChange_def handleTargetChange_def row_ok_def intro!: table_inv_row_set)

lemma reloadTable_settled_fail [simp]: "reloadTable_settled (AjaxFail st b) t = t"
  by (simp add: reloadTable_settled_def)

section \<open>Addresses edited in a row\<close>

lemma parse_row_dotted: "quad ns \<Longrightarrow> parse_row_ip (dotted ns) = num_ip ns"
proof -
  assume q: "quad ns"
  then have "ns \<noteq> []" by (auto simp: quad_def)
  then have "it \<noteq> ''''" if "it \<in> set (split_on (CHR ''.'') (dotted ns))" for it
    using that by (auto simp: split_dotted)
  then show ?thesis unfolding parse_num_ip [OF q, symmetric] parse_row_ip_def by (intro map_cong) auto
qed

interpretation rowip: dotted_quad js_join_dot "\<lambda>s. Inr (parse_row_ip s) :: (js_error, jsv list) result"
  js_octets js_quad
  by unfold_locales (simp_all add: js_quad_laws parse_row_dotted)

end
