(* ===== verification/Home.thy ===== *)
theory Home
  imports EnvUi RecordTable
begin

text \<open>
  \<open>Home.js\<close> and \<open>NavBar.js\<close>: the page, its state, and the way React mounts, updates and unmounts
  the components below it. The functions \<open>Home\<close> passes down are the cases of \<open>home_prop\<close>;
  \<open>run\<close> executes the effects of a child, calling them in order; \<open>rerender\<close> is what follows a
  change of state. An exception in a \<open>render\<close> method unmounts the page, because there is no error
  boundary. An instance of \<open>EnvPicker\<close> is numbered, since a late answer may meet another instance
  than the one that asked.
\<close>

section \<open>NavBar.js\<close>

definition nav_item :: "string \<Rightarrow> string \<Rightarrow> 'h vnode list \<Rightarrow> 'h vnode" where
  "nav_item li_class a_class ts = Elem ''li'' [cls li_class] [Elem ''a'' [cls a_class, at ''href'' ''#''] ts]"

definition NavBar_render :: "'h vnode" where
  "NavBar_render =
     Elem ''nav'' [cls ''navbar navbar-inverse navbar-fixed-top'']
       [Elem ''a'' [cls ''navbar-brand'', at ''href'' ''#''] [Txt ''DNS Proxy Server''],
        Elem ''button''
          [cls ''navbar-toggler'', at ''type'' ''button'', at ''data-toggle'' ''collapse'', at ''data-target'' ''#navbarNav'',
           at ''aria-controls'' ''navbarNav'', at ''aria-expanded'' ''false'', at ''aria-label'' ''Toggle navigation'']
          [Elem ''span'' [cls ''navbar-toggler-icon''] []],
        Elem ''div'' [cls ''collapse navbar-collapse'', at ''id'' ''navbarNav'']
          [Elem ''ul'' [cls ''navbar-nav pull-right'']
             [nav_item ''nav-item active'' ''nav-link''
                [Txt ''Home '', Elem ''span'' [cls ''sr-only''] [Txt ''(current)'']],
              nav_item ''nav-item'' ''nav-link'' [Txt ''Features''],
              nav_item ''nav-item'' ''nav-link'' [Txt ''Pricing''],
              nav_item ''nav-item'' ''nav-link disabled'' [Txt ''Disabled'']]]]"

section \<open>State\<close>

record home =
  forceUpdate :: jsv
  createEnv :: bool
  isLoading :: bool
  home_env :: jsv
  home_mounted :: bool
  home_picker :: "(nat \<times> env_picker) option"
  home_form :: "record_form option"
  home_table :: "record_table option"
  home_instances :: nat

datatype home_handler =
    OnEnvForm env_form_handler
  | OnPicker env_picker_handler
  | OnRecordForm record_form_handler
  | OnTable record_table_handler

datatype callback =
    CbActive
  | CbActivate jsv
  | CbEnvForm env_form_callback
  | CbPicker nat env_picker_callback
  | CbForm record_form_callback
  | CbTable record_table_callback

definition Home_new :: home where
  "Home_new = \<lparr>forceUpdate = JSNull, createEnv = False, isLoading = True, home_env = JSStr '''',
     home_mounted = True, home_picker = None, home_form = None, home_table = None, home_instances = 0\<rparr>"

section \<open>Rendering\<close>

definition renderEnvs :: "home \<Rightarrow> (js_error, home_handler vnode list) result" where
  "renderEnvs h =
     (if createEnv h then Inr (map (map_vnode OnEnvForm) EnvForm_render)
      else case home_picker h of
        None \<Rightarrow> Inr []
      | Some (_, p) \<Rightarrow> bind_result (EnvPicker_render p) (\<lambda>ts. Inr (map (map_vnode OnPicker) ts)))"

definition renderTable :: "home \<Rightarrow> (js_error, home_handler vnode list) result" where
  "renderTable h =
     bind_result (renderEnvs h) (\<lambda>envs.
     bind_result (case home_table h of None \<Rightarrow> Inr [] | Some t \<Rightarrow> RecordTable_render t) (\<lambda>tb.
     Inr
       [Elem ''div'' [cls ''row mb-2'']
          [Elem ''div'' [cls ''col-12''] (Elem ''h3'' [] [Txt ''Environments''] # envs)],
        Elem ''div'' [cls ''row'']
          [Elem ''div'' [cls ''col-12'']
             (Elem ''h3'' [] [Txt ''New Record''] #
              map (map_vnode OnRecordForm) (case home_form h of None \<Rightarrow> [] | Some f \<Rightarrow> RecordForm_render f) @
              map (map_vnode OnTable) tb)]]))"

definition renderLoading :: "'h vnode" where
  "renderLoading =
     Elem ''div'' [cls ''card'']
       [Elem ''div'' [cls ''card-body'']
          [Elem ''div'' [cls ''text-center m-5'']
             [Elem ''div'' [cls ''spinner-border text-primary'', at ''role'' ''status'']
                [Elem ''span'' [cls ''sr-only''] [Txt ''Loading...'']]]]]"

definition Home_render :: "home \<Rightarrow> (js_error, home_handler vnode list) result" where
  "Home_render h =
     bind_result (if isLoading h then Inr [renderLoading] else renderTable h) (\<lambda>ts.
     Inr [NavBar_render, Elem ''div'' [cls ''container mb-5''] ts])"

section \<open>Mounting\<close>

text \<open>The children the state calls for; those already there keep their state.\<close>

definition reconcile :: "home \<Rightarrow> home" where
  "reconcile h =
     (if isLoading h then h\<lparr>home_picker := None, home_form := None, home_table := None\<rparr>
      else
        let fresh = (\<not> createEnv h \<and> home_picker h = None) in
        h\<lparr>home_picker :=
            (if createEnv h then None
             else if fresh then Some (home_instances h, EnvPicker_new (home_env h)) else home_picker h),
          home_instances := (if fresh then Suc (home_instances h) else home_instances h),
          home_form := (case home_form h of None \<Rightarrow> Some RecordForm_new | Some f \<Rightarrow> Some f),
          home_table := (case home_table h of None \<Rightarrow> Some RecordTable_new | Some t \<Rightarrow> Some t)\<rparr>)"

definition wrap_picker :: "nat \<Rightarrow> env_picker_callback effect list \<Rightarrow> callback effect list" where
  "wrap_picker i es = map (map_effect (CbPicker i)) es"

definition wrap_table :: "record_table_callback effect list \<Rightarrow> callback effect list" where
  "wrap_table es = map (map_effect CbTable) es"

text \<open>\<open>componentDidMount\<close> of the children that are new, in the order they stand in the tree.\<close>

definition did_mount :: "home \<Rightarrow> home \<Rightarrow> home \<times> callback effect list" where
  "did_mount old h =
     (h\<lparr>home_form := (if home_form old = None then map_option RecordForm_componentDidMount (home_form h)
                     else home_form h)\<rparr>,
      (case home_picker h of
         Some (i, _) \<Rightarrow> if home_picker old = None then wrap_picker i EnvPicker_componentDidMount else []
       | None \<Rightarrow> []) @
      (case home_table h of
         Some _ \<Rightarrow> if home_table old = None then wrap_table (RecordTable_componentDidMount (home_env h)) else []
       | None \<Rightarrow> []))"

definition rerender :: "home \<Rightarrow> home \<times> callback effect list" where
  "rerender h =
     (case Home_render (reconcile h) of
        Inl e \<Rightarrow> (h\<lparr>home_mounted := False\<rparr>, [Throw e])
      | Inr _ \<Rightarrow> did_mount h (reconcile h))"

text \<open>\<open>setState\<close> on an unmounted component has no effect.\<close>

definition setState :: "(home \<Rightarrow> home) \<Rightarrow> home \<Rightarrow> home \<times> callback effect list" where
  "setState f h = (if home_mounted h then rerender (f h) else (h, []))"

section \<open>Methods\<close>

definition getActiveEnvironment :: ajax where
  "getActiveEnvironment = ajax_get ''/env/active''"

definition Home_componentDidMount :: "callback effect list" where
  "Home_componentDidMount = [Ajax getActiveEnvironment CbActive]"

definition Home_componentDidMount_settled :: "ajax_result \<Rightarrow> home \<Rightarrow> home \<times> callback effect list" where
  "Home_componentDidMount_settled r h =
     (case r of
        AjaxDone data \<Rightarrow>
          (case js_member data ''name'' of
             Inl e \<Rightarrow> (h, [Throw e])
           | Inr name \<Rightarrow> setState (\<lambda>h. h\<lparr>isLoading := False, home_env := name\<rparr>) h)
      | AjaxFail _ _ \<Rightarrow> (h, [notice None ''Failed to fetch current environment'' (Some ''danger'')]))"

definition activate :: "jsv \<Rightarrow> ajax" where
  "activate env = ajax_json PUT ''/env/active'' [(''name'', env)]"

definition toggleEnvForm :: "home \<Rightarrow> home \<times> callback effect list" where
  "toggleEnvForm h = setState (\<lambda>h. h\<lparr>createEnv := \<not> createEnv h\<rparr>) h"

text \<open>\<open>this.table\<close> and \<open>this.envPicker\<close> are references that are \<open>null\<close> while the child is not mounted.\<close>

definition table_reload :: "home \<Rightarrow> callback effect list" where
  "table_reload h =
     (if home_mounted h \<and> home_table h \<noteq> None then wrap_table (reloadTable (home_env h))
      else [Throw (TypeError ''reloadTable'')])"

definition picker_reload :: "home \<Rightarrow> callback effect list" where
  "picker_reload h =
     (case home_picker h of
        Some (i, _) \<Rightarrow> if home_mounted h then wrap_picker i EnvPicker_reload else [Throw (TypeError ''reload'')]
      | None \<Rightarrow> [Throw (TypeError ''reload'')])"

definition is_throw :: "'c effect \<Rightarrow> bool" where
  "is_throw e = (case e of Throw _ \<Rightarrow> True | _ \<Rightarrow> False)"

definition onUpdate :: "home \<Rightarrow> home \<times> callback effect list" where
  "onUpdate h =
     (let es = table_reload h in (h, if list_ex is_throw es then es else es @ picker_reload h))"

definition onChangeEnv :: "jsv \<Rightarrow> home \<Rightarrow> home \<times> callback effect list" where
  "onChangeEnv env h = (h, [Ajax (activate env) (CbActivate env)])"

definition onChangeEnv_settled :: "jsv \<Rightarrow> ajax_result \<Rightarrow> home \<Rightarrow> home \<times> callback effect list" where
  "onChangeEnv_settled env r h =
     (if resolved r then
        (let (h', es) = setState (\<lambda>h. h\<lparr>home_env := env, createEnv := False\<rparr>) h in
         (h', if home_mounted h' then es @ table_reload h' else es))
      else (h, [notice None ''Could not activate environment'' (Some ''danger'')]))"

definition onCreate :: "jsv \<Rightarrow> home \<Rightarrow> home \<times> callback effect list" where
  "onCreate env h = onChangeEnv env h"

definition onDelete :: "home \<Rightarrow> home \<times> callback effect list" where
  "onDelete h = onChangeEnv (JSStr DEFAULT_ENV) h"

definition home_prop :: "string \<Rightarrow> jsv list \<Rightarrow> home \<Rightarrow> home \<times> callback effect list" where
  "home_prop n vs h =
     (let v = (case vs of [] \<Rightarrow> JSUndef | v # _ \<Rightarrow> v) in
      if n = ''onCancel'' \<or> n = ''onToggle'' then toggleEnvForm h
      else if n = ''onCreate'' then onCreate v h
      else if n = ''onChange'' then onChangeEnv v h
      else if n = ''onDelete'' then onDelete h
      else onUpdate h)"

text \<open>The effects of a child, until one of them throws.\<close>

fun run :: "('c \<Rightarrow> callback) \<Rightarrow> 'c effect list \<Rightarrow> home \<Rightarrow> home \<times> callback effect list" where
  "run w [] h = (h, [])"
| "run w (Ajax a c # es) h = (let (h', r) = run w es h in (h', Ajax a (w c) # r))"
| "run w (Notify n # es) h = (let (h', r) = run w es h in (h', Notify n # r))"
| "run w (Throw e # es) h = (h, [Throw e])"
| "run w (CallProp n vs # es) h =
     (let (h', r) = home_prop n vs h in
      if list_ex is_throw r then (h', r) else let (h'', r') = run w es h' in (h'', r @ r'))"

section \<open>Events and answers\<close>

definition Home_fire :: "home_handler \<Rightarrow> event \<Rightarrow> home \<Rightarrow> home \<times> callback effect list" where
  "Home_fire x e h =
     (case x of
        OnEnvForm y \<Rightarrow> run CbEnvForm (EnvForm_fire y (ev_value e)) h
      | OnPicker y \<Rightarrow>
          (case home_picker h of
             None \<Rightarrow> (h, [])
           | Some (i, p) \<Rightarrow>
               let (p', es) = EnvPicker_fire y (ev_value e) p;
                   (h1, r1) = setState (\<lambda>h. h\<lparr>home_picker := Some (i, p')\<rparr>) h;
                   (h2, r2) = run (CbPicker i) es h1
               in (h2, r1 @ r2))
      | OnRecordForm y \<Rightarrow>
          (case home_form h of
             None \<Rightarrow> (h, [])
           | Some f \<Rightarrow>
               let (f', es) = RecordForm_fire (home_env h) y e f;
                   (h1, r1) = setState (\<lambda>h. h\<lparr>home_form := Some f'\<rparr>) h;
                   (h2, r2) = run CbForm es h1
               in (h2, r1 @ r2))
      | OnTable y \<Rightarrow>
          (case home_table h of
             None \<Rightarrow> (h, [])
           | Some t \<Rightarrow>
               let (t', es) = RecordTable_fire (home_env h) y e t;
                   (h1, r1) = setState (\<lambda>h. h\<lparr>home_table := Some t'\<rparr>) h;
                   (h2, r2) = run CbTable es h1
               in (h2, r1 @ r2)))"

definition settle :: "callback \<Rightarrow> ajax_result \<Rightarrow> home \<Rightarrow> home \<times> callback effect list" where
  "settle cb r h =
     (case cb of
        CbActive \<Rightarrow> Home_componentDidMount_settled r h
      | CbActivate env \<Rightarrow> onChangeEnv_settled env r h
      | CbEnvForm (EnvCreated name) \<Rightarrow> run CbEnvForm (createEnvironment_settled name r) h
      | CbPicker i EnvListed \<Rightarrow>
          (case home_picker h of
             Some (j, p) \<Rightarrow>
               if i = j then setState (\<lambda>h. h\<lparr>home_picker := Some (j, EnvPicker_reload_settled r p)\<rparr>) h else (h, [])
           | None \<Rightarrow> (h, []))
      | CbPicker i EnvDeleted \<Rightarrow> run (CbPicker i) (deleteEnv_settled r) h
      | CbForm RecordSaved \<Rightarrow> run CbForm (handleSubmit_settled r) h
      | CbTable TableLoaded \<Rightarrow>
          (case home_table h of
             Some t \<Rightarrow> setState (\<lambda>h. h\<lparr>home_table := Some (reloadTable_settled r t)\<rparr>) h
           | None \<Rightarrow> (h, []))
      | CbTable RowUpdated \<Rightarrow> run CbTable (updateRecord_settled r) h
      | CbTable (RowDeleted a) \<Rightarrow>
          (case home_table h of
             Some t \<Rightarrow> run CbTable (deleteRecord_settled (home_env h) a r t) h
           | None \<Rightarrow> (h, [])))"

end
