(* ===== verification/ApiSafe.thy ===== *)
theory ApiSafe
  imports Api
begin

text \<open>
  The server under any sequence of requests: what \<open>encoding/json\<close> can put into a value object,
  that no handler panics on a state that is \<open>served\<close>, that the state stays \<open>served\<close>, and the
  shape of the answers the front end reads.
\<close>

section \<open>What a request body can carry\<close>

lemma decode_bytes_length [simp]: "length (fst (decode_bytes fld bs js)) = length bs"
  by (induction fld bs js rule: decode_bytes.induct) (auto simp: Let_def split: prod.splits)

lemma decode_ip_length [simp]: "length (fst (decode_ip fld old j)) = length old"
  by (cases j) auto

lemma decode_hostname_field_ip:
  "length (voIp (fst acc)) = 4 \<Longrightarrow> length (voIp (fst (decode_hostname_field kv acc))) = 4"
  by (cases "go_field hostname_tags (fst kv)")
    (simp_all add: decode_hostname_field_def Let_def case_prod_unfold)

lemma decode_hostname_value_ip: "length (voIp (fst (decode_hostname_value j))) = 4"
proof -
  have "length (voIp (fst acc)) = 4 \<Longrightarrow> length (voIp (fst (fold decode_hostname_field kvs acc))) = 4" for kvs acc
    by (induction kvs arbitrary: acc) (auto simp: decode_hostname_field_ip)
  then show ?thesis by (cases j) (auto simp: empty_voHostname_def zero_ip_def)
qed

lemma decode_hostname_ip: "length (voIp (fst (decode_hostname body))) = 4"
  by (auto simp: decode_hostname_def empty_voHostname_def zero_ip_def decode_hostname_value_ip split: option.splits)

lemma ToHostname_ok: "length (voIp v) = 4 \<Longrightarrow> quad_text (hIp (ToHostname v)) \<and> in_int64 (hId (ToHostname v))"
  by (simp add: ToHostname_def quad_text_ToIpString vo_parseInt_def go_ParseInt_in_int64)

definition vo_ips :: "voHostname list \<Rightarrow> bool" where
  "vo_ips vs \<longleftrightarrow> list_all (\<lambda>v. length (voIp v) = 4) vs"

lemma decode_hostnames_ips: "vo_ips old \<Longrightarrow> vo_ips (fst (decode_hostnames j old))"
  by (cases j) (auto simp: vo_ips_def list_all_iff decode_hostname_value_ip)

lemma decode_env_field_ips:
  "vo_ips (voHostnames (fst acc)) \<Longrightarrow> vo_ips (voHostnames (fst (decode_env_field kv acc)))"
  using decode_hostnames_ips [of "voHostnames (fst acc)" "snd kv"]
  by (auto simp: decode_env_field_def Let_def split: prod.splits option.splits)

lemma decode_env_ips: "vo_ips (voHostnames (fst (decode_env body)))"
proof -
  have "vo_ips (voHostnames (fst acc)) \<Longrightarrow> vo_ips (voHostnames (fst (fold decode_env_field kvs acc)))" for kvs acc
    by (induction kvs arbitrary: acc) (auto simp: decode_env_field_ips)
  then show ?thesis
    by (auto simp: decode_env_def empty_voEnv_def vo_ips_def split: option.splits json.splits)
qed

lemma stamped_served:
  assumes "vo_ips vs" and "\<And>t. clk t \<noteq> 0 \<and> in_int64 (clk t)"
  shows "list_all host_served (map ToHostname (stamp_vo_ids clk t vs))"
  using assms
  by (induction clk t vs rule: stamp_vo_ids.induct)
    (auto simp: vo_ips_def host_served_def ToHostname_def quad_text_ToIpString vo_parseInt_def go_ParseInt_FormatInt)

section \<open>The writing operations\<close>

text \<open>\<open>stays res\<close>: the call returned, and the server is in a served state.\<close>

definition stays :: "(go_panic, 'a \<times> 'm server) result \<Rightarrow> bool" where
  "stays res \<longleftrightarrow> (\<exists>a s' c'. res = Inr (a, s') \<and> served s' c')"

lemma staysI: "res = Inr (a, s') \<Longrightarrow> served s' c' \<Longrightarrow> stays res"
  by (auto simp: stays_def)

lemma stays_ok: "\<exists>s'. res = Inr (a, s') \<and> served s' c' \<and> P s' \<Longrightarrow> stays res"
  by (auto simp: stays_def)

lemma local_ops_stay:
  assumes s: "served s c"
  shows "stays (local_SetActiveEnv env s)"
    and "list_all host_served (Hostnames env) \<Longrightarrow> stays (local_AddEnv env s)"
    and "stays (local_RemoveEnvByName n s)"
    and "stays (local_RemoveHostname e n s)"
    and "quad_text (hIp h) \<Longrightarrow> in_int64 (hId h) \<Longrightarrow> stays (local_AddHostname e h s)"
    and "quad_text (hIp h) \<Longrightarrow> stays (local_UpdateHostname e h s)"
proof -
  have err: "stays (transact (\<lambda>s c. (f c, s)) s)" if "f c = Inl x" for f x
    using transact_served_Err [OF s, of "\<lambda>s c. (f c, s)"] that s by (auto intro: staysI)
  show "stays (local_SetActiveEnv env s)"
    by (cases "SetActiveEnv c env")
      (simp_all add: local_SetActiveEnv_def err stays_ok [OF SetActiveEnv_served [OF s], unfolded local_SetActiveEnv_def])
  show "stays (local_AddEnv env s)" if "list_all host_served (Hostnames env)"
    using that by (cases "AddEnv c env")
      (simp_all add: local_AddEnv_def err stays_ok [OF AddEnv_served [OF s], unfolded local_AddEnv_def])
  show "stays (local_RemoveEnvByName n s)"
    by (cases "RemoveEnvByName c n")
      (simp_all add: local_RemoveEnvByName_def err stays_ok [OF RemoveEnv_served [OF s], unfolded local_RemoveEnvByName_def])
  show "stays (local_RemoveHostname e n s)"
    by (cases "RemoveHostnameByEnvAndHostname c e n")
      (simp_all add: local_RemoveHostname_def err stays_ok [OF RemoveHostname_served [OF s], unfolded local_RemoveHostname_def])
  show "stays (local_UpdateHostname e h s)" if "quad_text (hIp h)"
    using that by (cases "UpdateHostname c e h")
      (simp_all add: local_UpdateHostname_def err stays_ok [OF UpdateHostname_served [OF s], unfolded local_UpdateHostname_def])
  show "stays (local_AddHostname e h s)" if "quad_text (hIp h)" "in_int64 (hId h)"
  proof (cases "AddHostname (srv_clock s (srv_ticks s)) c e h")
    case (Inl x)
    have "stays (transact (add_hostname_op e h) s)"
      using transact_served_Err [OF s, of "add_hostname_op e h"] Inl s
      by (cases "hId h = 0") (auto simp: add_hostname_op_def intro: staysI)
    then show ?thesis by (simp add: local_AddHostname_def)
  next
    case (Inr c')
    then show ?thesis by (rule stays_ok [OF AddHostname_served [OF s that]])
  qed
qed

section \<open>Every handler\<close>

lemma stays_reply:
  "stays res \<Longrightarrow> stays (case res of Inl p \<Rightarrow> Inl p | Inr (r, s') \<Rightarrow> Inr (f r, s'))"
  by (auto simp: stays_def)

lemma stays_moved: "served s c \<Longrightarrow> stays (Inr (a, s))"
  by (auto simp: stays_def)

text \<open>The value object of a record whose address is well-formed.\<close>

definition vo_of :: "string \<Rightarrow> Hostname \<Rightarrow> voHostname" where
  "vo_of n h = \<lparr>voId = go_FormatInt (hId h), voHostname = hHostname h,
      voIp = projr (ToIpByteArray zero_ip (hIp h)), voTarget = hTarget h, voTtl = hTtl h,
      voType = hType h, voEnv = n\<rparr>"

lemma served_hosts_vo:
  assumes "list_all host_served hs"
  shows "\<exists>vs. FromHostnames n hs = Inr vs \<and> vs = map (vo_of n) hs \<and> vo_ips vs"
  using assms
proof (induction hs)
  case (Cons h hs)
  obtain ns where "quad ns" "hIp h = dotted ns"
    using Cons.prems by (auto simp: host_served_def quad_text_def)
  then obtain ip where ip: "ToIpByteArray zero_ip (hIp h) = Inr ip" "length ip = 4"
    using goip.parse_text by metis
  obtain vs where "FromHostnames n hs = Inr vs" "vs = map (vo_of n) hs" "vo_ips vs"
    using Cons by auto
  with ip show ?case by (simp add: FromHostnames_def voFromHostname_def vo_ips_def vo_of_def)
qed (simp add: FromHostnames_def vo_ips_def)

lemma served_FromEnvs:
  assumes "\<And>e. e \<in> set es \<Longrightarrow> list_all host_served (Hostnames e)"
  shows "\<exists>vs. FromEnvs es = Inr vs"
  unfolding FromEnvs_def
proof (rule map_result_exists)
  fix e assume "e \<in> set es"
  from served_hosts_vo [OF assms [OF this]] show "\<exists>v. FromEnv e = Inr v"
    by (metis FromEnv_def sum.simps(6))
qed

lemma served_env_hosts: "served s c \<Longrightarrow> e \<in> set (Envs c) \<Longrightarrow> list_all host_served (Hostnames e)"
  by (auto simp: served_def list_all_iff hosts_of_def)

text \<open>The answers to the three queries the front end reads.\<close>

lemma find_hostname_served:
  assumes s: "served s c"
  shows "find_hostname re r s =
    (case records c (query_get r ''env'') of
       None \<Rightarrow> Inr (BadRequest True ''env not found'', s)
     | Some hs \<Rightarrow> Inr (respond 200 True (JsonBody (JArr (map (encode_hostname \<circ> vo_of (query_get r ''env''))
         (filter (\<lambda>h. re (''.*'' @ query_get r ''hostname'' @ ''.*'') (hHostname h)) hs)))), s))"
proof (cases "GetEnv c (query_get r ''env'')")
  case None
  then show ?thesis
    using served_load [OF s] by (simp add: find_hostname_def FindHostnameByNameAndEnv_def records_def)
next
  case (Some i)
  let ?hs = "filter (\<lambda>h. re (''.*'' @ query_get r ''hostname'' @ ''.*'') (hHostname h)) (Hostnames (Envs c ! i))"
  have "Envs c ! i \<in> set (Envs c)" using GetEnv_Some [OF Some] by simp
  from served_env_hosts [OF s this] have "list_all host_served ?hs" by (auto simp: list_all_iff)
  then have "FromHostnames (query_get r ''env'') ?hs = Inr (map (vo_of (query_get r ''env'')) ?hs)"
    using served_hosts_vo by blast
  then show ?thesis
    using served_load [OF s] Some
    by (simp add: find_hostname_def FindHostnameByNameAndEnv_def FindHostnameByName_def records_def Let_def)
qed

lemma get_env_active_served:
  "served s c \<Longrightarrow> \<exists>s'. get_env_active r s =
     Inr (respond 200 True (JsonBody (JObj [(''name'', JStr (ActiveEnv c))])), s') \<and> served s' c"
  by (simp add: get_env_active_def served_load json_reply_def encode_env_def)

lemma get_env_served:
  assumes s: "served s c"
  shows "\<exists>s' vs. get_env r s = Inr (respond 200 True (JsonBody (JArr (map encode_env vs))), s') \<and> served s' c
    \<and> map voName vs = env_names c"
proof -
  obtain vs where vs: "FromEnvs (Envs c) = Inr vs" using served_FromEnvs served_env_hosts [OF s] by blast
  have "map_result FromEnv es = Inr vs \<Longrightarrow> map voName vs = map envName es" for es vs
    by (induction es arbitrary: vs) (auto simp: FromEnv_def split: sum.splits)
  then have "map voName vs = env_names c" using vs by (simp add: FromEnvs_def env_names_def)
  then show ?thesis using s vs by (auto simp: get_env_def served_load json_reply_def)
qed

lemma handlers_stay:
  assumes s: "served s c"
  shows "stays (get_env_active r s)" and "stays (put_env_active r s)" and "stays (get_env r s)"
    and "stays (post_env r s)" and "stays (delete_env r s)" and "stays (get_hostname r s)"
    and "stays (find_hostname re r s)" and "stays (post_hostname jt r s)" and "stays (put_hostname r s)"
    and "stays (delete_hostname r s)"
proof -
  note load = served_load [OF s]
  show "stays (get_env_active r s)"
    using s by (auto simp: get_env_active_def load json_reply_def stays_def)
  show "stays (put_env_active r s)"
    unfolding put_env_active_def by (rule stays_reply [OF local_ops_stay(1) [OF s]])
  show "stays (get_env r s)"
    using get_env_served [OF s, of r] by (auto simp: stays_def)
  have "list_all host_served (Hostnames (ToEnv ((fst (decode_env (rq_body r)))\<lparr>voHostnames :=
      stamp_vo_ids (srv_clock s) (srv_ticks s) (voHostnames (fst (decode_env (rq_body r))))\<rparr>)))"
    using stamped_served [OF decode_env_ips] served_now [OF s] by (simp add: ToEnv_def fromV1Hostnames_def)
  then show "stays (post_env r s)"
    unfolding post_env_def Let_def
    by (intro stays_reply local_ops_stay(2) [where c = c]) (simp_all add: s)
  show "stays (delete_env r s)"
    unfolding delete_env_def by (rule stays_reply [OF local_ops_stay(3) [OF s]])
  have "\<exists>v. FromEnv (Envs c ! i) = Inr v" if "GetEnv c n = Some i" for n i
    using served_hosts_vo [OF served_env_hosts [OF s]] GetEnv_Some [OF that]
    by (metis FromEnv_def nth_mem sum.simps(6))
  then show "stays (get_hostname r s)"
    using s by (fastforce simp: get_hostname_def load Let_def stays_def split: option.splits)
  show "stays (post_hostname jt r s)"
    using decode_hostname_ip [of "rq_body r"] ToHostname_ok
    by (auto simp: post_hostname_def stays_moved [OF s] intro!: stays_reply local_ops_stay(5) [OF s]
        split: prod.splits option.splits)
  show "stays (put_hostname r s)"
    using decode_hostname_ip [of "rq_body r"] ToHostname_ok
    by (auto simp: put_hostname_def stays_moved [OF s] intro!: stays_reply local_ops_stay(6) [OF s]
        split: prod.splits option.splits)
  show "stays (delete_hostname r s)"
    unfolding delete_hostname_def Let_def by (rule stays_reply [OF local_ops_stay(4) [OF s]])
  show "stays (find_hostname re r s)"
    by (cases "records c (query_get r ''env'')") (simp_all add: find_hostname_served [OF s] stays_moved [OF s])
qed

lemma serve_stays: "served s c \<Longrightarrow> stays (serve re jt r s)"
  by (auto simp: serve_def Let_def handlers_stay stays_moved split: http_method.split)

lemma exchange_stays:
  assumes "served s c"
  shows "stays (exchange re jt r s)"
proof -
  obtain a s1 c1 where 1: "serve re jt r s = Inr (a, s1)" "served s1 c1"
    using serve_stays [OF assms, of re jt r] by (auto simp: stays_def)
  show ?thesis by (simp add: exchange_def 1 serve_stays [OF 1(2)] stays_moved [OF 1(2)])
qed

end
