(* ===== verification/Console.thy ===== *)
theory Console
  imports Home ApiSafe
begin

text \<open>
  The page and the server together: what the front end makes of the answers of theory \<open>Api\<close>, which
  requests its components send, and that every answer to such a request has the shape that its
  continuation reads.
\<close>

section \<open>Answers as the components see them\<close>

definition row_of :: "string \<Rightarrow> Hostname \<Rightarrow> jsobj" where
  "row_of n h =
     [(''id'', JSStr (go_FormatInt (hId h))), (''hostname'', JSStr (hHostname h)),
      (''ip'', JSArr (map (\<lambda>b. JSNum (JInt (uint b))) (projr (ToIpByteArray zero_ip (hIp h))))),
      (''target'', JSStr (hTarget h)), (''ttl'', JSNum (js_num (hTtl h))), (''type'', JSStr (hType h))]
     @ (if n = '''' then [] else [(''env'', JSStr n)])"

lemma js_num_u8: "js_num (uint (b :: u8)) = JInt (uint b)"
  by (rule js_num_byte) (simp_all add: uint_u8_bound)

lemma json_parse_row: "json_parse (encode_hostname (vo_of n h)) = JSObj (row_of n h)"
  by (simp add: encode_hostname_def vo_of_def row_of_def js_num_u8 o_def)

lemma as_objects_rows: "as_objects (map (json_parse \<circ> (encode_hostname \<circ> vo_of n)) hs) = Some (map (row_of n) hs)"
  by (induction hs) (simp_all add: json_parse_row)

lemma byte_nums: "map (\<lambda>b. JSNum (JInt (uint (b :: u8)))) bs = num_ip (map unat bs)"
proof -
  have "uint b = int (unat b)" for b :: u8 by (metis uint_nat)
  then show ?thesis by (simp add: num_ip_def)
qed

lemma row_of_ip: "quad_text (hIp h) \<Longrightarrow> formatIp (js_get (row_of e h) ''ip'') = Inr (hIp h)"
proof -
  assume "quad_text (hIp h)"
  then obtain ns where ns: "quad ns" "hIp h = dotted ns" by (auto simp: quad_text_def)
  then obtain bs where bs: "ToIpByteArray zero_ip (hIp h) = Inr bs" "map unat bs = ns"
    using goip.parse_text by metis
  show ?thesis
    using ns bs by (simp add: formatIp_def row_of_def js_get_def join_num_ip byte_nums)
qed

lemma row_of_ok: "row_ok (row_of n h)"
  by (simp add: row_ok_def row_of_def js_get_def)

lemma json_parse_env: "env_entry (json_parse (encode_env v))"
  by (simp add: encode_env_def env_entry_def js_get_def)

definition rows_answer :: "jsv \<Rightarrow> bool" where
  "rows_answer v = (case v of
     JSArr vs \<Rightarrow> (case as_objects vs of Some obs \<Rightarrow> list_all row_ok obs | None \<Rightarrow> False) | _ \<Rightarrow> False)"

definition named_answer :: "jsv \<Rightarrow> bool" where
  "named_answer v = (case v of JSObj ob \<Rightarrow> is_str (js_get ob ''name'') | _ \<Rightarrow> False)"

text \<open>The body of a refusal: an object with a message, or nothing when the connection is lost.\<close>

definition refusal :: "payload \<Rightarrow> bool" where
  "refusal b = (case b of JsonBody (JObj _) \<Rightarrow> True | NoBody \<Rightarrow> True | _ \<Rightarrow> False)"

text \<open>
  \<open>good_answer\<close>: data of the shape the continuation reads, or a failure; the form also reads the
  body of a failure.
\<close>

definition good_answer :: "callback \<Rightarrow> ajax_result \<Rightarrow> bool" where
  "good_answer cb r =
     (case r of
        AjaxFail _ b \<Rightarrow> cb = CbForm RecordSaved \<longrightarrow> refusal b
      | AjaxDone data \<Rightarrow>
          (case cb of
             CbActive \<Rightarrow> named_answer data
           | CbPicker _ EnvListed \<Rightarrow> env_entries data
           | CbTable TableLoaded \<Rightarrow> rows_answer data
           | _ \<Rightarrow> True))"

definition find_prefix :: string where "find_prefix = ''/hostname/find/?env=''"

text \<open>\<open>asks a cb\<close>: the request that the continuation of a query belongs to.\<close>

definition asks :: "ajax \<Rightarrow> callback \<Rightarrow> bool" where
  "asks a cb =
     (case cb of
        CbActive \<Rightarrow> a = ajax_get ''/env/active''
      | CbPicker _ EnvListed \<Rightarrow> a = ajax_get ''/env/''
      | CbTable TableLoaded \<Rightarrow>
          ax_method a = GET \<and> take (length find_prefix) (ax_url a) = find_prefix
      | CbForm RecordSaved \<Rightarrow> ax_method a = POST \<and> ax_url a = ''/hostname/''
      | _ \<Rightarrow> True)"

lemma find_path:
  assumes "take (length find_prefix) u = find_prefix"
  shows "takeWhile (\<lambda>c. c \<noteq> CHR ''?'') (url_clean u) = ''/hostname/find/''"
proof -
  have "u = find_prefix @ drop (length find_prefix) u" using assms by (metis append_take_drop_id)
  then obtain v where "u = ''/hostname/find/?env='' @ v" by (auto simp: find_prefix_def)
  then show ?thesis by (simp add: url_clean_def)
qed

lemma jq_contractD:
  assumes "jq_contract jq"
  shows "jq (respond 200 True (JsonBody j)) = AjaxDone (json_parse j)"
    and "jq (respond 200 True NoBody) = AjaxFail 200 NoBody"
    and "jq (respond 200 False NoBody) = AjaxDone (JSStr '''')"
    and "jq (respond 201 False NoBody) = AjaxDone (JSStr '''')"
    and "jq (BadRequest js msg) = AjaxFail 400 (JsonBody (JObj [(''code'', JNum 400), (''message'', JStr msg)]))"
  using assms by (simp_all add: jq_contract_def respond_def BadRequest_def)

lemma request_of_literals:
  "request_of (ajax_get ''/env/active'') = \<lparr>rq_method = GET, rq_path = ''/env/active'', rq_query = [], rq_body = None\<rparr>"
  "request_of (ajax_get ''/env/'') = \<lparr>rq_method = GET, rq_path = ''/env/'', rq_query = [], rq_body = None\<rparr>"
  "request_of (ajax_json m ''/env/active'' ob) =
     \<lparr>rq_method = m, rq_path = ''/env/active'', rq_query = [], rq_body = stringify (JSObj ob)\<rparr>"
  "request_of (ajax_json m ''/env/'' ob) =
     \<lparr>rq_method = m, rq_path = ''/env/'', rq_query = [], rq_body = stringify (JSObj ob)\<rparr>"
  "request_of (ajax_json m ''/hostname/'' ob) =
     \<lparr>rq_method = m, rq_path = ''/hostname/'', rq_query = [], rq_body = stringify (JSObj ob)\<rparr>"
  "request_of (ajax_json m ''/hostname'' ob) =
     \<lparr>rq_method = m, rq_path = ''/hostname'', rq_query = [], rq_body = stringify (JSObj ob)\<rparr>"
  by (simp_all add: request_of_def ajax_get_def ajax_json_def url_clean_def Let_def ParseQuery_def query_encode_def
      query_pair_def)

lemma exchange_serve:
  "serve re jt r s = Inr (a, s') \<Longrightarrow> rs_status a \<noteq> 301 \<Longrightarrow> exchange re jt r s = Inr (a, s')"
  by (simp add: exchange_def)

lemma respond_status [simp]: "rs_status (respond st js b) = st" "rs_status (BadRequest js m) = 400"
  by (simp_all add: respond_def BadRequest_def)

lemma perform_find:
  assumes "jq_contract jq" and "served s c"
    and "ax_method a = GET" and "take (length find_prefix) (ax_url a) = find_prefix"
  shows "\<exists>r. perform jq re jt a s = Inr (r, s) \<and> good_answer (CbTable TableLoaded) r"
proof -
  have p: "rq_method (request_of a) = GET" "rq_path (request_of a) = ''/hostname/find/''"
    using assms(3) find_path [OF assms(4)] by (simp_all add: request_of_def Let_def)
  then have "serve re jt (request_of a) s = find_hostname re (request_of a) s"
    by (simp add: serve_def)
  then obtain res where res: "serve re jt (request_of a) s = Inr (res, s)"
    and "res = BadRequest True ''env not found'' \<or>
      (\<exists>n hs. res = respond 200 True (JsonBody (JArr (map (encode_hostname \<circ> vo_of n) hs))))"
    by (auto simp: find_hostname_served [OF assms(2)] split: option.splits)
  then have "rs_status res \<noteq> 301" "good_answer (CbTable TableLoaded) (jq res)"
    by (auto simp: good_answer_def jq_contractD [OF assms(1)] rows_answer_def as_objects_rows row_of_ok list_all_iff)
  then show ?thesis using exchange_serve [OF res] by (simp add: perform_def)
qed

lemma perform_active:
  assumes "jq_contract jq" and "served s c"
  shows "\<exists>s'. perform jq re jt (ajax_get ''/env/active'') s =
    Inr (AjaxDone (JSObj [(''name'', JSStr (ActiveEnv c))]), s') \<and> served s' c"
proof -
  obtain s' where "get_env_active (request_of (ajax_get ''/env/active'')) s =
      Inr (respond 200 True (JsonBody (JObj [(''name'', JStr (ActiveEnv c))])), s')" "served s' c"
    using get_env_active_served [OF assms(2)] by blast
  then show ?thesis
    by (simp add: perform_def request_of_literals exchange_def serve_def jq_contractD [OF assms(1)])
qed

lemma perform_envs:
  assumes "jq_contract jq" and "served s c"
  shows "\<exists>s' vs. perform jq re jt (ajax_get ''/env/'') s = Inr (AjaxDone (JSArr (map (json_parse \<circ> encode_env) vs)), s')
    \<and> served s' c \<and> map voName vs = env_names c"
proof -
  obtain s' vs where "get_env (request_of (ajax_get ''/env/'')) s =
      Inr (respond 200 True (JsonBody (JArr (map encode_env vs))), s')" "served s' c" "map voName vs = env_names c"
    using get_env_served [OF assms(2)] by blast
  then show ?thesis
    by (auto simp: perform_def request_of_literals exchange_def serve_def jq_contractD [OF assms(1)])
qed

lemma reply_of_simps [simp]: "reply_of (Inr u) ok js = ok" "reply_of (Inl m) ok js = BadRequest js m"
  by (simp_all add: reply_of_def case_unit_Unity)

lemma post_hostname_reply:
  assumes "post_hostname jt r s = Inr (res, s')"
  shows "res = respond 201 False NoBody \<or> (\<exists>js m. res = BadRequest js m)"
proof (cases "decode_hostname (rq_body r)")
  case (Pair v e)
  show ?thesis
  proof (cases e)
    case None
    show ?thesis
    proof (cases "local_AddHostname (voEnv v) (ToHostname v) s")
      case (Inr b)
      obtain x t where "b = (x, t)" by (cases b)
      with assms Pair None Inr have "res = reply_of x (respond 201 False NoBody) False"
        by (simp add: post_hostname_def)
      then show ?thesis by (cases x) auto
    qed (use assms Pair None in \<open>simp add: post_hostname_def\<close>)
  qed (use assms Pair in \<open>auto simp: post_hostname_def\<close>)
qed

lemma perform_post_hostname:
  assumes "jq_contract jq" and "served s c"
    and "ax_method a = POST" and "ax_url a = ''/hostname/''"
  shows "\<exists>r s'. perform jq re jt a s = Inr (r, s') \<and> good_answer (CbForm RecordSaved) r"
proof -
  have "request_of a = \<lparr>rq_method = POST, rq_path = ''/hostname/'', rq_query = [], rq_body = ax_data a\<rparr>"
    using request_of_literals(5) assms(3,4) by (simp add: request_of_def ajax_json_def Let_def)
  then have "serve re jt (request_of a) s = post_hostname jt (request_of a) s" by (simp add: serve_def)
  then obtain res s' where r: "post_hostname jt (request_of a) s = Inr (res, s')"
      and x: "serve re jt (request_of a) s = Inr (res, s')"
    using handlers_stay(8) [OF assms(2), of jt "request_of a"] by (auto simp: stays_def)
  from post_hostname_reply [OF r] have "rs_status res \<noteq> 301" "good_answer (CbForm RecordSaved) (jq res)"
    by (auto simp: good_answer_def refusal_def jq_contractD [OF assms(1)])
  then show ?thesis using exchange_serve [OF x] by (simp add: perform_def)
qed

lemma perform_stays: "served s c \<Longrightarrow> stays (perform jq re jt a s)"
  using exchange_stays [of s c re jt "request_of a"] by (auto simp: perform_def stays_def)

lemma perform_good:
  assumes jq: "jq_contract jq" and s: "served s c" and a: "asks a cb"
    and p: "perform jq re jt a s = Inr (r, s')"
  shows "good_answer cb r \<and> (\<exists>c'. served s' c')"
proof
  show "\<exists>c'. served s' c'" using perform_stays [OF s, of jq re jt a] p by (auto simp: stays_def)
  consider "cb = CbActive" | "cb = CbTable TableLoaded" | "cb = CbForm RecordSaved"
    | i where "cb = CbPicker i EnvListed"
    | "cb \<noteq> CbActive \<and> cb \<noteq> CbTable TableLoaded \<and> cb \<noteq> CbForm RecordSaved \<and> (\<forall>i. cb \<noteq> CbPicker i EnvListed)"
    by blast
  then show "good_answer cb r"
  proof cases
    case 1
    with a p perform_active [OF jq s, of re jt] show ?thesis
      by (auto simp: asks_def good_answer_def named_answer_def js_get_def)
  next
    case 2
    with a p perform_find [OF jq s, of a re jt] show ?thesis by (auto simp: asks_def)
  next
    case 3
    with a p perform_post_hostname [OF jq s, of a re jt] show ?thesis by (auto simp: asks_def)
  next
    case 4
    with a p perform_envs [OF jq s, of re jt] show ?thesis
      by (auto simp: asks_def good_answer_def env_entries_def json_parse_env list_all_iff)
  next
    case 5
    then show ?thesis
      by (auto simp: good_answer_def split: ajax_result.split callback.split env_picker_callback.split
          record_table_callback.split)
  qed
qed

section \<open>Properties\<close>

text \<open>
  C34. The two programs agree on addresses. For every address of the server, the page prints the array
  it was sent as the text Go prints; the form and the row editor, given that text, store again the
  array that was sent; and Go reads the text back to the address.
\<close>

theorem address_agreement:
  assumes "length bs = 4"
  shows "formatIp (json_parse (JArr (map (\<lambda>b. JNum (uint b)) bs))) = Inr (ToIpString bs) \<and>
    parse_ip_text (ToIpString bs) = json_parse (JArr (map (\<lambda>b. JNum (uint b)) bs)) \<and>
    JSArr (parse_row_ip (ToIpString bs)) = json_parse (JArr (map (\<lambda>b. JNum (uint b)) bs)) \<and>
    ToIpByteArray zero_ip (ToIpString bs) = Inr bs"
proof -
  have q: "quad (map unat bs)" using assms by (rule goip.octets_quad)
  have "json_parse (JArr (map (\<lambda>b. JNum (uint b)) bs)) = JSArr (num_ip (map unat bs))"
    by (simp add: o_def js_num_u8 byte_nums)
  then show ?thesis
    using goip.parse_render [OF assms] q
    by (simp add: formatIp_def ToIpString_dotted join_num_ip parse_ip_text_dotted parse_row_dotted)
qed

theorem address_agreement_witness:
  "formatIp (json_parse (JArr (map (\<lambda>b. JNum (uint b)) [10, 0, 0, 255 :: u8]))) = Inr (ToIpString [10, 0, 0, 255])"
  using address_agreement [of "[10, 0, 0, 255]"] by simp

end
