(* ===== verification/HomeInv.thy ===== *)
theory HomeInv
  imports Console
begin

text \<open>
  The invariant of the page (\<open>home_inv\<close>): what is mounted follows from the state of \<open>Home\<close>, and
  the state of every child is such that it renders. Every event that the rendered page accepts,
  and every answer of the shape the server gives, keeps it.
\<close>

section \<open>Listeners of a nested component\<close>

lemma target_name_map [simp]: "target_name (map (map_attr f) as) = target_name as"
proof -
  have "attr_of (map (map_attr f) as) n = attr_of as n" for n by (induction as n rule: attr_of.induct) auto
  then show ?thesis by (simp add: target_name_def)
qed

lemma listeners_map: "listeners (map (map_attr f) as) = map (\<lambda>(ev, h). (ev, f h)) (listeners as)"
  by (induction as rule: listeners.induct) auto

lemma elements_map: "elements (map_vnode f t) = map (map (map_attr f)) (elements t)"
  by (induction t rule: elements.induct) (auto simp: map_concat o_def cong: map_cong)

lemma handlers_map: "handlers (map (map_vnode f) ts) = map (\<lambda>(ev, n, h). (ev, n, f h)) (handlers ts)"
  by (simp add: handlers_def map_concat elements_map listeners_map o_def case_prod_unfold)

section \<open>The invariant\<close>

definition children_ok :: "home \<Rightarrow> bool" where
  "children_ok h \<longleftrightarrow> home_mounted h \<and> is_str (home_env h) \<and>
     (case home_picker h of None \<Rightarrow> True | Some (_, p) \<Rightarrow> env_entries (envList p) \<and> is_str (current p)) \<and>
     (case home_form h of None \<Rightarrow> True | Some f \<Rightarrow> form_inv f) \<and>
     (case home_table h of None \<Rightarrow> True | Some t \<Rightarrow> table_inv t) \<and>
     (isLoading h \<longrightarrow> \<not> createEnv h)"

definition layout :: "home \<Rightarrow> bool" where
  "layout h \<longleftrightarrow>
     (if isLoading h then home_picker h = None \<and> home_form h = None \<and> home_table h = None
      else (home_picker h = None) = createEnv h \<and> home_form h \<noteq> None \<and> home_table h \<noteq> None)"

definition home_inv :: "home \<Rightarrow> bool" where
  "home_inv h \<longleftrightarrow> children_ok h \<and> layout h"

text \<open>A handler that the page offers, with the name of its element.\<close>

definition offered :: "home \<Rightarrow> string \<times> home_handler \<Rightarrow> bool" where
  "offered h nx =
     (case snd nx of
        OnEnvForm y \<Rightarrow> createEnv h
      | OnPicker y \<Rightarrow> home_picker h \<noteq> None
      | OnRecordForm y \<Rightarrow>
          (case home_form h of None \<Rightarrow> False
           | Some f \<Rightarrow> \<exists>ev. (ev, fst nx, y) \<in> set (handlers (RecordForm_render f)))
      | OnTable y \<Rightarrow>
          (case home_table h of None \<Rightarrow> False
           | Some t \<Rightarrow> \<exists>a. a < length (tb_heap t) \<and> row_listener a (fst nx, y)))"

lemma NavBar_handlers: "handlers [NavBar_render] = []"
  by (simp add: NavBar_render_def nav_item_def js_simps)

lemma renderLoading_handlers: "handlers [renderLoading] = []"
  by (simp add: renderLoading_def js_simps)

lemma renderEnvs_ok:
  assumes "children_ok h"
  shows "\<exists>ts. renderEnvs h = Inr ts \<and> (\<forall>x \<in> set (handlers ts). offered h (snd x))"
proof (cases "createEnv h")
  case True
  then show ?thesis by (auto simp: renderEnvs_def handlers_map offered_def)
next
  case False
  show ?thesis
  proof (cases "home_picker h")
    case (Some ip)
    then obtain ts where "EnvPicker_render (snd ip) = Inr ts"
      using assms EnvPicker_render_ok [of "snd ip"] by (auto simp: children_ok_def)
    with False Some show ?thesis by (auto simp: renderEnvs_def handlers_map offered_def split: prod.split)
  qed (use False in \<open>simp add: renderEnvs_def js_simps\<close>)
qed

lemma render_table_child:
  assumes "children_ok h"
  shows "\<exists>ts. (case home_table h of None \<Rightarrow> Inr [] | Some t \<Rightarrow> RecordTable_render t) = Inr ts \<and>
    (\<forall>x \<in> set (handlers (map (map_vnode OnTable) ts)). offered h (snd x))"
proof (cases "home_table h")
  case (Some t)
  then have "table_inv t" using assms by (simp add: children_ok_def)
  from RecordTable_render_ok [OF this] Some show ?thesis
    by (fastforce simp: handlers_map offered_def)
qed (simp add: js_simps)

lemma form_child:
  "x \<in> set (handlers (map (map_vnode OnRecordForm) (case home_form h of None \<Rightarrow> [] | Some f \<Rightarrow> RecordForm_render f)))
   \<Longrightarrow> offered h (snd x)"
  by (cases "home_form h") (auto simp: handlers_map offered_def js_simps)

lemma Home_render_ok:
  assumes "children_ok h"
  shows "\<exists>ts. Home_render h = Inr ts \<and> (\<forall>x \<in> set (handlers ts). offered h (snd x))"
proof -
  obtain es where es: "renderEnvs h = Inr es" "\<forall>x \<in> set (handlers es). offered h (snd x)"
    using renderEnvs_ok [OF assms] by blast
  obtain tb where tb: "(case home_table h of None \<Rightarrow> Inr [] | Some t \<Rightarrow> RecordTable_render t) = Inr tb"
    "\<forall>x \<in> set (handlers (map (map_vnode OnTable) tb)). offered h (snd x)"
    using render_table_child [OF assms] by blast
  have cons: "handlers (Elem ''h3'' [] [Txt s] # es) = handlers es" for s
    by (cases es) (simp_all add: js_simps)
  show ?thesis
    using es(2) tb(2) form_child
    by (cases "isLoading h") (auto simp: Home_render_def renderTable_def es(1) tb(1) cons NavBar_handlers
        renderLoading_handlers js_simps)
qed

section \<open>State changes\<close>

text \<open>The exceptions that can reach the browser, and the requests that may be under way.\<close>

definition benign :: "js_error \<Rightarrow> bool" where
  "benign e \<longleftrightarrow> e = TypeError ''reload'' \<or> e = SyntaxError"

definition flight_ok :: "home \<Rightarrow> callback \<Rightarrow> bool" where
  "flight_ok h cb \<longleftrightarrow>
     (case cb of CbActivate env \<Rightarrow> is_str env | _ \<Rightarrow> True) \<and> (cb = CbActive \<or> \<not> isLoading h)"

definition eff_ok :: "home \<Rightarrow> callback effect \<Rightarrow> bool" where
  "eff_ok h e = (case e of Ajax a cb \<Rightarrow> asks a cb \<and> flight_ok h cb | Throw x \<Rightarrow> benign x | _ \<Rightarrow> True)"

definition good_step :: "home \<Rightarrow> home \<times> callback effect list \<Rightarrow> bool" where
  "good_step h res \<longleftrightarrow>
     home_inv (fst res) \<and> (isLoading (fst res) \<longrightarrow> isLoading h) \<and> list_all (eff_ok (fst res)) (snd res)"

lemma reconcile_ok: "children_ok h \<Longrightarrow> home_inv (reconcile h)"
proof -
  assume ok: "children_ok h"
  have "form_inv RecordForm_new"
    using RecordForm_new_inv by (simp add: form_inv_def RecordForm_componentDidMount_def processValueLabel_def)
  moreover have "env_entries (envList (EnvPicker_new (home_env h)))" "is_str (current (EnvPicker_new (home_env h)))"
    using ok by (auto simp: EnvPicker_new_def env_entries_def children_ok_def)
  ultimately show ?thesis
    using ok RecordTable_new_inv
    by (auto simp: home_inv_def children_ok_def layout_def reconcile_def Let_def split: option.splits)
qed

lemma did_mount_inv: "home_inv h \<Longrightarrow> home_inv (fst (did_mount old h))"
  by (auto simp: did_mount_def home_inv_def children_ok_def layout_def form_inv_def RecordForm_componentDidMount_def
      processValueLabel_def split: option.splits if_splits)

lemma find_url_take: "take (length find_prefix) (''/hostname/find/?env='' @ s) = find_prefix"
  by (simp add: find_prefix_def)

lemma reload_asks:
  "\<not> isLoading h \<Longrightarrow> list_all (eff_ok h) (wrap_table (reloadTable env))"
  "\<not> isLoading h \<Longrightarrow> list_all (eff_ok h) (wrap_picker i EnvPicker_reload)"
  using find_url_take
  by (simp_all add: wrap_table_def wrap_picker_def reloadTable_def EnvPicker_reload_def eff_ok_def asks_def
      flight_ok_def ajax_get_def)

lemma rerender_good:
  assumes "children_ok h"
  shows "good_step h (rerender h)" and "isLoading (fst (rerender h)) = isLoading h"
    and "home_env (fst (rerender h)) = home_env h"
proof -
  have i: "home_inv (reconcile h)" by (rule reconcile_ok [OF assms])
  then obtain ts where "Home_render (reconcile h) = Inr ts"
    using Home_render_ok by (auto simp: home_inv_def)
  then have r: "rerender h = did_mount h (reconcile h)" by (simp add: rerender_def)
  show l: "isLoading (fst (rerender h)) = isLoading h" and "home_env (fst (rerender h)) = home_env h"
    by (simp_all add: r did_mount_def reconcile_def Let_def)
  have "list_all (eff_ok (fst (rerender h))) (snd (rerender h))"
  proof (cases "isLoading h")
    case True
    then show ?thesis by (simp add: r did_mount_def reconcile_def)
  next
    case False
    then show ?thesis
      using l reload_asks [of "fst (rerender h)"]
      unfolding r did_mount_def EnvPicker_componentDidMount_def RecordTable_componentDidMount_def
      by (auto split: option.splits)
  qed
  then show "good_step h (rerender h)"
    using did_mount_inv [OF i] l by (simp add: good_step_def r)
qed

text \<open>A change below an unchanged layout is just that change.\<close>

lemma rerender_id: "home_inv h \<Longrightarrow> rerender h = (h, [])"
proof -
  assume i: "home_inv h"
  then have "reconcile h = h"
    by (cases h) (auto simp: home_inv_def layout_def reconcile_def Let_def split: option.splits if_splits)
  moreover obtain ts where "Home_render h = Inr ts"
    using Home_render_ok i by (auto simp: home_inv_def)
  ultimately show ?thesis
    by (cases h) (auto simp: rerender_def did_mount_def split: option.splits)
qed

lemma setState_id: "home_mounted h \<Longrightarrow> home_inv (f h) \<Longrightarrow> setState f h = (f h, [])"
  by (simp add: setState_def rerender_id)

section \<open>The functions passed to the children\<close>

lemma setState_good:
  assumes "home_inv h" and "children_ok (f h)" and "isLoading (f h) \<longrightarrow> isLoading h"
  shows "good_step h (setState f h)" and "isLoading (fst (setState f h)) = isLoading (f h)"
    and "home_env (fst (setState f h)) = home_env (f h)"
  using rerender_good [OF assms(2)] assms(1,3)
  by (auto simp: setState_def good_step_def home_inv_def children_ok_def)

lemma setState_mount:
  "home_mounted h \<Longrightarrow> children_ok (f h) \<Longrightarrow> setState f h = did_mount (f h) (reconcile (f h))"
  using Home_render_ok [of "reconcile (f h)"] reconcile_ok [of "f h"]
  by (auto simp: setState_def rerender_def home_inv_def)

lemma loaded_table: "home_inv h \<Longrightarrow> \<not> isLoading h \<Longrightarrow> home_table h \<noteq> None \<and> home_mounted h"
  by (simp add: home_inv_def layout_def children_ok_def)

lemma table_reload_loaded:
  "home_inv h \<Longrightarrow> \<not> isLoading h \<Longrightarrow> table_reload h = wrap_table (reloadTable (home_env h))"
  by (simp add: table_reload_def loaded_table)

lemma wrap_no_throw [simp]: "\<not> list_ex is_throw (wrap_table (reloadTable env))"
  by (simp add: wrap_table_def reloadTable_def is_throw_def)

lemma picker_reload_ok: "\<not> isLoading h \<Longrightarrow> list_all (eff_ok h) (picker_reload h)"
  using reload_asks(2) by (auto simp: picker_reload_def eff_ok_def benign_def split: option.splits)

lemma onUpdate_loaded:
  "home_inv h \<Longrightarrow> \<not> isLoading h \<Longrightarrow> onUpdate h = (h, wrap_table (reloadTable (home_env h)) @ picker_reload h)"
  by (simp add: onUpdate_def table_reload_loaded)

lemma home_prop_good:
  assumes h: "home_inv h" "\<not> isLoading h"
    and v: "n = ''onCreate'' \<or> n = ''onChange'' \<longrightarrow> (\<exists>v. vs = [v] \<and> is_str v)"
  shows "good_step h (home_prop n vs h)"
proof -
  have "children_ok (h\<lparr>createEnv := \<not> createEnv h\<rparr>)" using h by (simp add: home_inv_def children_ok_def)
  then have 1: "good_step h (toggleEnvForm h)"
    unfolding toggleEnvForm_def by (rule setState_good(1) [OF h(1)]) simp
  have 2: "good_step h (onChangeEnv v h)" if "is_str v" for v
    using h that by (simp add: good_step_def onChangeEnv_def eff_ok_def asks_def flight_ok_def)
  have 3: "good_step h (onUpdate h)"
    using h reload_asks(1) picker_reload_ok by (simp add: good_step_def onUpdate_loaded)
  show ?thesis
  proof (cases "n = ''onCreate'' \<or> n = ''onChange''")
    case True
    with v obtain v where "vs = [v]" "is_str v" by blast
    with 2 [of v] True show ?thesis by (elim disjE) (simp_all add: home_prop_def onCreate_def)
  next
    case False
    then show ?thesis using 1 3 2 [of "JSStr DEFAULT_ENV"] by (simp add: home_prop_def Let_def onDelete_def)
  qed
qed

text \<open>The effects of a child that \<open>Home\<close> can execute.\<close>

definition child_eff_ok :: "('c \<Rightarrow> callback) \<Rightarrow> 'c effect \<Rightarrow> bool" where
  "child_eff_ok w e =
     (case e of
        Ajax a c \<Rightarrow> asks a (w c) \<and> (case w c of CbActivate _ \<Rightarrow> False | CbActive \<Rightarrow> False | _ \<Rightarrow> True)
      | CallProp n vs \<Rightarrow> n = ''onCreate'' \<or> n = ''onChange'' \<longrightarrow> (\<exists>v. vs = [v] \<and> is_str v)
      | Throw x \<Rightarrow> benign x
      | Notify _ \<Rightarrow> True)"

lemma good_step_append:
  assumes "good_step h res" and "good_step (fst res) res'"
  shows "good_step h (fst res', snd res @ snd res')"
  using assms by (auto simp: good_step_def list_all_iff eff_ok_def flight_ok_def split: effect.splits)

lemma good_step_Cons: "good_step h res \<Longrightarrow> eff_ok (fst res) e \<Longrightarrow> good_step h (fst res, e # snd res)"
  by (simp add: good_step_def)

lemma good_step_refl: "home_inv h \<Longrightarrow> good_step h (h, [])"
  by (simp add: good_step_def)

lemma run_good:
  assumes "home_inv h" and "\<not> isLoading h" and "list_all (child_eff_ok w) es"
  shows "good_step h (run w es h)"
  using assms
proof (induction w es h rule: run.induct)
  case (1 w h)
  then show ?case by (simp add: good_step_refl)
next
  case (2 w a c es h)
  then have g: "good_step h (run w es h)" by simp
  then have "\<not> isLoading (fst (run w es h))" using 2 by (auto simp: good_step_def)
  then have "eff_ok (fst (run w es h)) (Ajax a (w c))"
    using 2 by (auto simp: eff_ok_def child_eff_ok_def flight_ok_def split: callback.splits)
  from good_step_Cons [OF g this] show ?case by (simp add: case_prod_unfold Let_def)
next
  case (3 w n es h)
  then have "good_step h (run w es h)" by simp
  from good_step_Cons [OF this, of "Notify n"] show ?case by (simp add: case_prod_unfold Let_def eff_ok_def)
next
  case (4 w e es h)
  then show ?case by (simp add: good_step_def child_eff_ok_def eff_ok_def)
next
  case (5 w n vs es h)
  have g: "good_step h (home_prop n vs h)"
    using 5(2-4) by (intro home_prop_good) (auto simp: child_eff_ok_def)
  show ?case
  proof (cases "list_ex is_throw (snd (home_prop n vs h))")
    case True
    with g show ?thesis by (simp add: case_prod_unfold Let_def)
  next
    case False
    have "good_step (fst (home_prop n vs h)) (run w es (fst (home_prop n vs h)))"
    proof (rule 5(1))
      show "(fst (home_prop n vs h), snd (home_prop n vs h)) = home_prop n vs h" by simp
      show "\<not> list_ex is_throw (snd (home_prop n vs h))" by (rule False)
    qed (use g 5(3,4) in \<open>auto simp: good_step_def\<close>)
    from good_step_append [OF g this] False show ?thesis by (simp add: case_prod_unfold Let_def)
  qed
qed

section \<open>Events\<close>

lemma fire_child:
  assumes "home_inv h" and "\<not> isLoading h" and "home_inv (f h)" and "isLoading (f h) = isLoading h"
    and "list_all (child_eff_ok w) es"
  shows "good_step h (let (h1, r1) = setState f h; (h2, r2) = run w es h1 in (h2, r1 @ r2))"
proof -
  have "setState f h = (f h, [])"
    using assms by (intro setState_id) (simp_all add: home_inv_def children_ok_def)
  moreover have "good_step (f h) (run w es (f h))" using assms by (intro run_good) simp_all
  ultimately show ?thesis using assms(4) by (auto simp: good_step_def split: prod.splits)
qed

lemma EnvForm_fire_ok: "list_all (child_eff_ok CbEnvForm) (EnvForm_fire y v)"
  by (cases y) (simp_all add: createEnvironment_def Let_def notice_def child_eff_ok_def asks_def)

lemma EnvPicker_fire_ok:
  assumes "env_entries (envList p) \<and> is_str (current p)"
  shows "list_all (child_eff_ok (CbPicker i)) (snd (EnvPicker_fire y v p))"
    and "env_entries (envList (fst (EnvPicker_fire y v p))) \<and> is_str (current (fst (EnvPicker_fire y v p)))"
  using assms
  by (cases y; simp add: EnvPicker_handleChanges_def deleteCurrent_def notice_def child_eff_ok_def asks_def)+

lemma RecordForm_fire_ok: "list_all (child_eff_ok CbForm) (snd (RecordForm_fire env y e f))"
  by (cases y) (simp_all add: handleSubmit_def child_eff_ok_def asks_def ajax_json_def)

lemma RecordTable_fire_ok: "list_all (child_eff_ok CbTable) (snd (RecordTable_fire env y e t))"
  by (cases y) (simp_all add: updateRecord_def deleteRecord_def Let_def child_eff_ok_def asks_def)

lemma offered_loaded: "home_inv h \<Longrightarrow> offered h nx \<Longrightarrow> \<not> isLoading h"
  by (auto simp: home_inv_def children_ok_def layout_def offered_def split: home_handler.splits option.splits if_splits)

lemma Home_fire_good:
  assumes h: "home_inv h" and x: "offered h (ev_name e, x)"
  shows "good_step h (Home_fire x e h)"
proof -
  have l: "\<not> isLoading h" using offered_loaded [OF h x] .
  show ?thesis
  proof (cases x)
    case (OnEnvForm y)
    with run_good [OF h l EnvForm_fire_ok] show ?thesis by (simp add: Home_fire_def)
  next
    case (OnPicker y)
    with x obtain i p where p: "home_picker h = Some (i, p)" by (auto simp: offered_def)
    then have ok: "env_entries (envList p) \<and> is_str (current p)" using h by (simp add: home_inv_def children_ok_def)
    have "home_inv (h\<lparr>home_picker := Some (i, fst (EnvPicker_fire y (ev_value e) p))\<rparr>)"
      using h p EnvPicker_fire_ok(2) [OF ok] by (auto simp: home_inv_def children_ok_def layout_def)
    from fire_child [where f = "\<lambda>h. h\<lparr>home_picker := Some (i, fst (EnvPicker_fire y (ev_value e) p))\<rparr>",
        OF h l this _ EnvPicker_fire_ok(1) [OF ok, of i y "ev_value e"]] OnPicker p show ?thesis
      by (simp add: Home_fire_def case_prod_unfold Let_def)
  next
    case (OnRecordForm y)
    with x obtain f ev where f: "home_form h = Some f" "(ev, ev_name e, y) \<in> set (handlers (RecordForm_render f))"
      by (auto simp: offered_def split: option.splits)
    then have "form_inv (fst (RecordForm_fire (home_env h) y e f))"
      using h by (intro RecordForm_fire_inv [OF _ f(2)]) (simp_all add: home_inv_def children_ok_def)
    then have "home_inv (h\<lparr>home_form := Some (fst (RecordForm_fire (home_env h) y e f))\<rparr>)"
      using h f by (auto simp: home_inv_def children_ok_def layout_def split: if_splits)
    from fire_child [where f = "\<lambda>g. g\<lparr>home_form := Some (fst (RecordForm_fire (home_env h) y e f))\<rparr>",
        OF h l this _ RecordForm_fire_ok [of "home_env h" y e f]] OnRecordForm f show ?thesis
      by (simp add: Home_fire_def case_prod_unfold Let_def)
  next
    case (OnTable y)
    with x obtain t a where t: "home_table h = Some t" "row_listener a (ev_name e, y)"
      by (auto simp: offered_def split: option.splits)
    then have "table_inv (fst (RecordTable_fire (home_env h) y e t))"
      using h by (intro RecordTable_fire_inv [OF _ t(2)]) (simp_all add: home_inv_def children_ok_def)
    then have "home_inv (h\<lparr>home_table := Some (fst (RecordTable_fire (home_env h) y e t))\<rparr>)"
      using h t by (auto simp: home_inv_def children_ok_def layout_def split: if_splits)
    from fire_child [where f = "\<lambda>g. g\<lparr>home_table := Some (fst (RecordTable_fire (home_env h) y e t))\<rparr>",
        OF h l this _ RecordTable_fire_ok [of "home_env h" y e t]] OnTable t show ?thesis
      by (simp add: Home_fire_def case_prod_unfold Let_def)
  qed
qed

section \<open>Answers\<close>

lemma settled_ok:
  "list_all (child_eff_ok CbEnvForm) (createEnvironment_settled n r)"
  "list_all (child_eff_ok (CbPicker i)) (deleteEnv_settled r)"
  "list_all (child_eff_ok CbTable) (updateRecord_settled r)"
  "list_all (child_eff_ok CbTable) (deleteRecord_settled env a r t)"
  using find_url_take
  by (auto simp: createEnvironment_settled_def deleteEnv_settled_def updateRecord_settled_def deleteRecord_settled_def
      reloadTable_def notice_def child_eff_ok_def asks_def ajax_get_def split: ajax_result.splits)

lemma handleSubmit_settled_ok:
  assumes "good_answer (CbForm RecordSaved) r"
  shows "list_all (child_eff_ok CbForm) (handleSubmit_settled r)"
proof (cases r)
  case (AjaxDone v)
  then show ?thesis by (simp add: handleSubmit_settled_def notice_def child_eff_ok_def)
next
  case (AjaxFail st b)
  with assms have "refusal b" by (simp add: good_answer_def)
  then have "b = NoBody \<or> (\<exists>kvs. b = JsonBody (JObj kvs))"
    by (auto simp: refusal_def split: payload.splits json.splits)
  with AjaxFail show ?thesis
    by (auto simp: handleSubmit_settled_def child_eff_ok_def benign_def)
qed

lemma onChangeEnv_settled_good:
  assumes h: "home_inv h" "\<not> isLoading h" and v: "is_str env"
  shows "good_step h (onChangeEnv_settled env r h)"
proof (cases "resolved r")
  case True
  let ?f = "\<lambda>h. h\<lparr>home_env := env, createEnv := False\<rparr>"
  have "children_ok (?f h)" using h v by (simp add: home_inv_def children_ok_def)
  then have g: "good_step h (setState ?f h)" and l: "\<not> isLoading (fst (setState ?f h))"
    using setState_good [OF h(1), of ?f] h(2) by simp_all
  then have "home_inv (fst (setState ?f h))" by (simp add: good_step_def)
  then have "onChangeEnv_settled env r h = (fst (setState ?f h),
      snd (setState ?f h) @ wrap_table (reloadTable (home_env (fst (setState ?f h)))))"
    using True l by (simp add: onChangeEnv_settled_def case_prod_unfold Let_def table_reload_loaded loaded_table)
  then show ?thesis using g l reload_asks(1) by (simp add: good_step_def)
next
  case False
  then show ?thesis using h by (simp add: onChangeEnv_settled_def good_step_def eff_ok_def notice_def)
qed

lemma rows_answer_D: "rows_answer v \<Longrightarrow> \<exists>obs. v = JSArr (map JSObj obs) \<and> list_all row_ok obs"
proof -
  have "as_objects vs = Some obs \<Longrightarrow> vs = map JSObj obs" for vs obs
    by (induction vs arbitrary: obs rule: as_objects.induct) auto
  then show "rows_answer v \<Longrightarrow> ?thesis"
    by (auto simp: rows_answer_def split: jsv.splits option.splits)
qed

lemma active_settled_good:
  assumes h: "home_inv h" and r: "good_answer CbActive r"
  shows "good_step h (Home_componentDidMount_settled r h)"
proof (cases r)
  case (AjaxDone v)
  with r obtain ob where ob: "v = JSObj ob" "is_str (js_get ob ''name'')"
    by (auto simp: good_answer_def named_answer_def split: jsv.splits)
  then have "children_ok (h\<lparr>isLoading := False, home_env := js_get ob ''name''\<rparr>)"
    using h by (simp add: home_inv_def children_ok_def)
  then show ?thesis
    using setState_good(1) [OF h, of "\<lambda>h. h\<lparr>isLoading := False, home_env := js_get ob ''name''\<rparr>"] AjaxDone ob
    by (simp add: Home_componentDidMount_settled_def)
next
  case (AjaxFail st b)
  then show ?thesis
    using h by (simp add: Home_componentDidMount_settled_def good_step_def eff_ok_def notice_def)
qed

lemma child_settled_good:
  assumes h: "home_inv h" and "home_inv (f h)" and "isLoading (f h) = isLoading h"
  shows "good_step h (setState f h)"
proof -
  have "setState f h = (f h, [])"
    using assms by (intro setState_id) (simp_all add: home_inv_def children_ok_def)
  then show ?thesis using assms by (simp add: good_step_def)
qed

lemma listed_settled_good:
  assumes h: "home_inv h" and p: "home_picker h = Some (i, p)" and r: "good_answer (CbPicker i EnvListed) r"
  shows "good_step h (setState (\<lambda>h. h\<lparr>home_picker := Some (i, EnvPicker_reload_settled r p)\<rparr>) h)"
proof (rule child_settled_good [OF h])
  have "env_entries (envList (EnvPicker_reload_settled r p))"
    using h p r by (auto simp: EnvPicker_reload_settled_def good_answer_def home_inv_def children_ok_def
        split: ajax_result.splits)
  then show "home_inv (h\<lparr>home_picker := Some (i, EnvPicker_reload_settled r p)\<rparr>)"
    using h p by (auto simp: home_inv_def children_ok_def layout_def EnvPicker_reload_settled_def
        split: ajax_result.splits)
qed simp

lemma loaded_settled_good:
  assumes h: "home_inv h" and t: "home_table h = Some t" and r: "good_answer (CbTable TableLoaded) r"
  shows "good_step h (setState (\<lambda>h. h\<lparr>home_table := Some (reloadTable_settled r t)\<rparr>) h)"
proof (rule child_settled_good [OF h])
  have ti: "table_inv t" using h t by (simp add: home_inv_def children_ok_def)
  have "table_inv (reloadTable_settled r t)"
  proof (cases r)
    case (AjaxDone v)
    with r obtain obs where "v = JSArr (map JSObj obs)" "list_all row_ok obs"
      using rows_answer_D by (auto simp: good_answer_def)
    with table_inv_table_of [OF ti] AjaxDone show ?thesis by (simp add: reloadTable_settled_def)
  qed (simp add: ti)
  then show "home_inv (h\<lparr>home_table := Some (reloadTable_settled r t)\<rparr>)"
    using h t by (auto simp: home_inv_def children_ok_def layout_def split: if_splits)
qed simp

lemma settle_good:
  assumes h: "home_inv h" and f: "flight_ok h cb" and r: "good_answer cb r"
  shows "good_step h (settle cb r h)"
proof (cases cb)
  case CbActive
  then show ?thesis using active_settled_good [OF h] r by (simp add: settle_def)
next
  case (CbActivate env)
  then show ?thesis
    using onChangeEnv_settled_good [OF h, of env r] f by (simp add: settle_def flight_ok_def)
next
  case (CbEnvForm c)
  then obtain n where "c = EnvCreated n" by (cases c)
  then show ?thesis
    using CbEnvForm f run_good [OF h _ settled_ok(1)] by (simp add: settle_def flight_ok_def)
next
  case (CbPicker i c)
  have l: "\<not> isLoading h" using f CbPicker by (simp add: flight_ok_def)
  show ?thesis
  proof (cases c)
    case EnvListed
    then show ?thesis
      using CbPicker r listed_settled_good [OF h] good_step_refl [OF h]
      by (auto simp: settle_def split: option.split)
  next
    case EnvDeleted
    then show ?thesis using CbPicker run_good [OF h l settled_ok(2)] by (simp add: settle_def)
  qed
next
  case (CbForm c)
  have "c = RecordSaved" by (cases c)
  then show ?thesis
    using CbForm f r run_good [OF h _ handleSubmit_settled_ok] by (simp add: settle_def flight_ok_def)
next
  case (CbTable c)
  have l: "\<not> isLoading h" using f CbTable by (simp add: flight_ok_def)
  then obtain t where t: "home_table h = Some t" using loaded_table [OF h] by auto
  show ?thesis
  proof (cases c)
    case TableLoaded
    then show ?thesis using CbTable r loaded_settled_good [OF h t] t by (simp add: settle_def)
  next
    case RowUpdated
    then show ?thesis using CbTable run_good [OF h l settled_ok(3)] by (simp add: settle_def)
  next
    case (RowDeleted a)
    then show ?thesis using CbTable run_good [OF h l settled_ok(4)] t by (simp add: settle_def)
  qed
qed

end
