(* ===== verification/World.thy ===== *)
theory World
  imports HomeInv
begin

text \<open>
  The console as a whole: the page of theory \<open>Home\<close>, the requests under way, and the server. The
  rules of \<open>step\<close> are the events of the user on the rendered page, the server working on a request
  that is under way, the loss of a connection before or after that, and the delivery of an
  outcome. Requests are served and outcomes delivered in any order.
\<close>

section \<open>Steps\<close>

datatype flight = Sent ajax callback | Answered callback ajax_result

record 'm world =
  w_home :: home
  w_flight :: "flight list"
  w_notes :: "notification list"
  w_errors :: "js_error list"
  w_server :: "'m server"

fun emit_one :: "callback effect \<Rightarrow> 'm world \<Rightarrow> 'm world" where
  "emit_one (Ajax a cb) w = w\<lparr>w_flight := w_flight w @ [Sent a cb]\<rparr>"
| "emit_one (Notify n) w = w\<lparr>w_notes := w_notes w @ [n]\<rparr>"
| "emit_one (Throw e) w = w\<lparr>w_errors := w_errors w @ [e]\<rparr>"
| "emit_one (CallProp _ _) w = w"

definition emit :: "home \<times> callback effect list \<Rightarrow> 'm world \<Rightarrow> 'm world" where
  "emit res w = fold emit_one (snd res) (w\<lparr>w_home := fst res\<rparr>)"

text \<open>\<open>index.js\<close>: render \<open>Home\<close> into the root element.\<close>

definition app_start :: "'m server \<Rightarrow> 'm world" where
  "app_start s =
     emit (Home_new, Home_componentDidMount)
       \<lparr>w_home = Home_new, w_flight = [], w_notes = [], w_errors = [], w_server = s\<rparr>"

text \<open>What happens without the user: the server works on a request, a connection is lost before or after
  that, an outcome is delivered.\<close>

inductive net_step ::
  "(response \<Rightarrow> ajax_result) \<Rightarrow> (string \<Rightarrow> string \<Rightarrow> bool) \<Rightarrow> (jerr \<Rightarrow> string) \<Rightarrow> 'm world \<Rightarrow> 'm world \<Rightarrow> bool"
  for jq re jt where
  serve: "i < length (w_flight w) \<Longrightarrow> w_flight w ! i = Sent a cb \<Longrightarrow>
      perform jq re jt a (w_server w) = Inr (r, s') \<Longrightarrow>
      net_step jq re jt w (w\<lparr>w_flight := (w_flight w)[i := Answered cb r], w_server := s'\<rparr>)"
| lost: "i < length (w_flight w) \<Longrightarrow> w_flight w ! i = Sent a cb \<Longrightarrow>
      net_step jq re jt w (w\<lparr>w_flight := (w_flight w)[i := Answered cb (AjaxFail 0 NoBody)]\<rparr>)"
| unanswered: "i < length (w_flight w) \<Longrightarrow> w_flight w ! i = Sent a cb \<Longrightarrow>
      perform jq re jt a (w_server w) = Inr (r, s') \<Longrightarrow>
      net_step jq re jt w (w\<lparr>w_flight := (w_flight w)[i := Answered cb (AjaxFail 0 NoBody)], w_server := s'\<rparr>)"
| deliver: "i < length (w_flight w) \<Longrightarrow> w_flight w ! i = Answered cb r \<Longrightarrow>
      net_step jq re jt w (emit (settle cb r (w_home w)) (w\<lparr>w_flight := remove_nth i (w_flight w)\<rparr>))"

inductive step ::
  "(response \<Rightarrow> ajax_result) \<Rightarrow> (string \<Rightarrow> string \<Rightarrow> bool) \<Rightarrow> (jerr \<Rightarrow> string) \<Rightarrow> 'm world \<Rightarrow> 'm world \<Rightarrow> bool"
  for jq re jt where
  user: "home_mounted (w_home w) \<Longrightarrow> Home_render (w_home w) = Inr ts \<Longrightarrow>
      (ev, ev_name e, x) \<in> set (handlers ts) \<Longrightarrow>
      step jq re jt w (emit (Home_fire x e (w_home w)) w)"
| net: "net_step jq re jt w w' \<Longrightarrow> step jq re jt w w'"

inductive reachable ::
  "(response \<Rightarrow> ajax_result) \<Rightarrow> (string \<Rightarrow> string \<Rightarrow> bool) \<Rightarrow> (jerr \<Rightarrow> string) \<Rightarrow> 'm server \<Rightarrow> 'm world \<Rightarrow> bool"
  for jq re jt s where
  start: "reachable jq re jt s (app_start s)"
| more: "reachable jq re jt s w \<Longrightarrow> step jq re jt w w' \<Longrightarrow> reachable jq re jt s w'"

inductive_cases stepE: "step jq re jt w w'"
inductive_cases net_stepE: "net_step jq re jt w w'"

section \<open>The invariant of the whole\<close>

definition flight_inv :: "home \<Rightarrow> flight \<Rightarrow> bool" where
  "flight_inv h x =
     (case x of Sent a cb \<Rightarrow> asks a cb \<and> flight_ok h cb | Answered cb r \<Rightarrow> good_answer cb r \<and> flight_ok h cb)"

definition world_inv :: "'m world \<Rightarrow> bool" where
  "world_inv w \<longleftrightarrow> home_inv (w_home w) \<and> list_all (flight_inv (w_home w)) (w_flight w) \<and>
     list_all benign (w_errors w) \<and> (\<exists>c. served (w_server w) c)"

lemma emit_fields:
  "w_home (fold emit_one es w) = w_home w" "w_server (fold emit_one es w) = w_server w"
  "w_flight (fold emit_one es w) =
     w_flight w @ concat (map (\<lambda>e. case e of Ajax a cb \<Rightarrow> [Sent a cb] | _ \<Rightarrow> []) es)"
  "w_errors (fold emit_one es w) = w_errors w @ concat (map (\<lambda>e. case e of Throw x \<Rightarrow> [x] | _ \<Rightarrow> []) es)"
  "w_notes (fold emit_one es w) = w_notes w @ concat (map (\<lambda>e. case e of Notify n \<Rightarrow> [n] | _ \<Rightarrow> []) es)"
proof (induction es arbitrary: w)
  case (Cons e es)
  { case 1 show ?case by (cases e) (simp_all add: Cons) }
  { case 2 show ?case by (cases e) (simp_all add: Cons) }
  { case 3 show ?case by (cases e) (simp_all add: Cons) }
  { case 4 show ?case by (cases e) (simp_all add: Cons) }
  { case 5 show ?case by (cases e) (simp_all add: Cons) }
qed simp_all

lemma emit_home [simp]: "w_home (emit res w) = fst res"
  by (simp add: emit_def emit_fields)

lemma flight_inv_mono:
  "flight_inv h x \<Longrightarrow> isLoading h' \<longrightarrow> isLoading h \<Longrightarrow> flight_inv h' x"
  by (auto simp: flight_inv_def flight_ok_def split: flight.splits)

lemma emit_inv:
  assumes "good_step (w_home w) res" and "list_all (flight_inv (w_home w)) (w_flight w)"
    and "list_all benign (w_errors w)" and "served (w_server w) c"
  shows "world_inv (emit res w)"
proof -
  have "list_all (flight_inv (fst res)) (w_flight w)"
    using assms(1,2) flight_inv_mono by (fastforce simp: good_step_def list_all_iff)
  moreover have "list_all (flight_inv (fst res)) (concat (map (\<lambda>e. case e of Ajax a cb \<Rightarrow> [Sent a cb] | _ \<Rightarrow> []) (snd res)))"
    "list_all benign (concat (map (\<lambda>e. case e of Throw x \<Rightarrow> [x] | _ \<Rightarrow> []) (snd res)))"
    using assms(1)
    by (fastforce simp: good_step_def list_all_iff eff_ok_def flight_inv_def split: effect.splits)+
  ultimately show ?thesis
    using assms by (auto simp: world_inv_def emit_def emit_fields good_step_def)
qed

lemma app_start_inv: "served s c \<Longrightarrow> world_inv (app_start s)"
  unfolding app_start_def
  by (rule emit_inv [where c = c])
    (simp_all add: good_step_def Home_new_def Home_componentDidMount_def getActiveEnvironment_def home_inv_def
      children_ok_def layout_def eff_ok_def asks_def flight_ok_def)

lemma good_lost: "good_answer cb (AjaxFail 0 NoBody)"
  by (simp add: good_answer_def refusal_def)

lemma flights_put:
  "list_all (flight_inv h) fs \<Longrightarrow> flight_inv h x \<Longrightarrow> list_all (flight_inv h) (fs[i := x])"
  by (auto simp: list_all_iff dest!: subsetD [OF set_update_subset_insert])

lemma net_step_inv:
  assumes jq: "jq_contract jq" and w: "world_inv w" and "net_step jq re jt w w'"
  shows "world_inv w'"
  using assms(3)
proof cases
  case (serve i a cb r s')
  then have f: "flight_inv (w_home w) (Sent a cb)" using w by (auto simp: world_inv_def list_all_length)
  obtain c where "served (w_server w) c" using w by (auto simp: world_inv_def)
  from perform_good [OF jq this _ serve(4)] f have "good_answer cb r" "\<exists>c'. served s' c'"
    by (auto simp: flight_inv_def)
  with w f serve(1) show ?thesis by (auto simp: world_inv_def flight_inv_def intro!: flights_put)
next
  case (lost i a cb)
  then have "flight_inv (w_home w) (Sent a cb)" using w by (auto simp: world_inv_def list_all_length)
  with w lost(1) show ?thesis by (auto simp: world_inv_def flight_inv_def good_lost intro!: flights_put)
next
  case (unanswered i a cb r s')
  then have f: "flight_inv (w_home w) (Sent a cb)" using w by (auto simp: world_inv_def list_all_length)
  obtain c where "served (w_server w) c" using w by (auto simp: world_inv_def)
  from perform_good [OF jq this _ unanswered(4)] f have "\<exists>c'. served s' c'" by (auto simp: flight_inv_def)
  with w f unanswered(1) show ?thesis by (auto simp: world_inv_def flight_inv_def good_lost intro!: flights_put)
next
  case (deliver i cb r)
  then have f: "flight_inv (w_home w) (Answered cb r)" using w by (auto simp: world_inv_def list_all_length)
  obtain c where c: "served (w_server w) c" using w by (auto simp: world_inv_def)
  have "list_all (flight_inv (w_home w)) (remove_nth i (w_flight w))"
    using w set_remove_nth by (fastforce simp: world_inv_def list_all_iff)
  moreover have "good_step (w_home w) (settle cb r (w_home w))"
    using w f by (intro settle_good) (simp_all add: world_inv_def flight_inv_def)
  ultimately show ?thesis
    unfolding deliver(1) using w c by (intro emit_inv [where c = c]) (simp_all add: world_inv_def)
qed

lemma step_inv:
  assumes jq: "jq_contract jq" and w: "world_inv w" and "step jq re jt w w'"
  shows "world_inv w'"
  using assms(3)
proof cases
  case (user ts ev e x)
  have "offered (w_home w) (ev_name e, x)"
    using Home_render_ok [of "w_home w"] w user by (auto simp: world_inv_def home_inv_def)
  then have "good_step (w_home w) (Home_fire x e (w_home w))"
    using w by (intro Home_fire_good) (simp_all add: world_inv_def)
  moreover obtain c where "served (w_server w) c" using w by (auto simp: world_inv_def)
  ultimately show ?thesis
    unfolding user(1) using w by (intro emit_inv [where c = c]) (simp_all add: world_inv_def)
next
  case net
  with jq w show ?thesis by (rule net_step_inv)
qed

lemma reachable_inv:
  assumes "reachable jq re jt s w" and "jq_contract jq" and "served s c"
  shows "world_inv w"
  using assms by (induction rule: reachable.induct) (auto intro: app_start_inv step_inv)

end
