(* ===== verification/Flows.thy ===== *)
theory Flows
  imports World
begin

text \<open>
  What a user's action does to the stored configuration, end to end: the object a component sends
  as JSON, what Go decodes from it, and the operation of \<open>local.go\<close> that follows.
\<close>

section \<open>Bodies\<close>

definition json_ip :: "nat list \<Rightarrow> json" where
  "json_ip ns = JArr (map (\<lambda>n. JNum (int n)) ns)"

lemma stringify_num_ip: "stringify (JSArr (num_ip ns)) = Some (json_ip ns)"
  by (simp add: num_ip_def json_ip_def o_def)

lemma decode_ip_json: "quad ns \<Longrightarrow> decode_ip fld zero_ip (json_ip ns) = (map word_of_nat ns, None)"
  by (auto simp: json_ip_def zero_ip_def numeral_eq_Suc keep_first_def dest!: quad_cases)

lemma ToIpString_of_nat: "quad ns \<Longrightarrow> ToIpString (map word_of_nat ns) = dotted ns"
  unfolding ToIpString_dotted by (metis map_unat_of_nat quad_def)

lemmas decode_field_simps = decode_hostname_field_def go_field_def hostname_tags_def Let_def keep_first_def

lemma decode_form_body:
  assumes "quad ns" and "in_int64 k"
  shows "decode_hostname (Some (JObj [(''hostname'', JStr n), (''ip'', json_ip ns), (''target'', JStr t),
      (''type'', JStr ty), (''ttl'', JNum k), (''env'', JStr e)])) =
    (\<lparr>voId = '''', voHostname = n, voIp = map word_of_nat ns, voTarget = t, voTtl = k, voType = ty, voEnv = e\<rparr>, None)"
  using assms
  by (simp add: decode_hostname_def decode_field_simps decode_ip_json empty_voHostname_def)

lemma decode_row_body:
  assumes "quad ns" and "in_int64 k"
  shows "decode_hostname (Some (JObj [(''env'', JStr e), (''id'', JStr i), (''type'', JStr ty),
      (''hostname'', JStr n), (''ip'', json_ip ns), (''target'', JStr t), (''ttl'', JNum k)])) =
    (\<lparr>voId = i, voHostname = n, voIp = map word_of_nat ns, voTarget = t, voTtl = k, voType = ty, voEnv = e\<rparr>, None)"
  using assms
  by (simp add: decode_hostname_def decode_field_simps decode_ip_json empty_voHostname_def)

lemma decode_delete_body:
  "decode_hostname (Some (JObj [(''env'', JStr e), (''hostname'', JStr n)])) =
    (empty_voHostname\<lparr>voHostname := n, voEnv := e\<rparr>, None)"
  by (simp add: decode_hostname_def decode_field_simps empty_voHostname_def)

lemma decode_name_body: "decode_env (Some (JObj [(''name'', JStr n)])) = (\<lparr>voName = n, voHostnames = []\<rparr>, None)"
  by (simp add: decode_env_def decode_env_field_def go_field_def env_tags_def Let_def keep_first_def empty_voEnv_def)

lemma vo_parseInt_empty: "vo_parseInt '''' = 0"
  by (simp add: vo_parseInt_def)

section \<open>Creating a record\<close>

text \<open>The record a submitted form denotes.\<close>

definition form_record :: "string \<Rightarrow> nat list \<Rightarrow> string \<Rightarrow> string \<Rightarrow> int \<Rightarrow> Hostname" where
  "form_record n ns t ty k = \<lparr>hId = 0, hHostname = n, hIp = dotted ns, hTarget = t, hTtl = k, hType = ty\<rparr>"

lemma form_body_json:
  assumes "form_inv f" and "js_get (fm_form f) ''hostname'' = JSStr n"
    and "js_get (fm_form f) ''ip'' = ip" and "stringify ip = Some jip" and "js_get (fm_form f) ''target'' = JSStr t"
    and "js_get (fm_form f) ''type'' = JSStr ty" and "js_get (fm_form f) ''ttl'' = JSNum (JInt k)"
  shows "stringify (JSObj (form_body (JSStr e) f)) =
    Some (JObj [(''hostname'', JStr n), (''ip'', jip), (''target'', JStr t), (''type'', JStr ty),
      (''ttl'', JNum k), (''env'', JStr e)])"
proof -
  have "fm_form f = [(''hostname'', JSStr n), (''ip'', ip), (''target'', JSStr t), (''type'', JSStr ty),
      (''ttl'', JSNum (JInt k))]"
    using form_inv_fields [OF assms(1)] assms(2-7) by simp
  then show ?thesis using assms(4) by (simp add: form_body_def)
qed

lemma submit_record:
  assumes jq: "jq_contract jq" and s: "served s c" and f: "form_inv f"
    and v: "js_get (fm_form f) ''hostname'' = JSStr n" "js_get (fm_form f) ''ip'' = JSArr (num_ip ns)"
      "js_get (fm_form f) ''target'' = JSStr t" "js_get (fm_form f) ''type'' = JSStr ty"
      "js_get (fm_form f) ''ttl'' = JSNum (JInt k)"
    and ok: "quad ns" "in_int64 k" "ty \<noteq> ''''" "records c e = Some rs" "n \<notin> set (hostname_names rs)"
  shows "\<exists>s' c'. perform jq re jt (ajax_json POST ''/hostname/'' (form_body (JSStr e) f)) s = Inr (AjaxDone (JSStr ''''), s') \<and>
    served s' c' \<and> store_empty (srv_store s') \<and> length (caches (srv_store s')) = length (caches (srv_store s)) \<and>
    ActiveEnv c' = ActiveEnv c \<and>
    records c' = (records c)(e \<mapsto> rs @ [stamp_id (srv_clock s (srv_ticks s)) (form_record n ns t ty k)])"
proof -
  let ?h = "form_record n ns t ty k"
  let ?r = "request_of (ajax_json POST ''/hostname/'' (form_body (JSStr e) f))"
  have body: "rq_body ?r = Some (JObj [(''hostname'', JStr n), (''ip'', json_ip ns), (''target'', JStr t),
      (''type'', JStr ty), (''ttl'', JNum k), (''env'', JStr e)])"
    using form_body_json [OF f v(1,2) stringify_num_ip v(3-5)] by (simp add: request_of_literals)
  obtain c' where c': "AddHostname (srv_clock s (srv_ticks s)) c e ?h = Inr c'"
    "records c' = (records c)(e \<mapsto> rs @ [stamp_id (srv_clock s (srv_ticks s)) ?h])"
    using conf.add_ok [OF ok(4), of ?h] ok(3,5) by (auto simp: form_record_def)
  have "quad_text (hIp ?h)" "in_int64 (hId ?h)"
    using ok(1) by (auto simp: form_record_def quad_text_def in_int64_def int64_min_def int64_max_def)
  from AddHostname_served [OF s this c'(1)] obtain s' where
    s': "local_AddHostname e ?h s = Inr (Inr (), s')" "served s' c'" "store_empty (srv_store s')" by blast
  have "post_hostname jt ?r s = Inr (respond 201 False NoBody, s')"
    using s'(1) ok(1) by (simp add: post_hostname_def body decode_form_body [OF ok(1,2)] ToHostname_def
        vo_parseInt_empty ToIpString_of_nat form_record_def)
  then have "serve re jt ?r s = Inr (respond 201 False NoBody, s')"
    by (simp add: serve_def request_of_literals)
  then have "perform jq re jt (ajax_json POST ''/hostname/'' (form_body (JSStr e) f)) s = Inr (AjaxDone (JSStr ''''), s')"
    by (simp add: perform_def exchange_def jq_contractD [OF jq])
  with s' c' local_AddHostname_caches [OF s'(1)] AddHostname_active [OF c'(1)] show ?thesis by blast
qed

text \<open>
  A form whose address Go cannot decode is refused. The field that was never touched still holds the
  text \<open>192.168.0.1\<close>, which is not the array Go expects; an octet above 255 does not fit a byte.
\<close>

lemma decode_bad_ip:
  assumes "in_int64 k" and "snd (decode_ip ''ip'' zero_ip jip) = Some (UnmarshalTypeErr ''ip'')"
  shows "snd (decode_hostname (Some (JObj [(''hostname'', JStr n), (''ip'', jip), (''target'', JStr t),
      (''type'', JStr ty), (''ttl'', JNum k), (''env'', JStr e)]))) = Some (UnmarshalTypeErr ''ip'')"
  using assms by (simp add: decode_hostname_def decode_field_simps empty_voHostname_def case_prod_unfold)

lemma decode_big_octet:
  "length ns = 4 \<Longrightarrow> \<not> quad ns \<Longrightarrow> snd (decode_ip ''ip'' zero_ip (json_ip ns)) = Some (UnmarshalTypeErr ''ip'')"
  by (auto simp: json_ip_def zero_ip_def numeral_eq_Suc length_Suc_conv keep_first_def quad_def)

lemma submit_bad_ip:
  assumes jq: "jq_contract jq" and f: "form_inv f"
    and v: "js_get (fm_form f) ''hostname'' = JSStr n" "js_get (fm_form f) ''ip'' = ip" "stringify ip = Some jip"
      "js_get (fm_form f) ''target'' = JSStr t" "js_get (fm_form f) ''type'' = JSStr ty"
      "js_get (fm_form f) ''ttl'' = JSNum (JInt k)"
    and k: "in_int64 k" "snd (decode_ip ''ip'' zero_ip jip) = Some (UnmarshalTypeErr ''ip'')"
  shows "perform jq re jt (ajax_json POST ''/hostname/'' (form_body (JSStr e) f)) s =
    Inr (AjaxFail 400 (JsonBody (JObj [(''code'', JNum 400),
      (''message'', JStr (''Invalid JSON: '' @ jt (UnmarshalTypeErr ''ip'')))])), s)"
proof -
  let ?r = "request_of (ajax_json POST ''/hostname/'' (form_body (JSStr e) f))"
  have body: "rq_body ?r = Some (JObj [(''hostname'', JStr n), (''ip'', jip), (''target'', JStr t),
      (''type'', JStr ty), (''ttl'', JNum k), (''env'', JStr e)])"
    using form_body_json [OF f v] by (simp add: request_of_literals)
  have "post_hostname jt ?r s = Inr (BadRequest True (''Invalid JSON: '' @ jt (UnmarshalTypeErr ''ip'')), s)"
    unfolding post_hostname_def body using decode_bad_ip [OF k]
    by (simp add: case_prod_unfold)
  then have "serve re jt ?r s = Inr (BadRequest True (''Invalid JSON: '' @ jt (UnmarshalTypeErr ''ip'')), s)"
    by (simp add: serve_def request_of_literals)
  then show ?thesis by (simp add: perform_def exchange_def jq_contractD [OF jq])
qed

section \<open>Editing and deleting\<close>

text \<open>\<open>PUT /hostname\<close> and \<open>DELETE /hostname\<close> reach their handler by way of a redirect.\<close>

lemma exchange_redirect:
  assumes "rq_path r = ''/hostname''" and "rq_method r \<noteq> POST"
  shows "exchange re jt r s = serve re jt (r\<lparr>rq_path := ''/hostname/''\<rparr>) s"
  using assms by (simp add: exchange_def serve_def moved_def redirected_def)

lemma update_row:
  assumes jq: "jq_contract jq" and s: "served s c" and a: "a < length (tb_heap t)"
    and v: "js_get (row_at t a) ''id'' = JSStr (go_FormatInt i)" "js_get (row_at t a) ''type'' = JSStr ty"
      "js_get (row_at t a) ''hostname'' = JSStr n" "js_get (row_at t a) ''ip'' = JSArr (num_ip ns)"
      "js_get (row_at t a) ''target'' = JSStr tg" "js_get (row_at t a) ''ttl'' = JSNum (JInt k)"
    and ok: "quad ns" "in_int64 k" "in_int64 i" "records c e = Some rs" "i \<in> hId ` set rs"
    and u: "updateRecord (JSStr e) a t = (t', [Ajax req cb])"
  shows "\<exists>s' c'. perform jq re jt req s = Inr (AjaxDone (JSStr ''''), s') \<and> served s' c' \<and> store_empty (srv_store s') \<and>
    records c' = (records c)(e \<mapsto> update_first (\<lambda>r. hId r = i)
      (\<lambda>r. assign_fields r ((form_record n ns tg ty k)\<lparr>hId := i\<rparr>)) rs)"
proof -
  let ?h = "(form_record n ns tg ty k)\<lparr>hId := i\<rparr>"
  have req: "req = ajax_json PUT ''/hostname'' [(''env'', JSStr e), (''id'', JSStr (go_FormatInt i)), (''type'', JSStr ty),
      (''hostname'', JSStr n), (''ip'', JSArr (num_ip ns)), (''target'', JSStr tg), (''ttl'', JSNum (JInt k))]"
    using u a v by (auto simp: updateRecord_def Let_def)
  let ?r = "request_of req"
  have r: "?r = \<lparr>rq_method = PUT, rq_path = ''/hostname'', rq_query = [], rq_body = Some (JObj [(''env'', JStr e),
      (''id'', JStr (go_FormatInt i)), (''type'', JStr ty), (''hostname'', JStr n), (''ip'', json_ip ns),
      (''target'', JStr tg), (''ttl'', JNum k)])\<rparr>"
    unfolding req request_of_literals using stringify_num_ip [of ns] by simp
  obtain c' where c': "UpdateHostname c e ?h = Inr c'"
    "records c' = (records c)(e \<mapsto> update_first (\<lambda>r. hId r = i) (\<lambda>r. assign_fields r ?h) rs)"
    using conf.upd_ok [OF ok(4), of ?h] ok(5) by auto
  have "quad_text (hIp ?h)" using ok(1) by (auto simp: form_record_def quad_text_def)
  from UpdateHostname_served [OF s this c'(1)] obtain s' where
    s': "local_UpdateHostname e ?h s = Inr (Inr (), s')" "served s' c'" "store_empty (srv_store s')" by blast
  have h: "ToHostname \<lparr>voId = go_FormatInt i, voHostname = n, voIp = map word_of_nat ns, voTarget = tg,
      voTtl = k, voType = ty, voEnv = e\<rparr> = ?h"
    using ok by (simp add: ToHostname_def vo_parseInt_def go_ParseInt_FormatInt ToIpString_of_nat form_record_def)
  have "put_hostname (?r\<lparr>rq_path := ''/hostname/''\<rparr>) s = Inr (respond 200 False NoBody, s')"
    using s'(1) by (simp add: put_hostname_def r decode_row_body [OF ok(1,2)] h)
  then have "exchange re jt ?r s = Inr (respond 200 False NoBody, s')"
    by (subst exchange_redirect) (simp_all add: r serve_def)
  then have "perform jq re jt req s = Inr (AjaxDone (JSStr ''''), s')"
    by (simp add: perform_def jq_contractD [OF jq])
  with s' c' show ?thesis by blast
qed

lemma delete_row:
  assumes jq: "jq_contract jq" and s: "served s c" and v: "js_get (row_at t a) ''hostname'' = JSStr n"
    and ok: "records c e = Some rs" "n \<in> set (hostname_names rs)"
    and u: "deleteRecord (JSStr e) a t = [Ajax req cb]"
  shows "\<exists>s' c'. perform jq re jt req s = Inr (AjaxDone (JSStr ''''), s') \<and> served s' c' \<and> store_empty (srv_store s') \<and>
    records c' = (records c)(e \<mapsto> remove_first (\<lambda>r. hHostname r = n) rs)"
proof -
  have req: "req = ajax_json DELETE ''/hostname'' [(''env'', JSStr e), (''hostname'', JSStr n)]"
    using u v by (simp add: deleteRecord_def)
  let ?r = "request_of req"
  have r: "?r = \<lparr>rq_method = DELETE, rq_path = ''/hostname'', rq_query = [],
      rq_body = Some (JObj [(''env'', JStr e), (''hostname'', JStr n)])\<rparr>"
    unfolding req request_of_literals by simp
  obtain c' where c': "RemoveHostnameByEnvAndHostname c e n = Inr c'"
    "records c' = (records c)(e \<mapsto> remove_first (\<lambda>r. hHostname r = n) rs)"
    using conf.del_ok [OF ok] by blast
  from RemoveHostname_served [OF s c'(1)] obtain s' where
    s': "local_RemoveHostname e n s = Inr (Inr (), s')" "served s' c'" "store_empty (srv_store s')" by blast
  have "delete_hostname (?r\<lparr>rq_path := ''/hostname/''\<rparr>) s = Inr (respond 200 False NoBody, s')"
    using s'(1) by (simp add: delete_hostname_def r decode_delete_body)
  then have "exchange re jt ?r s = Inr (respond 200 False NoBody, s')"
    by (subst exchange_redirect) (simp_all add: r serve_def)
  then have "perform jq re jt req s = Inr (AjaxDone (JSStr ''''), s')"
    by (simp add: perform_def jq_contractD [OF jq])
  with s' c' show ?thesis by blast
qed

section \<open>Environments\<close>

lemma name_request:
  "request_of (ajax_json m ''/env/'' [(''name'', JSStr n)]) =
     \<lparr>rq_method = m, rq_path = ''/env/'', rq_query = [], rq_body = Some (JObj [(''name'', JStr n)])\<rparr>"
  "request_of (activate (JSStr n)) =
     \<lparr>rq_method = PUT, rq_path = ''/env/active'', rq_query = [], rq_body = Some (JObj [(''name'', JStr n)])\<rparr>"
  by (simp_all add: activate_def request_of_literals)

lemma create_env:
  assumes jq: "jq_contract jq" and s: "served s c" and n: "n \<notin> set (env_names c)"
  shows "\<exists>s' c'. perform jq re jt (ajax_json POST ''/env/'' [(''name'', JSStr n)]) s = Inr (AjaxFail 200 NoBody, s') \<and>
    served s' c' \<and> records c' = (records c)(n \<mapsto> []) \<and> env_names c' = env_names c @ [n] \<and> ActiveEnv c' = ActiveEnv c"
proof -
  let ?e = "\<lparr>envName = n, Hostnames = []\<rparr>"
  let ?c = "c\<lparr>Envs := Envs c @ [?e]\<rparr>"
  have "GetEnv c n = None" using n by (simp add: GetEnv_None_iff)
  then have a: "AddEnv c ?e = Inr ?c" by (simp add: AddEnv_def)
  obtain s' where s': "local_AddEnv ?e s = Inr (Inr (), s')" "served s' ?c"
    using AddEnv_served [OF s a] by auto
  have "post_env (request_of (ajax_json POST ''/env/'' [(''name'', JSStr n)])) s = Inr (respond 200 True NoBody, s')"
    using s'(1) by (simp add: post_env_def name_request decode_name_body ToEnv_def fromV1Hostnames_def)
  then have "perform jq re jt (ajax_json POST ''/env/'' [(''name'', JSStr n)]) s = Inr (AjaxFail 200 NoBody, s')"
    by (simp add: perform_def exchange_def serve_def name_request jq_contractD [OF jq])
  moreover have "records ?c = (records c)(n \<mapsto> [])" using records_append_env [of ?e c] n by simp
  moreover have "env_names ?c = env_names c @ [n]" by (simp add: env_names_def)
  ultimately show ?thesis using s'(2) by (intro exI [of _ s'] exI [of _ ?c]) simp
qed

lemma activate_env:
  assumes jq: "jq_contract jq" and s: "served s c" and n: "n \<in> set (env_names c)"
  shows "\<exists>s' c'. perform jq re jt (activate (JSStr n)) s = Inr (AjaxFail 200 NoBody, s') \<and>
    served s' c' \<and> records c' = records c \<and> env_names c' = env_names c \<and> ActiveEnv c' = n"
proof -
  let ?e = "\<lparr>envName = n, Hostnames = []\<rparr>"
  let ?c = "c\<lparr>ActiveEnv := n\<rparr>"
  obtain i where "GetEnv c n = Some i" using n by (metis GetEnv_None_iff option.exhaust)
  then have a: "SetActiveEnv c ?e = Inr ?c" by (simp add: SetActiveEnv_def)
  obtain s' where s': "local_SetActiveEnv ?e s = Inr (Inr (), s')" "served s' ?c"
    using SetActiveEnv_served [OF s a] by auto
  have "put_env_active (request_of (activate (JSStr n))) s = Inr (respond 200 True NoBody, s')"
    using s'(1) by (simp add: put_env_active_def name_request decode_name_body ToEnv_def fromV1Hostnames_def)
  then have "perform jq re jt (activate (JSStr n)) s = Inr (AjaxFail 200 NoBody, s')"
    by (simp add: perform_def exchange_def serve_def name_request jq_contractD [OF jq])
  then show ?thesis using s'(2) by (intro exI [of _ s'] exI [of _ ?c]) (auto simp: conf_simps fun_eq_iff)
qed

lemma activate_unknown_env:
  assumes jq: "jq_contract jq" and s: "served s c" and n: "n \<notin> set (env_names c)"
  shows "\<exists>b. perform jq re jt (activate (JSStr n)) s = Inr (AjaxFail 400 b, s)"
proof -
  let ?e = "\<lparr>envName = n, Hostnames = []\<rparr>"
  have "GetEnv c n = None" using n by (simp add: GetEnv_None_iff)
  then have "local_SetActiveEnv ?e s = Inr (Inl (''Env not found: '' @ n), s)"
    unfolding local_SetActiveEnv_def
    by (intro transact_served_Err [OF s]) (simp add: SetActiveEnv_def)
  then have "put_env_active (request_of (activate (JSStr n))) s = Inr (BadRequest True (''Env not found: '' @ n), s)"
    by (simp add: put_env_active_def name_request decode_name_body ToEnv_def fromV1Hostnames_def)
  then show ?thesis
    by (simp add: perform_def exchange_def serve_def name_request jq_contractD [OF jq])
qed

lemma delete_env_flow:
  assumes jq: "jq_contract jq" and s: "served s c" and n: "n \<in> set (env_names c)" and two: "length (Envs c) \<noteq> 1"
  shows "\<exists>s' c'. perform jq re jt (ajax_json DELETE ''/env/'' [(''name'', JSStr n)]) s = Inr (AjaxFail 200 NoBody, s') \<and>
    served s' c' \<and> records c' = (records c)(n := None) \<and> ActiveEnv c' = ActiveEnv c"
proof -
  obtain i where i: "GetEnv c n = Some i" using n by (metis GetEnv_None_iff option.exhaust)
  let ?c = "RemoveEnv c i"
  have "length (Envs ?c) \<noteq> 0"
    using GetEnv_Some [OF i] two by (simp add: RemoveEnv_def length_remove_nth)
  then have e: "ensure_env ?c = ?c" by (auto simp: ensure_env_def)
  have a: "RemoveEnvByName c n = Inr ?c" using i by (simp add: RemoveEnvByName_def)
  obtain s' where s': "local_RemoveEnvByName n s = Inr (Inr (), s')" "served s' ?c"
    using RemoveEnv_served [OF s a] e by auto
  have "GetEnv c n = Some i" "conf_wf c" using i s by (simp_all add: served_def)
  then have "records ?c = (records c)(n := None)" by (intro records_remove_env)
  moreover have "delete_env (request_of (ajax_json DELETE ''/env/'' [(''name'', JSStr n)])) s = Inr (respond 200 True NoBody, s')"
    using s'(1) by (simp add: delete_env_def name_request decode_name_body)
  then have "perform jq re jt (ajax_json DELETE ''/env/'' [(''name'', JSStr n)]) s = Inr (AjaxFail 200 NoBody, s')"
    by (simp add: perform_def exchange_def serve_def name_request jq_contractD [OF jq])
  moreover have "ActiveEnv ?c = ActiveEnv c" by (simp add: RemoveEnv_def)
  ultimately show ?thesis using s'(2) by blast
qed

section \<open>Loading the table\<close>

text \<open>\<open>find_all re\<close>: the expression of an empty search matches every name.\<close>

definition find_all :: "(string \<Rightarrow> string \<Rightarrow> bool) \<Rightarrow> bool" where
  "find_all re \<longleftrightarrow> (\<forall>x. re ''.*.*'' x)"

lemma load_table:
  assumes jq: "jq_contract jq" and s: "served s c" and re: "find_all re" and e: "url_safe e" and rs: "records c e = Some rs"
    and u: "reloadTable (JSStr e) = [Ajax req cb]"
  shows "perform jq re jt req s = Inr (AjaxDone (JSArr (map (JSObj \<circ> row_of e) rs)), s)"
proof -
  have req: "request_of req = \<lparr>rq_method = GET, rq_path = ''/hostname/find/'',
      rq_query = [(''env'', e), (''hostname'', '''')], rq_body = None\<rparr>"
    using u request_of_find [OF e] by (auto simp: reloadTable_def)
  have q: "query_get (request_of req) ''env'' = e" "query_get (request_of req) ''hostname'' = ''''"
    by (simp_all add: req query_get_def)
  have f: "filter (\<lambda>h. re (''.*'' @ '''' @ ''.*'') (hHostname h)) rs = rs"
    using re by (simp add: find_all_def)
  have "find_hostname re (request_of req) s =
      Inr (respond 200 True (JsonBody (JArr (map (encode_hostname \<circ> vo_of e) rs))), s)"
    unfolding find_hostname_served [OF s] q rs option.case f ..
  then have "exchange re jt (request_of req) s =
      Inr (respond 200 True (JsonBody (JArr (map (encode_hostname \<circ> vo_of e) rs))), s)"
    by (simp add: exchange_def serve_def req)
  then show ?thesis
    by (simp add: perform_def jq_contractD [OF jq] json_parse_row o_def)
qed

end
