(* ===== verification/Demo.thy ===== *)
theory Demo
  imports Flows
begin

text \<open>
  One concrete server and page, on which the general theorems are shown to apply: a configuration
  with the environments \<open>Default\<close> (the empty name) and \<open>qa\<close>, three records, and a clock that
  stands at one instant.
\<close>

definition demo_hosts :: "Hostname list" where
  "demo_hosts =
     [\<lparr>hId = 7, hHostname = ''a.com'', hIp = ''10.0.0.1'', hTarget = '''', hTtl = 60, hType = ''A''\<rparr>,
      \<lparr>hId = 8, hHostname = ''b.com'', hIp = ''10.0.0.2'', hTarget = '''', hTtl = 60, hType = ''A''\<rparr>]"

definition demo_conf :: Configuration where
  "demo_conf = default_config\<lparr>Envs :=
     [\<lparr>envName = '''', Hostnames = demo_hosts\<rparr>,
      \<lparr>envName = ''qa'', Hostnames =
         [\<lparr>hId = 9, hHostname = ''q.com'', hIp = ''10.0.1.1'', hTarget = '''', hTtl = 5, hType = ''A''\<rparr>]\<rparr>]\<rparr>"

definition demo_server :: "unit server" where
  "demo_server = \<lparr>srv_file = file_of demo_conf, srv_mkdir_ok = True, srv_writable = True,
     srv_store = \<lparr>mainCache = \<lparr>lru_size = 10, lru_entries = []\<rparr>, caches = []\<rparr>, srv_clock = (\<lambda>_. 1000), srv_ticks = 0\<rparr>"

abbreviation demo_re :: "string \<Rightarrow> string \<Rightarrow> bool" where
  "demo_re \<equiv> (\<lambda>_ _. True)"

abbreviation demo_jt :: "jerr \<Rightarrow> string" where
  "demo_jt \<equiv> (\<lambda>_. '''')"

lemma demo_quads: "quad_text ''10.0.0.1''" "quad_text ''10.0.0.2''" "quad_text ''10.0.1.1''"
proof -
  have "dotted [10, 0, 0, 1] = ''10.0.0.1''" "dotted [10, 0, 0, 2] = ''10.0.0.2''" "dotted [10, 0, 1, 1] = ''10.0.1.1''"
    by code_simp+
  moreover have "quad [10, 0, 0, 1]" "quad [10, 0, 0, 2]" "quad [10, 0, 1, 1]" by (simp_all add: quad_def)
  ultimately show "quad_text ''10.0.0.1''" "quad_text ''10.0.0.2''" "quad_text ''10.0.1.1''"
    unfolding quad_text_def by metis+
qed

lemma demo_served: "served demo_server demo_conf"
  by (simp add: served_def holds_def demo_server_def demo_conf_def demo_hosts_def default_config_def expressible_def
      expresses2_def ids_set_def hosts_of_def conf_wf_def env_names_def host_served_def demo_quads clock_ok_def
      in_int64_def int64_min_def int64_max_def)

lemma demo_records:
  "records demo_conf '''' = Some demo_hosts" "set (env_names demo_conf) = {'''', ''qa''}"
  by (simp_all add: records_def GetEnv_def demo_conf_def env_names_def)

lemma demo_find_all: "find_all demo_re"
  by (simp add: find_all_def)

text \<open>The page after the active environment has been fetched.\<close>

definition demo_picker :: env_picker where
  "demo_picker = \<lparr>envList = JSArr [], current = JSStr ''''\<rparr>"

definition demo_home :: home where
  "demo_home = \<lparr>forceUpdate = JSNull, createEnv = False, isLoading = False, home_env = JSStr '''',
     home_mounted = True, home_picker = Some (0, demo_picker),
     home_form = Some (RecordForm_componentDidMount RecordForm_new), home_table = Some RecordTable_new,
     home_instances = 1\<rparr>"

lemma demo_home_inv: "home_inv demo_home"
  by (simp add: home_inv_def children_ok_def layout_def demo_home_def demo_picker_def env_entries_def
      RecordForm_new_inv RecordTable_new_inv)

lemma demo_home_loaded: "\<not> isLoading demo_home" "\<not> createEnv demo_home" "home_mounted demo_home"
  by (simp_all add: demo_home_def)

lemma demo_settled: "fst (settle CbActive (AjaxDone (JSObj [(''name'', JSStr '''')])) Home_new) = demo_home"
proof -
  let ?h = "Home_new\<lparr>isLoading := False, home_env := JSStr ''''\<rparr>"
  have "children_ok ?h" by (simp add: children_ok_def Home_new_def)
  then have "home_inv (reconcile ?h)" by (rule reconcile_ok)
  then obtain ts where "Home_render (reconcile ?h) = Inr ts" using Home_render_ok by (auto simp: home_inv_def)
  then have "fst (rerender ?h) = fst (did_mount ?h (reconcile ?h))" by (simp add: rerender_def)
  also have "\<dots> = demo_home"
    by (simp add: did_mount_def reconcile_def demo_home_def Home_new_def EnvPicker_new_def demo_picker_def)
  finally show ?thesis
    by (simp add: settle_def Home_componentDidMount_settled_def setState_def js_get_def Home_new_def)
qed

lemma demo_reachable: "\<exists>w. reachable jq_std demo_re demo_jt demo_server w \<and> w_home w = demo_home"
proof -
  let ?w = "app_start demo_server" and ?r = "AjaxDone (JSObj [(''name'', JSStr '''')])"
  have w: "w_flight ?w = [Sent getActiveEnvironment CbActive]" "w_server ?w = demo_server" "w_home ?w = Home_new"
    by (simp_all add: app_start_def emit_def Home_componentDidMount_def)
  have "ActiveEnv demo_conf = ''''" by (simp add: demo_conf_def default_config_def)
  then obtain s' where "perform jq_std demo_re demo_jt getActiveEnvironment demo_server = Inr (?r, s')"
    using perform_active [OF jq_std_contract demo_served] by (auto simp: getActiveEnvironment_def)
  with w have "step jq_std demo_re demo_jt ?w (?w\<lparr>w_flight := [Answered CbActive ?r], w_server := s'\<rparr>)"
    using step.net [OF net_step.serve [of 0 ?w getActiveEnvironment CbActive jq_std demo_re demo_jt ?r s']] by simp
  then have r: "reachable jq_std demo_re demo_jt demo_server (?w\<lparr>w_flight := [Answered CbActive ?r], w_server := s'\<rparr>)"
    by (rule reachable.more [OF reachable.start])
  let ?w' = "?w\<lparr>w_flight := [Answered CbActive ?r], w_server := s'\<rparr>"
  let ?v = "emit (settle CbActive ?r (w_home ?w')) (?w'\<lparr>w_flight := remove_nth 0 (w_flight ?w')\<rparr>)"
  have "step jq_std demo_re demo_jt ?w' ?v"
    by (rule step.net, rule net_step.deliver) simp_all
  with r have "reachable jq_std demo_re demo_jt demo_server ?v" by (rule reachable.more)
  moreover have "w_home ?v = demo_home" using demo_settled w by simp
  ultimately show ?thesis by blast
qed

text \<open>A table that shows the records of the demo configuration.\<close>

definition demo_table :: record_table where
  "demo_table = table_of (JSArr (map JSObj (map (row_of '''') demo_hosts))) RecordTable_new"

lemma demo_table_rows:
  "length (tb_heap demo_table) = 2" "row_at demo_table 0 = row_of '''' (demo_hosts ! 0)"
  "row_at demo_table 1 = row_of '''' (demo_hosts ! 1)"
  unfolding demo_table_def table_of_objects
  by (simp_all add: RecordTable_new_def row_at_def demo_hosts_def)

lemma demo_hosts_nth: "demo_hosts ! 0 \<in> set demo_hosts" "hId (demo_hosts ! 0) = 7" "hHostname (demo_hosts ! 1) = ''b.com''"
  by (simp_all add: demo_hosts_def)

end
