(* ===== verification/Resolution.thy ===== *)
theory Resolution
  imports Demo Solver
begin

text \<open>
  What a client of the DNS server gets: theorems on the solvers of theory \<open>Solver\<close>, alone and together
  with the console of theory \<open>Flows\<close>, and one concrete server on which they are shown to apply.
\<close>

section \<open>A concrete server\<close>

definition dns_hosts :: "Hostname list" where
  "dns_hosts =
     [\<lparr>hId = 7, hHostname = ''a.com'', hIp = ''10.0.0.1'', hTarget = '''', hTtl = 60, hType = ''A''\<rparr>,
      \<lparr>hId = 8, hHostname = ''.com'', hIp = ''10.0.0.2'', hTarget = '''', hTtl = 60, hType = ''A''\<rparr>,
      \<lparr>hId = 9, hHostname = ''w.org'', hIp = ''10.0.0.2'', hTarget = ''gone.org'', hTtl = 60, hType = ''CNAME''\<rparr>]"

definition dns_conf :: Configuration where
  "dns_conf = default_config\<lparr>Envs := [\<lparr>envName = '''', Hostnames = dns_hosts\<rparr>]\<rparr>"

text \<open>The clock goes on by one nanosecond at each reading.\<close>

definition dns_server :: "dns_msg server" where
  "dns_server = \<lparr>srv_file = file_of dns_conf, srv_mkdir_ok = True, srv_writable = True,
     srv_store = \<lparr>mainCache = \<lparr>lru_size = 10, lru_entries = []\<rparr>,
       caches = [NewTimed \<lparr>lru_size = 4096, lru_entries = []\<rparr> 30]\<rparr>,
     srv_clock = (\<lambda>j. if j < 1000 then 1000 + int j else 2000), srv_ticks = 0\<rparr>"

definition dns_demo :: dns_world where
  "dns_demo = \<lparr>dw_server = dns_server, dw_docker = \<lparr>lru_size = 10, lru_entries = []\<rparr>\<rparr>"

text \<open>Remote servers that know no name: every answer has the code 3.\<close>

definition nxdomain :: dns_msg where
  "nxdomain = \<lparr>Rcode = 3, Answer = [], Ns = [], Extra = []\<rparr>"

definition demo_outside :: outside where
  "demo_outside = \<lparr>o_env = (\<lambda>_. ''''),
     o_flags = \<lparr>fWebServerPort = 5380, fDnsServerPort = 53, fSetupResolvconf = True, fLogLevel = ''INFO'',
       fLogToFile = ''console'', fRegisterContainerNames = False, fHostMachineHostname = ''host.docker'',
       fDomain = ''docker'', fDpsNetwork = False, fDpsNetworkAutoConnect = False\<rparr>,
     o_resolv = \<lparr>rc_text = Some [], rc_writable = True\<rparr>,
     o_docker = \<lparr>IsDockerConnected = False, FindDpsContainerIP = None, FindDpsNetworkGatewayIp = None, GetGatewayIp = None\<rparr>,
     o_addrs = Some [], o_ask = (\<lambda>_ _. Some nxdomain)\<rparr>"

lemma dns_served: "served (dw_server dns_demo) dns_conf"
  by (simp add: dns_demo_def served_def holds_def dns_server_def dns_conf_def dns_hosts_def default_config_def
      expressible_def expresses2_def ids_set_def hosts_of_def conf_wf_def env_names_def host_served_def demo_quads
      clock_ok_def in_int64_def int64_min_def int64_max_def)

lemma dns_records: "records dns_conf (ActiveEnv dns_conf) = Some dns_hosts"
  by (simp add: records_def GetEnv_def dns_conf_def default_config_def)

section \<open>Properties\<close>

text \<open>
  C40. The solver for local records answers a question for \<open>n\<close> from the active environment: with the
  record named \<open>n\<close>, else with the record named after the longest suffix of \<open>n\<close> that starts at a dot
  (a wildcard record, such as \<open>.acme.com\<close>); a record of an unknown type is passed over. When there is
  none it reports that the name is not found, and the server's state does not change.
\<close>

theorem local_resolution:
  assumes "served (dw_server w) c" and "records c (ActiveEnv c) = Some rs" and "qName q = n @ ''.''"
  shows "Solve ext LocalDnsSolver q w =
    Inr (case local_answer q rs (n # host_suffixes (''.'' @ n)) of
           Some m \<Rightarrow> (Some m, None) | None \<Rightarrow> (None, Some (HostnameNotFound n)), w)"
  using local_Solve_served [OF assms] by simp

theorem local_resolution_witness:
  "Solve demo_outside LocalDnsSolver \<lparr>qName = ''x.a.com.'', Qtype = 1\<rparr> dns_demo =
     Inr ((Some (answer_msg [\<lparr>rrName = ''x.a.com.'', Rrtype = 1, rrClass = 1, Ttl = 60, rrData = RA [10, 0, 0, 2]\<rparr>]), None), dns_demo)"
proof -
  let ?q = "\<lparr>qName = ''x.a.com.'', Qtype = 1\<rparr>"
  have q: "qName ?q = ''x.a.com'' @ ''.''" by simp
  have "host_suffixes (''.'' @ ''x.a.com'') = [''.x.a.com'', ''.a.com'', ''.com'']" by code_simp
  moreover have "ToIpByteArray zero_ip ''10.0.0.2'' = Inr [10, 0, 0, 2]" by code_simp
  ultimately show ?thesis
    using local_resolution [OF dns_served dns_records q, of demo_outside]
    by (simp add: dns_hosts_def host_answer_def TypeA_def ClassINET_def)
qed

text \<open>
  C20. An answer that was put into the cache of a solver is given again, without asking the solver behind
  it, as long as its time to live has not passed; every answer then carries the whole seconds that are
  left, which are never more than the time it was stored with.
\<close>

theorem cached_answer_counts_down:
  fixes w :: dns_world and i :: nat
  defines "clk \<equiv> \<lambda>j. srv_clock (dw_server w) (srv_ticks (dw_server w) + j)"
  assumes "i < length (caches (srv_store (dw_server w)))" and "timed_inv (caches (srv_store (dw_server w)) ! i)"
    and "cache_PutTTL i (getHostnameKey q) m (uint (getTtl m)) w = Inr ((), w1)"
    and "clk 0 \<le> clk 1" and "clk 1 \<le> clk 2" and "clk 2 - clk 0 < uint (getTtl m) * second"
  shows "\<exists>w2 t. Solve ext (CacheDnsSolver i d) q w1 =
      Inr ((Some (m\<lparr>Answer := map (\<lambda>v. v\<lparr>Ttl := t\<rparr>) (Answer m)\<rparr>), None), w2) \<and>
    uint t = uint (getTtl m) - (clk 2 - clk 0 + second - 1) div second \<and> t \<le> getTtl m"
proof -
  let ?key = "getHostnameKey q" and ?T = "uint (getTtl m)"
  let ?left = "?T * second - (clk 2 - clk 0)"
  let ?c = "PutTTL (clk 0) (caches (srv_store (dw_server w)) ! i) ?key m ?T"
  define v where "v = ?T - (clk 2 - clk 0 + second - 1) div second"
  have w1: "w1 = put_cache i ?c (w\<lparr>dw_server := (dw_server w)\<lparr>srv_ticks := Suc (srv_ticks (dw_server w))\<rparr>\<rparr>)"
    using assms(4) by (simp add: cache_PutTTL_def dns_simps time_Now_def Let_def clk_def)
  have c: "caches (srv_store (dw_server w1)) ! i = ?c" using assms(2) unfolding w1 by (subst caches_put_cache) simp_all
  have now: "srv_clock (dw_server w1) (srv_ticks (dw_server w1)) = clk 1"
    "srv_clock (dw_server w1) (Suc (srv_ticks (dw_server w1))) = clk 2"
    by (simp_all add: w1 put_cache_def Let_def clk_def)
  have "fst (GetTimeValue (clk 1) ?c ?key) = Some (NewTimedValue m (clk 0) (?T * second))"
    using GetTimeValue_PutTTL [OF assms(3), of "clk 1" "clk 0" ?key m ?T] assms(5-7) by simp
  then obtain tc where g: "GetTimeValue (clk 1) ?c ?key = (Some (NewTimedValue m (clk 0) (?T * second)), tc)"
    by (metis prod.collapse)
  have "\<exists>w2. cache_doSolve i ?key w1 =
      Inr (Some (m\<lparr>Answer := map (\<lambda>x. x\<lparr>Ttl := word_of_int (go_quot ?left second)\<rparr>) (Answer m)\<rparr>), w2)"
    by (simp add: cache_doSolve_def cache_GetTimeValue_def time_Now_def dns_simps Let_def now c g NewTimedValue_def put_cache_def
        del: One_nat_def)
  moreover have "go_quot ?left second = v"
    using assms(7) by (simp add: go_quot_def v_def second_def)
  moreover have "0 \<le> v" "v \<le> ?T"
    using assms(5-7) by (simp_all add: v_def second_def)
  then have "uint (word_of_int v :: u32) = v"
    using uint_bounded [of "getTtl m"] by (simp add: uint_word_of_int take_bit_int_eq_self)
  moreover from this \<open>v \<le> ?T\<close> have "(word_of_int v :: u32) \<le> getTtl m" by (simp add: word_le_def)
  ultimately show ?thesis by (auto simp: cache_Solve_def dns_simps v_def)
qed

theorem cached_answer_counts_down_witness:
  "\<exists>w1 w2. cache_PutTTL 0 ''a.com.-1'' (answer_msg [\<lparr>rrName = ''a.com.'', Rrtype = 1, rrClass = 1, Ttl = 5, rrData = RA [10, 0, 0, 1]\<rparr>]) 5
      dns_demo = Inr ((), w1) \<and>
    Solve demo_outside (CacheDnsSolver 0 LocalDnsSolver) \<lparr>qName = ''a.com.'', Qtype = 1\<rparr> w1 =
      Inr ((Some (answer_msg [\<lparr>rrName = ''a.com.'', Rrtype = 1, rrClass = 1, Ttl = 4, rrData = RA [10, 0, 0, 1]\<rparr>]), None), w2)"
proof -
  let ?q = "\<lparr>qName = ''a.com.'', Qtype = 1\<rparr>"
  let ?m = "answer_msg [\<lparr>rrName = ''a.com.'', Rrtype = 1, rrClass = 1, Ttl = 5, rrData = RA [10, 0, 0, 1]\<rparr>]"
  have "show_nat 1 = ''1''" by code_simp
  then have k: "getHostnameKey ?q = ''a.com.-1''" "uint (getTtl ?m) = 5"
    by (simp_all add: getHostnameKey_def getTtl_def answer_msg_def)
  have 1: "0 < length (caches (srv_store (dw_server dns_demo)))" "timed_inv (caches (srv_store (dw_server dns_demo)) ! 0)"
    by (simp_all add: dns_demo_def dns_server_def timed_inv_def NewTimed_def lru_inv_def)
  obtain w1 where w1: "cache_PutTTL 0 (getHostnameKey ?q) ?m (uint (getTtl ?m)) dns_demo = Inr ((), w1)"
    by (simp add: cache_PutTTL_def dns_simps time_Now_def Let_def)
  have clk: "srv_clock (dw_server dns_demo) (srv_ticks (dw_server dns_demo) + 0) = 1000"
    "srv_clock (dw_server dns_demo) (srv_ticks (dw_server dns_demo) + 1) = 1001"
    "srv_clock (dw_server dns_demo) (srv_ticks (dw_server dns_demo) + 2) = 1002"
    by (simp_all add: dns_demo_def dns_server_def)
  from cached_answer_counts_down [OF 1 w1, of demo_outside LocalDnsSolver, unfolded clk k]
  obtain w2 t where t: "Solve demo_outside (CacheDnsSolver 0 LocalDnsSolver) ?q w1 =
      Inr ((Some (?m\<lparr>Answer := map (\<lambda>v. v\<lparr>Ttl := t\<rparr>) (Answer ?m)\<rparr>), None), w2)" "uint t = 4"
    by (auto simp: second_def)
  from t(2) have "t = 4" by (metis word_of_int_uint word_of_int_numeral)
  with t(1) w1 k show ?thesis by (auto simp: answer_msg_def)
qed





section \<open>From the page to the DNS client\<close>

text \<open>
  C39. A record that is created on the page for the active environment is what DNS clients get from then
  on: after the request has been served, the caching solver for local records answers a question for its
  name with the typed address and time to live, whatever wildcard records there are and whatever was
  answered for that name before.
\<close>

theorem created_record_resolves:
  fixes s :: "dns_msg server"
  assumes "jq_contract jq" and "served s c" and "form_inv f" and "js_get (fm_form f) ''target'' = JSStr t" and "showIp f"
    and "records c (ActiveEnv c) = Some rs" and "n \<notin> set (hostname_names rs)" and "quad ns" and "k < 2 ^ 32"
    and "f' = form_handleNumberChange \<lparr>ev_name = ''ttl'', ev_value = show_nat k\<rparr>
      (form_handleIp \<lparr>ev_name = ''ip'', ev_value = dotted ns\<rparr>
      (form_handleChange \<lparr>ev_name = ''hostname'', ev_value = n\<rparr> f))"
    and "handleSubmit (JSStr (ActiveEnv c)) f' = [Ajax req cb]"
    and "qName q = n @ ''.''" and "i < length (caches (srv_store s))"
  shows "\<exists>s' w'. perform jq re jt req s = Inr (AjaxDone (JSStr ''''), s') \<and>
    Solve ext (CacheDnsSolver i LocalDnsSolver) q \<lparr>dw_server = s', dw_docker = d\<rparr> =
      Inr ((Some (answer_msg [\<lparr>rrName = n @ ''.'', Rrtype = TypeA, rrClass = ClassINET, Ttl = word_of_nat k,
        rrData = RA (map word_of_nat ns)\<rparr>]), None), w')"
proof -
  have k: "k \<le> 2 ^ 53" using assms(9) by simp
  have "form_inv f'" unfolding assms(10) using assms(3) by (intro form_typed_inv)
  moreover have "js_get (fm_form f') ''hostname'' = JSStr n" "js_get (fm_form f') ''ip'' = JSArr (num_ip ns)"
    "js_get (fm_form f') ''target'' = JSStr t" "js_get (fm_form f') ''type'' = JSStr ''A''"
    "js_get (fm_form f') ''ttl'' = JSNum (JInt (int k))"
    using assms(3-5,8) k
    by (simp_all add: assms(10) form_handleNumberChange_def form_handleIp_def form_handleChange_def form_inv_def
        parse_ip_text_dotted js_parseInt_show_nat js_num_exact)
  moreover have "in_int64 (int k)" using k by (simp add: in_int64_def int64_min_def int64_max_def)
  moreover have "req = ajax_json POST ''/hostname/'' (form_body (JSStr (ActiveEnv c)) f')"
    using assms(11) by (simp add: handleSubmit_def)
  moreover define h where "h = stamp_id (srv_clock s (srv_ticks s)) (form_record n ns t ''A'' (int k))"
  ultimately obtain s' c' where s': "perform jq re jt req s = Inr (AjaxDone (JSStr ''''), s')" "served s' c'"
    "store_empty (srv_store s')" "length (caches (srv_store s')) = length (caches (srv_store s))"
    "ActiveEnv c' = ActiveEnv c" "records c' = (records c)(ActiveEnv c \<mapsto> rs @ [h])"
    using submit_record [of jq s c f' n ns t "''A''" "int k" "ActiveEnv c" rs re jt] assms(1,2,6-8) by auto
  let ?w = "\<lparr>dw_server = s', dw_docker = d\<rparr>"
  have h: "hHostname h = n" "hIp h = dotted ns" "hTtl h = int k" "hType h = ''A''"
    by (simp_all add: h_def form_record_def stamp_id_def)
  have "find (\<lambda>x. hHostname x = n) rs = None" using assms(7) by (auto simp: find_None_iff hostname_names_def)
  then have "find (\<lambda>x. hHostname x = n) (rs @ [h]) = Some h" by (simp add: find_append h)
  moreover have "host_answer q h = Some (answer_msg [\<lparr>rrName = n @ ''.'', Rrtype = TypeA, rrClass = ClassINET,
      Ttl = word_of_nat k, rrData = RA (map word_of_nat ns)\<rparr>])"
    using assms(8,12) by (simp add: host_answer_def h ToIpByteArray_dotted)
  ultimately have "local_answer q (rs @ [h]) (n # host_suffixes (''.'' @ n)) = Some (answer_msg [\<lparr>rrName = n @ ''.'',
      Rrtype = TypeA, rrClass = ClassINET, Ttl = word_of_nat k, rrData = RA (map word_of_nat ns)\<rparr>])" by simp
  from Solve_cached_local [of ?w c' "rs @ [h]" q n i, OF _ _ assms(12) _ _ this] s' assms(13) show ?thesis by auto
qed

theorem created_record_resolves_witness:
  "\<exists>req cb s' w'. handleSubmit (JSStr '''') (form_handleNumberChange \<lparr>ev_name = ''ttl'', ev_value = show_nat 30\<rparr>
      (form_handleIp \<lparr>ev_name = ''ip'', ev_value = dotted [10, 0, 0, 7]\<rparr>
      (form_handleChange \<lparr>ev_name = ''hostname'', ev_value = ''b.a.com''\<rparr>
        (RecordForm_componentDidMount RecordForm_new)))) = [Ajax req cb] \<and>
    perform jq_std demo_re demo_jt req dns_server = Inr (AjaxDone (JSStr ''''), s') \<and>
    Solve demo_outside (CacheDnsSolver 0 LocalDnsSolver) \<lparr>qName = ''b.a.com.'', Qtype = 28\<rparr>
      \<lparr>dw_server = s', dw_docker = dw_docker dns_demo\<rparr> =
      Inr ((Some (answer_msg [\<lparr>rrName = ''b.a.com.'', Rrtype = 1, rrClass = 1, Ttl = 30, rrData = RA [10, 0, 0, 7]\<rparr>]), None), w')"
proof -
  let ?f = "RecordForm_componentDidMount RecordForm_new"
  let ?f' = "form_handleNumberChange \<lparr>ev_name = ''ttl'', ev_value = show_nat 30\<rparr>
      (form_handleIp \<lparr>ev_name = ''ip'', ev_value = dotted [10, 0, 0, 7]\<rparr>
      (form_handleChange \<lparr>ev_name = ''hostname'', ev_value = ''b.a.com''\<rparr> ?f))"
  have 1: "js_get (fm_form ?f) ''target'' = JSStr ''acme.com''" "showIp ?f"
    by (simp_all add: RecordForm_componentDidMount_def processValueLabel_def RecordForm_new_def js_get_def)
  have 2: "''b.a.com'' \<notin> set (hostname_names dns_hosts)" by (simp add: dns_hosts_def hostname_names_def)
  have 3: "quad [10, 0, 0, 7]" "(30 :: nat) < 2 ^ 32" by (simp_all add: quad_def)
  have a: "ActiveEnv dns_conf = ''''" by (simp add: dns_conf_def default_config_def)
  have 4: "handleSubmit (JSStr (ActiveEnv dns_conf)) ?f' = [Ajax (ajax_json POST ''/hostname/'' (form_body (JSStr '''') ?f')) RecordSaved]"
    by (simp add: handleSubmit_def a)
  have 5: "qName \<lparr>qName = ''b.a.com.'', Qtype = 28\<rparr> = ''b.a.com'' @ ''.''" "0 < length (caches (srv_store dns_server))"
    by (simp_all add: dns_server_def)
  have s: "served dns_server dns_conf" using dns_served by (simp add: dns_demo_def)
  from created_record_resolves [OF jq_std_contract s RecordForm_new_inv 1 dns_records 2 3 refl 4 5,
      of demo_re demo_jt demo_outside "dw_docker dns_demo"] 4 a show ?thesis
    by (auto simp: TypeA_def ClassINET_def)
qed

end
