(* ===== verification/DockerEvents.thy ===== *)
theory DockerEvents
  imports DockerNetwork Resolution
begin

text \<open>
  \<open>src/events/docker/docker.go\<close>: the names of running containers. They are kept in the cache
  \<open>dw_docker\<close> that the solver for containers reads; the containers that run at the start and the
  events \<open>start\<close>, \<open>stop\<close> and \<open>die\<close> of the daemon's stream change it.
\<close>

section \<open>The names of a container\<close>

definition getHostnamesFromEnv :: "ContainerJSON \<Rightarrow> string list" where
  "getHostnamesFromEnv inspect =
     (case find (\<lambda>env. HasPrefix env ''HOSTNAMES='') (cjEnv inspect) of
        Some env \<Rightarrow> split_on (CHR '','') (drop (length ''HOSTNAMES='') env)
      | None \<Rightarrow> [])"

definition getContainerHostname :: "ContainerJSON \<Rightarrow> (string, string) result" where
  "getContainerHostname inspect =
     (if length (cjHostname inspect) \<noteq> 0 then
        if length (cjDomainname inspect) \<noteq> 0 then Inr (cjHostname inspect @ ''.'' @ cjDomainname inspect)
        else Inr (cjHostname inspect)
      else Inl ''hostname not found'')"

text \<open>\<open>inspect.Name[1:]\<close>, which panics for an empty name.\<close>

definition getHostnameFromContainerName :: "outside \<Rightarrow> ContainerJSON \<Rightarrow> ('d, string) dk" where
  "getHostnameFromContainerName ext inspect =
     (case cjName inspect of
        [] \<Rightarrow> (\<lambda>st. Inl PanicSliceBounds)
      | _ # name \<Rightarrow>
          bind_dk (on_conf (GetDpsDomain (o_env ext) (o_flags ext))) (\<lambda>domain. ret_dk (name @ ''.'' @ domain)))"

definition getHostnameFromServiceName :: "outside \<Rightarrow> ContainerJSON \<Rightarrow> ('d, (string, string) result) dk" where
  "getHostnameFromServiceName ext inspect =
     (case map_of (cjLabels inspect) ''com.docker.compose.service'' of
        Some v \<Rightarrow>
          bind_dk (on_conf (GetDpsDomain (o_env ext) (o_flags ext))) (\<lambda>domain. ret_dk (Inr (v @ ''.'' @ domain)))
      | None \<Rightarrow> ret_dk (Inl (''service not found for container: '' @ cjName inspect)))"

definition getHostnames :: "outside \<Rightarrow> ContainerJSON \<Rightarrow> ('d, string list) dk" where
  "getHostnames ext inspect =
     (let hostnames = (case getContainerHostname inspect of Inr h \<Rightarrow> [h] | Inl _ \<Rightarrow> []) @ getHostnamesFromEnv inspect in
      bind_dk (on_conf (ShouldRegisterContainerNames (o_env ext) (o_flags ext))) (\<lambda>register.
      if register then
        bind_dk (getHostnameFromContainerName ext inspect) (\<lambda>containerName.
        bind_dk (getHostnameFromServiceName ext inspect) (\<lambda>r.
        ret_dk (hostnames @ [containerName] @ (case r of Inr serviceName \<Rightarrow> [serviceName] | Inl _ \<Rightarrow> []))))
      else ret_dk hostnames))"

section \<open>The events\<close>

definition mustInspectContainer :: "'d docker_api \<Rightarrow> string \<Rightarrow> ('d, ContainerJSON) dk" where
  "mustInspectContainer api containerID =
     bind_dk (call (ContainerInspect api containerID)) (\<lambda>r.
     case r of
       Inl err \<Rightarrow> panic_dk (WithMessage err (''status=inspect-error, id='' @ containerID))
     | Inr cInspection \<Rightarrow> ret_dk cInspection)"

definition on_names :: "((string, string) lru \<Rightarrow> (string, string) lru) \<Rightarrow> ('d, unit) dk" where
  "on_names f st = Inr ((), st\<lparr>dk_world := (dk_world st)\<lparr>dw_docker := f (dw_docker (dk_world st))\<rparr>\<rparr>)"

definition defaultNetworkLabel :: string where "defaultNetworkLabel = ''dps.network''"

definition preferred_networks :: "ContainerJSON \<Rightarrow> string list" where
  "preferred_networks inspect =
     [case map_of (cjLabels inspect) defaultNetworkLabel of None \<Rightarrow> '''' | Some n \<Rightarrow> n, dps_network, ''bridge'']"

definition putHostnames :: "'d docker_api \<Rightarrow> string list \<Rightarrow> ContainerJSON \<Rightarrow> ('d, unit) dk" where
  "putHostnames api predefinedHosts inspect =
     bind_dk (FindBestIpForNetworks api inspect (preferred_networks inspect)) (\<lambda>ip.
     on_names (fold (\<lambda>host c. lru_Add c host ip) predefinedHosts))"

definition setupDpsContainerNetwork :: "'d docker_api \<Rightarrow> outside \<Rightarrow> string \<Rightarrow> ('d, unit) dk" where
  "setupDpsContainerNetwork api ext version =
     bind_dk (CreateOrUpdateDpsNetwork api version) (\<lambda>r.
     case r of
       Inl err \<Rightarrow> panic_dk (''can't create dps network '' @ err)
     | Inr _ \<Rightarrow>
         bind_dk (FindDpsContainer api) (\<lambda>r.
         case r of
           Inl err \<Rightarrow> ret_dk ()
         | Inr dpsContainer \<Rightarrow>
             bind_dk (MustNetworkDisconnectForIp api dps_network ''172.157.5.249'') (\<lambda>_.
             MustNetworkConnect api ext dps_network (ctID dpsContainer) ''172.157.5.249'')))"

record docker_event =
  evID :: string
  evAction :: string
  evStatus :: string

definition event_action :: "docker_event \<Rightarrow> string" where
  "event_action event = (if length (evAction event) = 0 then evStatus event else evAction event)"

text \<open>One turn of the loop over the stream.\<close>

definition handle_event :: "'d docker_api \<Rightarrow> outside \<Rightarrow> docker_event \<Rightarrow> ('d, unit) dk" where
  "handle_event api ext event =
     bind_dk (mustInspectContainer api (evID event)) (\<lambda>cInspection.
     bind_dk (getHostnames ext cInspection) (\<lambda>hostnames.
     let action = event_action event in
     if action = ''start'' then
       bind_dk (MustNetworkConnect api ext dps_network (cjID cInspection) '''') (\<lambda>_.
       bind_dk (mustInspectContainer api (evID event)) (\<lambda>now. putHostnames api hostnames now))
     else if action = ''stop'' \<or> action = ''die'' then
       on_names (fold (\<lambda>host c. lru_Remove c host) hostnames)
     else ret_dk ()))"

text \<open>
  The stream: the events that are decoded until it ends. A text that cannot be decoded is an event too,
  with what was read of it, because the loop tests for the end of the stream only.
\<close>

fun event_loop :: "'d docker_api \<Rightarrow> outside \<Rightarrow> docker_event list \<Rightarrow> ('d, unit) dk" where
  "event_loop api ext [] = ret_dk ()"
| "event_loop api ext (event # events) = bind_dk (handle_event api ext event) (\<lambda>_. event_loop api ext events)"

fun started_loop :: "'d docker_api \<Rightarrow> outside \<Rightarrow> Container list \<Rightarrow> ('d, unit) dk" where
  "started_loop api ext [] = ret_dk ()"
| "started_loop api ext (c # cs) =
     bind_dk (MustNetworkConnect api ext dps_network (ctID c) '''') (\<lambda>_.
     bind_dk (mustInspectContainer api (ctID c)) (\<lambda>cInspection.
     bind_dk (getHostnames ext cInspection) (\<lambda>hostnames.
     bind_dk (putHostnames api hostnames cInspection) (\<lambda>_.
     started_loop api ext cs))))"

definition eventFilter :: filter_args where
  "eventFilter = [(''event'', ''start''), (''event'', ''die''), (''event'', ''stop'')]"

text \<open>
  The whole handler; the calls before \<open>SetCli\<close> are those of a new client. The version of the program is the
  argument \<open>version\<close>, the stream is \<open>events\<close>.
\<close>

definition HandleDockerEvents ::
  "'d docker_api \<Rightarrow> outside \<Rightarrow> string \<Rightarrow> docker_event list \<Rightarrow> ('d, unit) dk" where
  "HandleDockerEvents api ext version events st =
     (case ServerVersion api (dk_daemon st) of
        (Inl err, d) \<Rightarrow> Inr ((), st\<lparr>dk_daemon := d\<rparr>)
      | (Inr _, d) \<Rightarrow>
          bind_dk (call (ContainerList api [])) (\<lambda>r.
          case r of
            Inl err \<Rightarrow> ret_dk ()
          | Inr containers \<Rightarrow>
              bind_dk (on_conf (conf_DpsNetwork (o_env ext) (o_flags ext))) (\<lambda>dps.
              bind_dk (if dps then setupDpsContainerNetwork api ext version else ret_dk ()) (\<lambda>_.
              bind_dk (call (api_Events api eventFilter)) (\<lambda>r.
              case r of
                Inl err \<Rightarrow> ret_dk ()
              | Inr _ \<Rightarrow>
                  bind_dk (started_loop api ext containers) (\<lambda>_. event_loop api ext events)))))
            (SetCli (st\<lparr>dk_daemon := d\<rparr>)))"

section \<open>The cache of names\<close>

lemma puts_inv:
  "lru_inv c \<Longrightarrow> lru_inv (fold (\<lambda>h c. lru_Add c h v) xs c) \<and> lru_size (fold (\<lambda>h c. lru_Add c h v) xs c) = lru_size c"
  by (induction xs arbitrary: c) (simp_all add: lru_Add_inv)

lemma puts_front:
  assumes "lru_inv c" and "card (set xs) \<le> lru_size c"
  shows "\<exists>ks rest. lru_entries (fold (\<lambda>h c. lru_Add c h v) xs c) = map (\<lambda>k. (k, v)) ks @ rest \<and> set ks = set xs"
  using assms(2)
proof (induction xs rule: rev_induct)
  case (snoc h xs)
  let ?c = "fold (\<lambda>h c. lru_Add c h v) xs c"
  have "card (set xs) \<le> lru_size c" using snoc.prems card_mono [of "set (xs @ [h])" "set xs"] by fastforce
  with snoc.IH obtain ks rest where ks: "lru_entries ?c = map (\<lambda>k. (k, v)) ks @ rest" "set ks = set xs" by blast
  have inv: "lru_inv ?c" "lru_size ?c = lru_size c" using puts_inv [OF assms(1)] by auto
  have step: "fold (\<lambda>h c. lru_Add c h v) (xs @ [h]) c = lru_Add ?c h v" by simp
  show ?case
  proof (cases "lru_Contains ?c h")
    case True
    then have "lru_entries (lru_Add ?c h v) = map (\<lambda>k. (k, v)) (h # filter (\<lambda>k. k \<noteq> h) ks) @ drop_key h rest"
      by (simp add: lru_Add_def [of ?c] ks drop_key_def filter_map comp_def)
    moreover have "set (h # filter (\<lambda>k. k \<noteq> h) ks) = set (xs @ [h])" using ks(2) by auto
    ultimately show ?thesis unfolding step by blast
  next
    case False
    then have h: "h \<notin> set ks" using ks(1) by (auto simp: lru_Contains_def map_of_eq_None_iff image_image)
    have "distinct ks" using inv(1) ks(1) by (simp add: lru_inv_def comp_def)
    then have "length ks = card (set xs)" using ks(2) distinct_card by fastforce
    then have room: "Suc (length ks) \<le> lru_size c" using snoc.prems h ks(2) by simp
    have "lru_entries (lru_Add ?c h v) = map (\<lambda>k. (k, v)) (h # ks) @ (if lru_size c < Suc (length ks + length rest) then butlast rest else rest)"
      using False room by (cases "rest = []") (simp_all add: lru_Add_def [of ?c] ks inv(2) Let_def butlast_append)
    moreover have "set (h # ks) = set (xs @ [h])" using ks(2) by auto
    ultimately show ?thesis unfolding step by blast
  qed
qed simp

lemma puts_lookup:
  assumes "lru_inv c" and "card (set xs) \<le> lru_size c" and "h \<in> set xs"
  shows "map_of (lru_entries (fold (\<lambda>h c. lru_Add c h v) xs c)) h = Some v"
proof -
  obtain ks rest where ks: "lru_entries (fold (\<lambda>h c. lru_Add c h v) xs c) = map (\<lambda>k. (k, v)) ks @ rest" "set ks = set xs"
    using puts_front [OF assms(1,2)] by blast
  have "map_of (map (\<lambda>k. (k, v)) ks) h = Some v" using assms(3) ks(2) by (simp add: map_of_map_restrict)
  then show ?thesis by (simp add: ks(1) map_add_def)
qed

lemma removes_lookup:
  "map_of (lru_entries (fold (\<lambda>h c. lru_Remove c h) xs c)) k = (if k \<in> set xs then None else map_of (lru_entries c) k)"
  by (induction xs arbitrary: c) (simp_all add: map_of_lru_Remove)

lemma getMsg_quad:
  assumes "quad_text ip"
  shows "getMsg ip q = Inr (answer_msg [\<lparr>rrName = qName q, Rrtype = TypeA, rrClass = ClassINET, Ttl = 0,
    rrData = RA (projr (ToIpByteArray zero_ip ip))\<rparr>])"
proof -
  obtain ns where ns: "quad ns" "ip = dotted ns" using assms by (auto simp: quad_text_def)
  from quad_cases [OF ns(1)] obtain a b c d where abcd: "ns = [a, b, c, d]" "a < 256" "b < 256" "c < 256" "d < 256" by blast
  then have "split_on (CHR ''.'') ip = [show_nat a, show_nat b, show_nat c, show_nat d]"
    using split_dotted [of ns] ns by simp
  then show ?thesis
    using ToIpByteArray_dotted [OF ns(1)] ns(2) abcd by (simp add: getMsg_def go_Atoi_small)
qed

text \<open>A name that is registered is found before its suffixes are tried.\<close>

lemma docker_Solve_named:
  assumes "qName q = n @ ''.''" and "map_of (lru_entries (dw_docker w)) n = Some ip"
  shows "docker_Solve q w =
    (case getMsg ip q of
       Inl p \<Rightarrow> Inl p
     | Inr m \<Rightarrow> Inr ((Some m, None), w\<lparr>dw_docker := snd (lru_Get (snd (lru_Get (dw_docker w) n)) n)\<rparr>))"
proof -
  have "fst (lru_Get (snd (lru_Get (dw_docker w) n)) n) = Some ip"
    by (simp add: fst_lru_Get map_of_lru_Get assms(2))
  moreover have "find (lru_Contains (dw_docker w)) (getAllHosts (''.'' @ n)) = Some n"
    unfolding getAllHosts_names using assms(2) by (simp add: lru_Contains_def del: host_suffixes.simps)
  ultimately show ?thesis
    using assms(1) by (simp add: docker_Solve_def docker_doSolve_def questionName_def dns_simps case_prod_unfold split: sum.split)
qed


section \<open>Names and settings\<close>

text \<open>The names of a container under a configuration \<open>c\<close> that the server holds.\<close>

definition setting :: "string \<Rightarrow> 'a option \<Rightarrow> 'a \<Rightarrow> (string \<Rightarrow> 'a) \<Rightarrow> 'a" where
  "setting v conf dflt parse = (if \<not> blank v then parse v else case conf of None \<Rightarrow> dflt | Some x \<Rightarrow> x)"

definition registers :: "outside \<Rightarrow> Configuration \<Rightarrow> bool" where
  "registers ext c = setting (o_env ext ''MG_REGISTER_CONTAINER_NAMES'') (RegisterContainerNames c)
     (fRegisterContainerNames (o_flags ext)) (\<lambda>v. v = ''1'')"

definition domain_of :: "outside \<Rightarrow> Configuration \<Rightarrow> string" where
  "domain_of ext c = setting (o_env ext ''MG_DOMAIN'') (non_empty (Domain c)) (fDomain (o_flags ext)) (\<lambda>v. v)"

definition container_names :: "outside \<Rightarrow> Configuration \<Rightarrow> ContainerJSON \<Rightarrow> string list" where
  "container_names ext c i =
     (if cjHostname i = '''' then [] else [cjHostname i @ (if cjDomainname i = '''' then '''' else ''.'' @ cjDomainname i)]) @
     getHostnamesFromEnv i @
     (if registers ext c then
        [tl (cjName i) @ ''.'' @ domain_of ext c] @
        (case map_of (cjLabels i) ''com.docker.compose.service'' of None \<Rightarrow> [] | Some v \<Rightarrow> [v @ ''.'' @ domain_of ext c])
      else [])"

lemma on_conf_pure: "m (dw_server (dk_world st)) = Inr (a, dw_server (dk_world st)) \<Longrightarrow> on_conf m st = Inr (a, st)"
  by (simp add: on_conf_def on_server_def)

lemma settings_hold:
  assumes "holds (dw_server (dk_world st)) c"
  shows "on_conf (ShouldRegisterContainerNames (o_env ext) (o_flags ext)) st = Inr (registers ext c, st)"
    "on_conf (GetDpsDomain (o_env ext) (o_flags ext)) st = Inr (domain_of ext c, st)"
  by (auto intro!: on_conf_pure simp: ShouldRegisterContainerNames_def GetDpsDomain_def registers_def domain_of_def
      setting_def from_conf_holds [OF assms] Let_def)

lemma getHostnames_holds:
  assumes "holds (dw_server (dk_world st)) c" and "cjName i \<noteq> ''''"
  shows "getHostnames ext i st = Inr (container_names ext c i, st)"
  using assms(2)
  by (auto simp: getHostnames_def getHostnameFromContainerName_def getHostnameFromServiceName_def getContainerHostname_def
      container_names_def settings_hold [OF assms(1)] dk_simps Let_def neq_Nil_conv split: option.splits)

section \<open>Containers that start and stop\<close>

text \<open>
  What the daemon documents for looking at containers: \<open>view\<close> gives the containers it has, with their id and
  a name that is not empty; looking changes nothing, and a container that is gone is an error.
\<close>

definition docker_contract ::
  "'d docker_api \<Rightarrow> ('d \<Rightarrow> string \<Rightarrow> ContainerJSON option) \<Rightarrow> (string \<Rightarrow> string) \<Rightarrow> bool" where
  "docker_contract api view driver \<longleftrightarrow>
     (\<forall>d i c. view d i = Some c \<longrightarrow> ContainerInspect api i d = (Inr c, d) \<and> cjID c = i \<and> cjName c \<noteq> '''' \<and>
        knows_networks api driver c) \<and>
     (\<forall>d i. view d i = None \<longrightarrow> (\<exists>err. ContainerInspect api i d = (Inl err, d)))"

definition auto_connect :: "outside \<Rightarrow> Configuration \<Rightarrow> bool option" where
  "auto_connect ext c =
     (let v = o_env ext ''MG_DPS_NETWORK_AUTO_CONNECT'' in
      if \<not> blank v then Some (v = ''1'')
      else if DpsNetwork c = None then Some (fDpsNetworkAutoConnect (o_flags ext))
      else DpsNetworkAutoConnect c)"

lemma auto_connect_holds:
  assumes "holds (dw_server (dk_world st)) c" and "auto_connect ext c = Some b"
  shows "on_conf (conf_DpsNetworkAutoConnect (o_env ext) (o_flags ext)) st = Inr (b, st)"
  using assms(2)
  by (auto intro!: on_conf_pure simp: conf_DpsNetworkAutoConnect_def auto_connect_def getConf_holds [OF assms(1)] Let_def
      split: if_splits)

lemma inspect_Some:
  assumes "docker_contract api view driver" and "dk_cli st" and "view (dk_daemon st) i = Some c"
  shows "mustInspectContainer api i st = Inr (c, st)"
  using assms by (simp add: mustInspectContainer_def docker_contract_def call_def dk_simps)

lemma inspect_None:
  assumes "docker_contract api view driver" and "view (dk_daemon st) i = None"
  shows "\<exists>p. mustInspectContainer api i st = Inl p"
proof -
  obtain err where "ContainerInspect api i (dk_daemon st) = (Inl err, dk_daemon st)"
    using assms unfolding docker_contract_def by blast
  then show ?thesis by (simp add: mustInspectContainer_def call_def dk_simps)
qed

lemma connect_step:
  assumes "dk_cli st" and "holds (dw_server (dk_world st)) c" and "auto_connect ext c = Some auto"
    and "if auto then api_NetworkConnect api dps_network i ip (dk_daemon st) = (Inr (), d) else d = dk_daemon st"
  shows "MustNetworkConnect api ext dps_network i ip st = Inr ((), st\<lparr>dk_daemon := d\<rparr>)"
  using assms(1,4)
  by (simp add: MustNetworkConnect_def NetworkConnect_def call_def dk_simps auto_connect_holds [OF assms(2,3)] split: if_splits)

section \<open>A concrete daemon\<close>

lemma demo_docker_contract: "docker_contract demo_api demo_view demo_driver"
  using demo_knows
  by (auto simp: docker_contract_def demo_view_def demo_api_def demo_connect_def demo_web_def demo_host_def split: if_splits)

lemma demo_dock_ok:
  "dk_cli (demo_dock dns_demo)" "served (dw_server (dk_world (demo_dock dns_demo))) dns_conf"
  "lru_inv (dw_docker (dk_world (demo_dock dns_demo)))" "lru_size (dw_docker (dk_world (demo_dock dns_demo))) = 10"
  using dns_served by (simp_all add: demo_dock_def lru_inv_def dns_demo_def)

lemma demo_settings: "registers demo_outside dns_conf = False" "auto_connect demo_outside dns_conf = Some False"
  by (simp_all add: registers_def auto_connect_def setting_def demo_outside_def dns_conf_def default_config_def blank_def go_TrimSpace_def)

lemma demo_names:
  "container_names demo_outside dns_conf demo_web = [''web.acme.com'', ''www.acme.com'', ''shop.acme.com'']"
  "container_names demo_outside dns_conf demo_host = [''a.com'']"
  by (simp_all add: container_names_def getHostnamesFromEnv_def demo_settings demo_web_def demo_host_def HasPrefix_def)

lemma demo_best:
  "best_ip demo_driver (preferred_networks demo_web) demo_web = ''172.17.0.2''"
  "best_ip demo_driver (preferred_networks demo_host) demo_host = ''''"
  by (simp_all add: best_ip_def preferred_networks_def demo_web_def demo_host_def demo_driver_def GetIPFromNetworksMap_def dps_network_def)

lemma demo_viewed:
  "demo_view (dk_daemon (demo_dock w)) ''w1'' = Some demo_web" "demo_view (dk_daemon (demo_dock w)) ''h1'' = Some demo_host"
  "demo_view (dk_daemon (demo_dock w)) ''gone'' = None"
  by (simp_all add: demo_view_def demo_dock_def)

section \<open>Properties\<close>

text \<open>
  C12. When a container starts, every name it declares is answered with its address from then on: its host
  name, the names in its variable \<open>HOSTNAMES\<close> and, if that is set, its container and service name. The address
  is the best one of the container as it is after it was connected to the network \<open>dps\<close>, if that is set.
\<close>

theorem started_container_resolves:
  assumes "docker_contract api view driver" and "dk_cli st" and "served (dw_server (dk_world st)) c"
    and "lru_inv (dw_docker (dk_world st))"
    and "event_action event = ''start''" and "view (dk_daemon st) (evID event) = Some i"
    and "auto_connect ext c = Some auto"
    and "if auto then api_NetworkConnect api dps_network (evID event) '''' (dk_daemon st) = (Inr (), d) else d = dk_daemon st"
    and "view d (evID event) = Some i'" and "quad_text (best_ip driver (preferred_networks i') i')"
    and "n \<in> set (container_names ext c i)"
    and "card (set (container_names ext c i)) \<le> lru_size (dw_docker (dk_world st))" and "qName q = n @ ''.''"
  shows "\<exists>st' w'. handle_event api ext event st = Inr ((), st') \<and> dk_daemon st' = d \<and>
    Solve ext DockerDnsSolver q (dk_world st') =
      Inr ((Some (answer_msg [\<lparr>rrName = qName q, Rrtype = TypeA, rrClass = ClassINET, Ttl = 0,
        rrData = RA (projr (ToIpByteArray zero_ip (best_ip driver (preferred_networks i') i')))\<rparr>]), None), w')"
proof -
  let ?ip = "best_ip driver (preferred_networks i') i'" and ?hs = "container_names ext c i"
  let ?put = "fold (\<lambda>h c. lru_Add c h ?ip) ?hs"
  let ?st = "st\<lparr>dk_daemon := d\<rparr>"
  let ?w = "(dk_world st)\<lparr>dw_docker := ?put (dw_docker (dk_world st))\<rparr>"
  have h: "holds (dw_server (dk_world st)) c" using assms(3) by (simp add: served_def)
  have i: "cjName i \<noteq> ''''" "cjID i = evID event" "knows_networks api driver i'"
    using assms(1,6,9) by (auto simp: docker_contract_def)
  have "MustNetworkConnect api ext dps_network (cjID i) '''' st = Inr ((), ?st)"
    unfolding i(2) by (rule connect_step [OF assms(2) h assms(7,8)])
  moreover have "mustInspectContainer api (evID event) ?st = Inr (i', ?st)"
    by (rule inspect_Some [OF assms(1)]) (simp_all add: assms(2,9))
  moreover have "FindBestIpForNetworks api i' (preferred_networks i') ?st = Inr (?ip, ?st)"
    by (rule best_ip_result) (simp_all add: assms(2) i(3))
  ultimately have run: "handle_event api ext event st = Inr ((), ?st\<lparr>dk_world := ?w\<rparr>)"
    using inspect_Some [OF assms(1,2,6)] getHostnames_holds [OF h i(1), of ext] assms(5)
    by (simp add: handle_event_def dk_simps Let_def putHostnames_def on_names_def)
  have "map_of (lru_entries (dw_docker ?w)) n = Some ?ip" using puts_lookup [OF assms(4,12,11)] by simp
  from docker_Solve_named [OF assms(13) this] getMsg_quad [OF assms(10), of q] run show ?thesis by auto
qed

theorem started_container_resolves_witness:
  "\<exists>st' w'. handle_event demo_api demo_outside \<lparr>evID = ''w1'', evAction = ''start'', evStatus = ''start''\<rparr> (demo_dock dns_demo) =
      Inr ((), st') \<and>
    Solve demo_outside DockerDnsSolver \<lparr>qName = ''shop.acme.com.'', Qtype = 1\<rparr> (dk_world st') =
      Inr ((Some (answer_msg [\<lparr>rrName = ''shop.acme.com.'', Rrtype = 1, rrClass = 1, Ttl = 0, rrData = RA [172, 17, 0, 2]\<rparr>]), None), w')"
proof -
  let ?e = "\<lparr>evID = ''w1'', evAction = ''start'', evStatus = ''start''\<rparr>" and ?q = "\<lparr>qName = ''shop.acme.com.'', Qtype = 1\<rparr>"
  have a: "event_action ?e = ''start''" "evID ?e = ''w1''" by (simp_all add: event_action_def)
  have "dotted [172, 17, 0, 2] = ''172.17.0.2''" by code_simp
  then have quad: "quad_text ''172.17.0.2''" by (auto simp: quad_text_def quad_def intro!: exI [of _ "[172, 17, 0, 2]"])
  have ip: "ToIpByteArray zero_ip ''172.17.0.2'' = Inr [172, 17, 0, 2]" by code_simp
  from started_container_resolves [OF demo_docker_contract demo_dock_ok(1-3) a(1), unfolded a(2), OF demo_viewed(1) demo_settings(2),
      of "dk_daemon (demo_dock dns_demo)" demo_web "''shop.acme.com''" ?q] quad ip
  show ?thesis by (simp add: demo_viewed demo_best demo_names demo_dock_ok TypeA_def ClassINET_def) blast
qed

text \<open>
  C16. When a container stops or dies, exactly the names it declares are taken out of the cache: also a name
  that another container, which still runs, declares as well.
\<close>

theorem stopped_container_forgotten:
  assumes "docker_contract api view driver" and "dk_cli st" and "served (dw_server (dk_world st)) c"
    and "event_action event \<in> {''stop'', ''die''}" and "view (dk_daemon st) (evID event) = Some i"
  shows "\<exists>names. handle_event api ext event st = Inr ((), st\<lparr>dk_world := (dk_world st)\<lparr>dw_docker := names\<rparr>\<rparr>) \<and>
    (\<forall>n. map_of (lru_entries names) n =
       (if n \<in> set (container_names ext c i) then None else map_of (lru_entries (dw_docker (dk_world st))) n))"
proof -
  have h: "holds (dw_server (dk_world st)) c" using assms(3) by (simp add: served_def)
  have "cjName i \<noteq> ''''" using assms(1,5) by (auto simp: docker_contract_def)
  from getHostnames_holds [OF h this, of ext] inspect_Some [OF assms(1,2,5)] assms(4) show ?thesis
    by (auto simp: handle_event_def dk_simps Let_def on_names_def removes_lookup)
qed

theorem stopped_container_forgotten_witness:
  "\<exists>names. handle_event demo_api demo_outside \<lparr>evID = ''w1'', evAction = '''', evStatus = ''die''\<rparr>
      (demo_dock (dns_demo\<lparr>dw_docker := \<lparr>lru_size = 10, lru_entries = [(''www.acme.com'', ''172.17.0.9'')]\<rparr>\<rparr>)) =
      Inr ((), demo_dock (dns_demo\<lparr>dw_docker := names\<rparr>)) \<and> map_of (lru_entries names) ''www.acme.com'' = None"
proof -
  let ?e = "\<lparr>evID = ''w1'', evAction = '''', evStatus = ''die''\<rparr>"
  let ?st = "demo_dock (dns_demo\<lparr>dw_docker := \<lparr>lru_size = 10, lru_entries = [(''www.acme.com'', ''172.17.0.9'')]\<rparr>\<rparr>)"
  have a: "event_action ?e \<in> {''stop'', ''die''}" "demo_view (dk_daemon ?st) (evID ?e) = Some demo_web"
    by (simp_all add: event_action_def demo_viewed)
  have s: "dk_cli ?st" "served (dw_server (dk_world ?st)) dns_conf" using dns_served by (simp_all add: demo_dock_def)
  have upd: "?st\<lparr>dk_world := (dk_world ?st)\<lparr>dw_docker := names\<rparr>\<rparr> = demo_dock (dns_demo\<lparr>dw_docker := names\<rparr>)" for names
    by (simp add: demo_dock_def)
  from stopped_container_forgotten [OF demo_docker_contract s a, of demo_outside] show ?thesis
    unfolding upd by (auto simp: demo_names)
qed



text \<open>
  When the daemon reports an event of a container that it does not have any more by the time it is
  asked for it, the handler ends with a panic, however many events it had handled before. It runs in a
  goroutine of its own, which does not recover, so the whole server ends.
\<close>

lemma removed_container_ends_handler:
  assumes "docker_contract api view driver" and "event_loop api ext events st = Inr ((), st')"
    and "view (dk_daemon st') (evID event) = None"
  shows "\<exists>p. event_loop api ext (events @ event # rest) st = Inl p"
proof -
  obtain p where "mustInspectContainer api (evID event) st' = Inl p" using inspect_None [OF assms(1,3)] by blast
  then have "event_loop api ext (event # rest) st' = Inl p" by (simp add: handle_event_def dk_simps)
  with assms(2) show ?thesis
    by (induction events arbitrary: st) (auto simp: dk_simps split: sum.splits)
qed

end
