(* ===== verification/MainProc.thy ===== *)
theory MainProc
  imports Service DockerEvents
begin

text \<open>
  \<open>main\<close> and \<open>serve\<close> of \<open>src/dns.go\<close> and \<open>utils/exitcodes\<close>: what happens before the servers start, and the life of
  the process afterwards as a step relation over the goroutines. A goroutine that wants to end the process posts
  a signal on a channel without a buffer, so it waits until \<open>main\<close> receives it.
\<close>

section \<open>Before the servers start\<close>

definition Fqdn :: "string \<Rightarrow> string" where
  "Fqdn s = (if s \<noteq> [] \<and> last s = CHR ''.'' then s else s @ ''.'')"

text \<open>\<open>strings.SplitN(conf.Tsig(), ":", 2)\<close>, whose second part is read without a test.\<close>

definition tsig_key :: "string \<Rightarrow> (go_panic, string \<times> string) result" where
  "tsig_key tsig =
     (if tsig = '''' then Inr ('''', '''')
      else case index_where (\<lambda>c. c = CHR '':'') tsig of
        None \<Rightarrow> Inl PanicIndexOutOfRange
      | Some i \<Rightarrow> Inr (Fqdn (take i tsig), drop (Suc i) tsig))"

text \<open>The result: the server's state and the key. \<open>profile_ok\<close>: the file for the profile can be created.\<close>

definition main_start ::
  "'w os_api \<Rightarrow> env_vars \<Rightarrow> string \<Rightarrow> bool \<Rightarrow> start_flags \<Rightarrow> 'm server \<Rightarrow> ('w, 'm server \<times> string \<times> string) os" where
  "main_start api env exeDir profile_ok fl s0 =
     bind_os (Install api env exeDir fl s0) (\<lambda>s.
     case tsig_key (sf_tsig fl) of
       Inl p \<Rightarrow> (\<lambda>w. (Panicked p, w))
     | Inr (name, secret) \<Rightarrow>
         if sf_cpuprofile fl \<noteq> '''' \<and> \<not> profile_ok then exit_os (- 3)
         else case LoadConfiguration s of
           Inl p \<Rightarrow> (\<lambda>w. (Panicked p, w))
         | Inr (_, s') \<Rightarrow> ret_os (s', name, secret))"

text \<open>The server that \<open>serve\<close> listens with.\<close>

record listen_server =
  ds_Addr :: string
  ds_Net :: string
  ds_TsigSecret :: "(string \<times> string) option"

definition serve_dns :: "flag_values \<Rightarrow> string \<Rightarrow> string \<Rightarrow> string \<Rightarrow> ('m, listen_server) go" where
  "serve_dns fl net name secret s =
     (case conf_DnsServerPort fl s of
        Inl p \<Rightarrow> Inl p
      | Inr (port, s1) \<Rightarrow>
          (case conf_DnsServerPort fl s1 of
             Inl p \<Rightarrow> Inl p
           | Inr (_, s2) \<Rightarrow>
               Inr (\<lparr>ds_Addr = '':'' @ show_int port, ds_Net = net,
                 ds_TsigSecret = (if name = '''' then None else Some (name, secret))\<rparr>, s2)))"

section \<open>The process\<close>

definition FAIL_SET_DNS_AS_DEFAULT :: nat where "FAIL_SET_DNS_AS_DEFAULT = 1"
definition FAIL_START_WEB_SERVER :: nat where "FAIL_START_WEB_SERVER = 2"
definition FAIL_START_DNS_SERVER :: nat where "FAIL_START_DNS_SERVER = 3"

text \<open>
  \<open>main\<close> starts the goroutines, waits for a signal, restores \<open>resolv.conf\<close> and returns; \<open>MDead\<close> holds the status
  of the process, which is 0 when \<open>main\<close> returns and 2 after a panic. The loop that sets \<open>resolv.conf\<close>
  goes on after it has posted; a server that failed does not.
\<close>

datatype main_pc = MStart | MWait | MRestore | MReturn | MDead nat

datatype loop_pc = LTop | LPost | LSleep | LOff

datatype server_pc = SListening | SPost | SDone

record proc =
  pr_main :: main_pc
  pr_loop :: loop_pc
  pr_servers :: "server_pc list"
  pr_file :: resolv_file
  pr_received :: "nat option"

text \<open>The servers are those for tcp, udp and the web.\<close>

definition server_code :: "nat \<Rightarrow> nat" where
  "server_code k = (if k = 2 then FAIL_START_WEB_SERVER else FAIL_START_DNS_SERVER)"

definition proc_start :: "bool \<Rightarrow> resolv_file \<Rightarrow> proc" where
  "proc_start setup f =
     \<lparr>pr_main = MStart, pr_loop = (if setup then LTop else LOff), pr_servers = replicate 3 SListening, pr_file = f,
      pr_received = None\<rparr>"

definition alive :: "proc \<Rightarrow> bool" where
  "alive s \<longleftrightarrow> (case pr_main s of MDead _ \<Rightarrow> False | _ \<Rightarrow> True)"

text \<open>
  \<open>V\<close> is what Docker and the network interfaces may answer, \<open>dp\<close> whether the handler of Docker's events panics
  at some time. A signal that arrives before \<open>main\<close> waits is lost.
\<close>

inductive proc_step :: "(docker_view \<times> string list option) set \<Rightarrow> bool \<Rightarrow> proc \<Rightarrow> proc \<Rightarrow> bool" for V dp where
  waits: "pr_main s = MStart \<Longrightarrow> proc_step V dp s (s\<lparr>pr_main := MWait\<rparr>)"
| loop_sets:
    "alive s \<Longrightarrow> pr_loop s = LTop \<Longrightarrow> (v, a) \<in> V \<Longrightarrow> SetCurrentDnsServerToMachine v a (pr_file s) = Inr (None, f) \<Longrightarrow>
     proc_step V dp s (s\<lparr>pr_file := f, pr_loop := LSleep\<rparr>)"
| loop_fails:
    "alive s \<Longrightarrow> pr_loop s = LTop \<Longrightarrow> (v, a) \<in> V \<Longrightarrow> SetCurrentDnsServerToMachine v a (pr_file s) = Inr (Some e, f) \<Longrightarrow>
     proc_step V dp s (s\<lparr>pr_file := f, pr_loop := LPost\<rparr>)"
| loop_panics:
    "alive s \<Longrightarrow> pr_loop s = LTop \<Longrightarrow> (v, a) \<in> V \<Longrightarrow> SetCurrentDnsServerToMachine v a (pr_file s) = Inl p \<Longrightarrow>
     proc_step V dp s (s\<lparr>pr_main := MDead 2\<rparr>)"
| loop_wakes: "alive s \<Longrightarrow> pr_loop s = LSleep \<Longrightarrow> proc_step V dp s (s\<lparr>pr_loop := LTop\<rparr>)"
| loop_posts:
    "pr_main s = MWait \<Longrightarrow> pr_loop s = LPost \<Longrightarrow>
     proc_step V dp s (s\<lparr>pr_main := MRestore, pr_loop := LSleep, pr_received := Some FAIL_SET_DNS_AS_DEFAULT\<rparr>)"
| server_fails:
    "alive s \<Longrightarrow> k < length (pr_servers s) \<Longrightarrow> pr_servers s ! k = SListening \<Longrightarrow>
     proc_step V dp s (s\<lparr>pr_servers := (pr_servers s)[k := SPost]\<rparr>)"
| server_posts:
    "pr_main s = MWait \<Longrightarrow> k < length (pr_servers s) \<Longrightarrow> pr_servers s ! k = SPost \<Longrightarrow>
     proc_step V dp s (s\<lparr>pr_main := MRestore, pr_servers := (pr_servers s)[k := SDone], pr_received := Some (server_code k)\<rparr>)"
| signalled: "pr_main s = MWait \<Longrightarrow> sig \<in> {2, 15} \<Longrightarrow> proc_step V dp s (s\<lparr>pr_main := MRestore, pr_received := Some sig\<rparr>)"
| restores:
    "pr_main s = MRestore \<Longrightarrow> RestoreResolvconfToDefault (pr_file s) = Inr (e, f) \<Longrightarrow>
     proc_step V dp s (s\<lparr>pr_main := MReturn, pr_file := f\<rparr>)"
| restore_panics:
    "pr_main s = MRestore \<Longrightarrow> RestoreResolvconfToDefault (pr_file s) = Inl p \<Longrightarrow> proc_step V dp s (s\<lparr>pr_main := MDead 2\<rparr>)"
| returns: "pr_main s = MReturn \<Longrightarrow> proc_step V dp s (s\<lparr>pr_main := MDead 0\<rparr>)"
| docker_panics: "dp \<Longrightarrow> alive s \<Longrightarrow> proc_step V dp s (s\<lparr>pr_main := MDead 2\<rparr>)"

inductive proc_reach :: "(docker_view \<times> string list option) set \<Rightarrow> bool \<Rightarrow> proc \<Rightarrow> proc \<Rightarrow> bool" for V dp s0 where
  begin_run: "proc_reach V dp s0 s0"
| go_on: "proc_reach V dp s0 s \<Longrightarrow> proc_step V dp s s' \<Longrightarrow> proc_reach V dp s0 s'"

declare proc_reach.begin_run [intro]

section \<open>Lemmas\<close>

text \<open>Until \<open>main\<close> has restored it, the file is the one the process found, or that file with the server put in.\<close>

definition before_restore :: "main_pc \<Rightarrow> bool" where
  "before_restore m \<longleftrightarrow> m \<in> {MStart, MWait, MRestore}"

definition taken_over :: "resolv_file \<Rightarrow> resolv_file \<Rightarrow> bool" where
  "taken_over f0 f \<longleftrightarrow> f = f0 \<or> (\<exists>ip. plain_line (getDNSLine ip) \<and> SetMachineDnsServer ip f0 = Inr (None, f))"

definition plain_answers :: "(docker_view \<times> string list option) set \<Rightarrow> bool" where
  "plain_answers V \<longleftrightarrow> (\<forall>(v, a) \<in> V. \<forall>ip. GetDpsIP v a = Some ip \<longrightarrow> plain_line (getDNSLine ip))"

definition text_file :: "string list \<Rightarrow> resolv_file" where
  "text_file ls = \<lparr>rc_text = Some (print_lines ls), rc_writable = True\<rparr>"

lemma set_total: "list_all short_line ls \<Longrightarrow> \<exists>f. SetMachineDnsServer ip (text_file ls) = Inr (None, f)"
  using new_lines_set by (auto simp: SetMachineDnsServer_def ProcessResolvconf_def text_file_def)

lemma set_keeps_taken_over:
  assumes "list_all short_line ls" and "taken_over (text_file ls) f" and "plain_answers V" and "(v, a) \<in> V"
  shows "(case SetCurrentDnsServerToMachine v a f of Inl p \<Rightarrow> False | Inr (e, f') \<Rightarrow> taken_over (text_file ls) f')"
proof (cases "GetDpsIP v a")
  case None
  then show ?thesis using assms(2) by (simp add: SetCurrentDnsServerToMachine_def)
next
  case (Some ip)
  then have ip: "plain_line (getDNSLine ip)" using assms(3,4) by (auto simp: plain_answers_def)
  have "SetMachineDnsServer ip f = SetMachineDnsServer ip (text_file ls)"
    using assms(1,2) set_twice [OF assms(1) _ refl, folded text_file_def] by (auto simp: taken_over_def)
  with Some ip set_total [OF assms(1), of ip] show ?thesis
    by (auto simp: SetCurrentDnsServerToMachine_def taken_over_def)
qed

lemma proc_step_inv:
  assumes "proc_step V dp s s'" and "list_all short_line ls" and "plain_answers V"
    and "before_restore (pr_main s) \<longrightarrow> taken_over (text_file ls) (pr_file s)"
  shows "before_restore (pr_main s') \<longrightarrow> taken_over (text_file ls) (pr_file s')"
  using assms(1)
proof cases
  case (loop_sets v a f)
  then show ?thesis using set_keeps_taken_over [OF assms(2) _ assms(3) loop_sets(4), of "pr_file s"] assms(4) by auto
next
  case (loop_fails v a e f)
  then show ?thesis using set_keeps_taken_over [OF assms(2) _ assms(3) loop_fails(4), of "pr_file s"] assms(4) by auto
qed (use assms(4) in \<open>auto simp: before_restore_def\<close>)

lemma proc_reach_inv:
  "proc_reach V dp (proc_start setup (text_file ls)) s \<Longrightarrow> list_all short_line ls \<Longrightarrow> plain_answers V \<Longrightarrow>
   before_restore (pr_main s) \<longrightarrow> taken_over (text_file ls) (pr_file s)"
proof (induction rule: proc_reach.induct)
  case begin_run
  then show ?case by (simp add: proc_start_def taken_over_def)
next
  case (go_on s s')
  then show ?case using proc_step_inv by blast
qed

text \<open>A file into which the server was never put is not changed by restoring it.\<close>

lemma process_clean_foreign:
  "foreign_line l \<Longrightarrow> process dnsServerCleanerHandler l (getDnsEntryType l) = Inr (Some l)"
  by (cases "getDnsEntryType l") (simp_all add: foreign_line_def)

lemma restore_untouched:
  assumes "list_all short_line ls" and "list_all foreign_line ls"
  shows "RestoreResolvconfToDefault (text_file ls) = Inr (None, text_file ls)"
proof -
  have "map_result (\<lambda>l. process dnsServerCleanerHandler l (getDnsEntryType l)) ls = Inr (map Some ls)"
    using assms(2) by (induction ls) (simp_all add: process_clean_foreign del: process.simps)
  then have "new_lines dnsServerCleanerHandler ls = Inr ls"
    using map_filter_Some [of "\<lambda>l. l" ls] by (simp add: new_lines_def)
  moreover have "scan_lines (print_lines ls) = ls"
    using assms(1) by (intro scan_print_lines) (auto simp: short_line_def list_all_iff)
  ultimately show ?thesis by (simp add: RestoreResolvconfToDefault_def ProcessResolvconf_def text_file_def)
qed

lemma dead_stays: "pr_main s = MDead n \<Longrightarrow> \<not> proc_step V dp s s'"
  by (auto simp: alive_def elim: proc_step.cases)

text \<open>
  The status of the process is 0 whenever \<open>main\<close> returns, also when a goroutine has posted that a server could not
  be started or that \<open>resolv.conf\<close> could not be set: the codes are posted as signals and never become the status.
\<close>

lemma exit_status:
  "proc_reach V dp (proc_start setup f) s \<Longrightarrow> pr_main s \<in> {MStart, MWait, MRestore, MReturn, MDead 0, MDead 2}"
  by (induction rule: proc_reach.induct) (auto simp: proc_start_def elim: proc_step.cases)

lemma failed_server_exits_with_zero:
  assumes "k < 3" and "RestoreResolvconfToDefault f = Inr (e, f')"
  shows "\<exists>s. proc_reach V dp (proc_start setup f) s \<and> pr_main s = MDead 0 \<and> pr_received s = Some (server_code k) \<and> pr_file s = f'"
proof -
  let ?s0 = "proc_start setup f"
  let ?s1 = "?s0\<lparr>pr_main := MWait\<rparr>"
  let ?s2 = "?s1\<lparr>pr_servers := (pr_servers ?s1)[k := SPost]\<rparr>"
  let ?s3 = "?s2\<lparr>pr_main := MRestore, pr_servers := (pr_servers ?s2)[k := SDone], pr_received := Some (server_code k)\<rparr>"
  let ?s4 = "?s3\<lparr>pr_main := MReturn, pr_file := f'\<rparr>"
  have "proc_reach V dp ?s0 ?s1" by (rule proc_reach.go_on [OF proc_reach.begin_run proc_step.waits]) (simp add: proc_start_def)
  then have "proc_reach V dp ?s0 ?s2"
    by (rule proc_reach.go_on [OF _ proc_step.server_fails]) (use assms(1) in \<open>simp_all add: proc_start_def alive_def\<close>)
  then have "proc_reach V dp ?s0 ?s3"
    by (rule proc_reach.go_on [OF _ proc_step.server_posts]) (use assms(1) in \<open>simp_all add: proc_start_def\<close>)
  then have "proc_reach V dp ?s0 ?s4"
    by (rule proc_reach.go_on [OF _ proc_step.restores]) (use assms(2) in \<open>simp_all add: proc_start_def\<close>)
  then have "proc_reach V dp ?s0 (?s4\<lparr>pr_main := MDead 0\<rparr>)"
    by (rule proc_reach.go_on [OF _ proc_step.returns]) simp
  then show ?thesis by fastforce
qed

lemma proc_reach_set:
  assumes "(v, a) \<in> V" and "GetDpsIP v a = Some ip" and "SetMachineDnsServer ip f = Inr (None, f')"
  shows "proc_reach V dp (proc_start True f) ((proc_start True f)\<lparr>pr_file := f', pr_loop := LSleep\<rparr>)"
  by (rule proc_reach.go_on [OF proc_reach.begin_run proc_step.loop_sets [where v = v and a = a]])
    (use assms in \<open>simp_all add: proc_start_def alive_def SetCurrentDnsServerToMachine_def\<close>)

text \<open>
  Between the restoring and the end of the process the loop may set the server once more: the machine is then left with a
  server that does not run any more.
\<close>

lemma restore_race:
  assumes "(v, a) \<in> V" and "GetDpsIP v a = Some ip" and "RestoreResolvconfToDefault f = Inr (None, f1)"
    and "SetMachineDnsServer ip f1 = Inr (None, f2)"
  shows "\<exists>s. proc_reach V dp (proc_start True f) s \<and> pr_main s = MDead 0 \<and> pr_file s = f2"
proof -
  let ?s0 = "proc_start True f"
  let ?s1 = "?s0\<lparr>pr_main := MWait\<rparr>"
  let ?s2 = "?s1\<lparr>pr_main := MRestore, pr_received := Some 15\<rparr>"
  let ?s3 = "?s2\<lparr>pr_main := MReturn, pr_file := f1\<rparr>"
  let ?s4 = "?s3\<lparr>pr_file := f2, pr_loop := LSleep\<rparr>"
  have "proc_reach V dp ?s0 ?s1" by (rule proc_reach.go_on [OF proc_reach.begin_run proc_step.waits]) (simp add: proc_start_def)
  then have "proc_reach V dp ?s0 ?s2" by (rule proc_reach.go_on [OF _ proc_step.signalled]) simp_all
  then have "proc_reach V dp ?s0 ?s3"
    by (rule proc_reach.go_on [OF _ proc_step.restores]) (use assms(3) in \<open>simp_all add: proc_start_def\<close>)
  then have "proc_reach V dp ?s0 ?s4"
    by (rule proc_reach.go_on [OF _ proc_step.loop_sets [where v = v and a = a]])
      (use assms in \<open>simp_all add: proc_start_def alive_def SetCurrentDnsServerToMachine_def\<close>)
  then have "proc_reach V dp ?s0 (?s4\<lparr>pr_main := MDead 0\<rparr>)"
    by (rule proc_reach.go_on [OF _ proc_step.returns]) simp
  then show ?thesis by fastforce
qed

section \<open>Properties\<close>

text \<open>
  C38. However often the loop has put the server into \<open>resolv.conf\<close>, with whatever addresses, and whatever else happened:
  when \<open>main\<close> has received a signal, restoring neither fails nor panics, and it gives back the file that the process
  found, line by line, except for name servers that are not separated from their keyword by a space.
\<close>

theorem resolvconf_restored:
  assumes "proc_reach V dp (proc_start setup (text_file ls)) s" and "pr_main s = MRestore"
    and "list_all short_line ls" and "list_all foreign_line ls" and "plain_answers V"
  shows "\<exists>f. RestoreResolvconfToDefault (pr_file s) = Inr (None, f) \<and> (f = text_file ls \<or> f = text_file (map restored ls))"
proof -
  have "taken_over (text_file ls) (pr_file s)"
    using proc_reach_inv [OF assms(1,3,5)] assms(2) by (simp add: before_restore_def)
  then consider "pr_file s = text_file ls"
    | ip where "plain_line (getDNSLine ip)" "SetMachineDnsServer ip (text_file ls) = Inr (None, pr_file s)"
    by (auto simp: taken_over_def)
  then show ?thesis
  proof cases
    case 1
    with restore_untouched [OF assms(3,4)] show ?thesis by simp
  next
    case 2
    with set_then_restore [OF assms(3,4) 2(1) refl] show ?thesis by (auto simp: text_file_def)
  qed
qed

definition sample_answers :: "(docker_view \<times> string list option) set" where
  "sample_answers = {(\<lparr>IsDockerConnected = False, FindDpsContainerIP = None, FindDpsNetworkGatewayIp = None, GetGatewayIp = None\<rparr>,
     Some [''127.0.0.1/8'', ''10.0.0.5/24''])}"

definition sample_lines :: "string list" where
  "sample_lines = [''nameserver 8.8.8.8'']"

lemma sample_ip: "\<exists>v a. (v, a) \<in> sample_answers \<and> GetDpsIP v a = Some ''10.0.0.5''"
  by (simp add: sample_answers_def GetDpsIP_def GetCurrentIpAddress_def HasPrefix_def)

lemma sample_ok: "list_all short_line sample_lines" "list_all foreign_line sample_lines" "plain_answers sample_answers"
proof -
  show "list_all short_line sample_lines" by (simp add: sample_lines_def short_line_def plain_line_def)
  have "getDnsEntryType ''nameserver 8.8.8.8'' = Server" by code_simp
  then show "list_all foreign_line sample_lines" by (simp add: sample_lines_def foreign_line_def)
  show "plain_answers sample_answers"
    by (simp add: plain_answers_def sample_answers_def GetDpsIP_def GetCurrentIpAddress_def HasPrefix_def getDNSLine_def plain_line_def)
qed

theorem resolvconf_restored_witness:
  "\<exists>s f. proc_reach sample_answers False (proc_start True (text_file sample_lines)) s \<and> pr_main s = MRestore \<and>
     SetMachineDnsServer ''10.0.0.5'' (text_file sample_lines) = Inr (None, pr_file s) \<and>
     RestoreResolvconfToDefault (pr_file s) = Inr (None, f) \<and> f = text_file sample_lines"
proof -
  obtain v a where va: "(v, a) \<in> sample_answers" "GetDpsIP v a = Some ''10.0.0.5''" using sample_ip by blast
  obtain f1 where f1: "SetMachineDnsServer ''10.0.0.5'' (text_file sample_lines) = Inr (None, f1)"
    using set_total [OF sample_ok(1)] by blast
  let ?s0 = "proc_start True (text_file sample_lines)"
  let ?s1 = "?s0\<lparr>pr_file := f1, pr_loop := LSleep\<rparr>"
  let ?s2 = "?s1\<lparr>pr_main := MWait\<rparr>"
  let ?s3 = "?s2\<lparr>pr_main := MRestore, pr_received := Some 2\<rparr>"
  have "proc_reach sample_answers False ?s0 ?s1" using va f1 by (rule proc_reach_set)
  then have "proc_reach sample_answers False ?s0 ?s2"
    by (rule proc_reach.go_on [OF _ proc_step.waits]) (simp add: proc_start_def)
  then have r: "proc_reach sample_answers False ?s0 ?s3" by (rule proc_reach.go_on [OF _ proc_step.signalled]) simp_all
  have "map restored sample_lines = sample_lines" by code_simp
  with resolvconf_restored [OF r _ sample_ok] have "RestoreResolvconfToDefault f1 = Inr (None, text_file sample_lines)" by auto
  with r f1 show ?thesis by (intro exI [of _ ?s3]) simp
qed

text \<open>Docker's event handler gets as far as the stream, in the state \<open>st1\<close>.\<close>

definition docker_listens :: "'d docker_api \<Rightarrow> outside \<Rightarrow> string \<Rightarrow> 'd dock \<Rightarrow> 'd dock \<Rightarrow> bool" where
  "docker_listens api ext version st st1 \<longleftrightarrow>
     (\<forall>events. HandleDockerEvents api ext version events st = event_loop api ext events st1)"

text \<open>
  C23. When Docker reports an event of a container that it does not have any more by the time it is asked for it, the
  handler of the events panics, however many events it had handled before; no one recovers, and the whole process ends
  with status 2. \<open>resolv.conf\<close> is not restored then: the machine is left with the server that does not run any more.
\<close>

theorem removed_container_kills_process:
  assumes "docker_contract api view driver" and "docker_listens api ext version st st1"
    and "event_loop api ext events st1 = Inr ((), st2)" and "view (dk_daemon st2) (evID event) = None"
    and "(v, a) \<in> V" and "GetDpsIP v a = Some ip" and "list_all short_line ls"
  shows "\<exists>s. proc_reach V (\<exists>p. HandleDockerEvents api ext version (events @ event # rest) st = Inl p)
      (proc_start True (text_file ls)) s \<and> pr_main s = MDead 2 \<and>
    SetMachineDnsServer ip (text_file ls) = Inr (None, pr_file s) \<and> (\<forall>W dp s'. \<not> proc_step W dp s s')"
proof -
  let ?s0 = "proc_start True (text_file ls)"
  obtain f where f: "SetMachineDnsServer ip (text_file ls) = Inr (None, f)" using set_total [OF assms(7)] by blast
  have dp: "\<exists>p. HandleDockerEvents api ext version (events @ event # rest) st = Inl p"
    using assms(2) removed_container_ends_handler [OF assms(1,3,4)] by (simp add: docker_listens_def)
  have "proc_reach V True ?s0 (?s0\<lparr>pr_file := f, pr_loop := LSleep\<rparr>)" using assms(5,6) f by (rule proc_reach_set)
  then have "proc_reach V True ?s0 (?s0\<lparr>pr_file := f, pr_loop := LSleep, pr_main := MDead 2\<rparr>)"
    using proc_reach.go_on [OF _ proc_step.docker_panics, of V True ?s0 "?s0\<lparr>pr_file := f, pr_loop := LSleep\<rparr>"]
    by (simp add: alive_def proc_start_def)
  with dp f dead_stays show ?thesis
    by (intro exI [of _ "?s0\<lparr>pr_file := f, pr_loop := LSleep, pr_main := MDead 2\<rparr>"]) auto
qed

lemma demo_listens: "docker_listens demo_api demo_outside version (demo_dock dns_demo) (demo_dock dns_demo)"
proof -
  have "holds dns_server dns_conf" using dns_served by (simp add: served_def dns_demo_def)
  then have "conf_DpsNetwork (o_env demo_outside) (o_flags demo_outside) dns_server = Inr (False, dns_server)"
    by (simp add: conf_DpsNetwork_def conf_DpsNetworkAutoConnect_def dpsNetwork0_def getConf_holds demo_outside_def blank_def
        go_TrimSpace_def dns_conf_def default_config_def)
  then show ?thesis
    by (simp add: docker_listens_def HandleDockerEvents_def demo_api_def demo_dock_def SetCli_def call_def on_conf_def on_server_def
        dns_demo_def dk_simps)
qed

theorem removed_container_kills_process_witness:
  "\<exists>s. proc_reach sample_answers
      (\<exists>p. HandleDockerEvents demo_api demo_outside ''dev'' [\<lparr>evID = ''gone'', evAction = ''die'', evStatus = ''die''\<rparr>]
        (demo_dock dns_demo) = Inl p)
      (proc_start True (text_file sample_lines)) s \<and> pr_main s = MDead 2 \<and>
    SetMachineDnsServer ''10.0.0.5'' (text_file sample_lines) = Inr (None, pr_file s)"
proof -
  obtain v a where va: "(v, a) \<in> sample_answers" "GetDpsIP v a = Some ''10.0.0.5''" using sample_ip by blast
  have "event_loop demo_api demo_outside [] (demo_dock dns_demo) = Inr ((), demo_dock dns_demo)" by (simp add: ret_dk_def)
  from removed_container_kills_process [OF demo_docker_contract demo_listens [of "''dev''"] this _ va sample_ok(1),
      of "\<lparr>evID = ''gone'', evAction = ''die'', evStatus = ''die''\<rparr>" "[]"]
  show ?thesis by (auto simp: demo_viewed)
qed

end
