(* ===== verification/Routes.thy ===== *)
theory Routes
  imports DockerNetwork ApiSafe "HOL-Library.Char_ord" "HOL-Library.List_Lexorder" "HOL-Library.Multiset"
begin

text \<open>
  The other routes of the web server: \<open>controller/v1/index.go\<close>, \<open>cache.go\<close>, \<open>network.go\<close> and \<open>statics.go\<close>, and the
  dispatch over all routes. The files under \<open>/static/\<close> are served by Go's file server, which is the argument
  \<open>files\<close>. A list that is \<open>nil\<close> in Go, which only a version 1 environment without records has, is encoded as an
  empty one.
\<close>

section \<open>Encoding\<close>

definition encode_bool :: "bool option \<Rightarrow> json" where
  "encode_bool b = (case b of None \<Rightarrow> JNull | Some v \<Rightarrow> JBool v)"

definition encode_record :: "Hostname \<Rightarrow> json" where
  "encode_record h = JObj [(''Id'', JNum (hId h)), (''Hostname'', JStr (hHostname h)), (''Ip'', JStr (hIp h)),
     (''Target'', JStr (hTarget h)), (''Ttl'', JNum (hTtl h)), (''Type'', JStr (hType h))]"

definition encode_environment :: "Env \<Rightarrow> json" where
  "encode_environment e = JObj [(''Name'', JStr (envName e)), (''Hostnames'', JArr (map encode_record (Hostnames e)))]"

definition encode_server :: "DNSServer \<Rightarrow> json" where
  "encode_server d = JObj [(''Ip'', JStr (dnsIp d)), (''Port'', JNum (dnsPort d))]"

definition encode_configuration :: "Configuration \<Rightarrow> json" where
  "encode_configuration c = JObj
     [(''Version'', JNum (Version c)),
      (''RemoteDnsServers'', JArr (map encode_server (RemoteDnsServers c))),
      (''Envs'', JArr (map encode_environment (Envs c))),
      (''ActiveEnv'', JStr (ActiveEnv c)),
      (''WebServerPort'', JNum (WebServerPort c)),
      (''DnsServerPort'', JNum (DnsServerPort c)),
      (''DefaultDns'', encode_bool (DefaultDns c)),
      (''LogLevel'', JStr (LogLevel c)),
      (''LogFile'', JStr (LogFile c)),
      (''RegisterContainerNames'', encode_bool (RegisterContainerNames c)),
      (''HostMachineHostname'', JStr (HostMachineHostname c)),
      (''Domain'', JStr (Domain c)),
      (''DpsNetwork'', encode_bool (DpsNetwork c)),
      (''DpsNetworkAutoConnect'', encode_bool (DpsNetworkAutoConnect c))]"

fun encode_cached :: "cached option \<Rightarrow> json" where
  "encode_cached None = JNull"
| "encode_cached (Some (CachedConf c)) = encode_configuration c"
| "encode_cached (Some (CachedBool b)) = JBool b"
| "encode_cached (Some (CachedString t)) = JStr t"

section \<open>Handlers\<close>

definition get_index :: "'m handler" where
  "get_index r s = Inr (moved ''/static'', s)"

definition get_configuration :: "'m handler" where
  "get_configuration r s =
     (case LoadConfiguration s of
        Inl p \<Rightarrow> Inl p
      | Inr (Inl err, s1) \<Rightarrow> Inr (confLoadError, s1)
      | Inr (Inr c, s1) \<Rightarrow> Inr (json_reply (encode_configuration c) s1))"

text \<open>The loop over the keys: reading a key makes it the most recently used one. Go sorts the keys of a map.\<close>

fun dump_keys :: "string list \<Rightarrow> (string, cached) lru \<Rightarrow> (string \<times> json) list \<times> (string, cached) lru" where
  "dump_keys [] c = ([], c)"
| "dump_keys (k # ks) c =
     (let (v, c1) = lru_Get c k; (rest, c2) = dump_keys ks c1 in ((k, encode_cached v) # rest, c2))"

definition get_caches :: "'m handler" where
  "get_caches r s =
     (let s1 = IsTestVersion False s;
          (obj, c) = dump_keys (lru_Keys (mainCache (srv_store s1))) (mainCache (srv_store s1))
      in Inr (respond 200 True (JsonBody (JObj (sort_key fst obj))), s1\<lparr>srv_store := (srv_store s1)\<lparr>mainCache := c\<rparr>\<rparr>))"

definition get_caches_size :: "'m handler" where
  "get_caches_size r s =
     (let s1 = IsTestVersion False s in
      Inr (respond 200 True (JsonBody (JObj [(''size'', JNum (int (lru_Len (mainCache (srv_store s1)))))])), s1))"

text \<open>\<open>CreateNetworkDisconnectVO\<close> gives the texts of the errors.\<close>

definition delete_network :: "'d docker_api \<Rightarrow> request \<Rightarrow> ('d, response) dk" where
  "delete_network api r =
     bind_dk (DisconnectNetworkContainers api (query_get r ''networkId'')) (\<lambda>errs.
     ret_dk (respond 200 True (JsonBody (JArr (map JStr errs)))))"

section \<open>Dispatch\<close>

text \<open>
  The longest registered pattern decides; a handler that is not registered for the method and the exact path is a
  404, also below the pattern \<open>/\<close>, to which all other paths belong.
\<close>

definition on_web :: "(dns_msg, response) go \<Rightarrow> ('d, response) dk" where
  "on_web m = on_conf m"

definition route ::
  "(string \<Rightarrow> string \<Rightarrow> bool) \<Rightarrow> (jerr \<Rightarrow> string) \<Rightarrow> 'd docker_api \<Rightarrow> (request \<Rightarrow> response) \<Rightarrow> request \<Rightarrow> ('d, response) dk" where
  "route re jt api files r =
     (let p = rq_path r; only = (\<lambda>m h. if rq_method r = m then h else ret_dk not_found) in
      if p = ''/'' then only GET (on_web (get_index r))
      else if p = ''/configuration/'' then only GET (on_web (get_configuration r))
      else if p = ''/v1/caches'' then only GET (on_web (get_caches r))
      else if p = ''/v1/caches/size'' then only GET (on_web (get_caches_size r))
      else if p = ''/network/disconnect-containers/'' then only DELETE (delete_network api r)
      else if HasPrefix p ''/static/'' then ret_dk (files r)
      else if p \<in> {''/configuration'', ''/network/disconnect-containers'', ''/static''} then ret_dk (moved (p @ ''/''))
      else on_web (serve re jt r))"

section \<open>What the routes show and keep\<close>

lemma dump_keys_spec:
  assumes "set ks \<subseteq> fst ` set (lru_entries c)"
  shows "map fst (fst (dump_keys ks c)) = ks \<and>
    (\<forall>k v. (k, v) \<in> set (fst (dump_keys ks c)) \<longrightarrow> v = encode_cached (map_of (lru_entries c) k)) \<and>
    (\<forall>k. map_of (lru_entries (snd (dump_keys ks c))) k = map_of (lru_entries c) k)"
  using assms
proof (induction ks c rule: dump_keys.induct)
  case (2 k ks c)
  obtain v c1 where get: "lru_Get c k = (v, c1)" by force
  then have v: "v = map_of (lru_entries c) k" using fst_lru_Get [of c k] by simp
  have same: "map_of (lru_entries c1) k' = map_of (lru_entries c) k'" for k' using map_of_lru_Get [of c k k'] get by simp
  then have "fst ` set (lru_entries c1) = fst ` set (lru_entries c)"
    by (metis dom_map_of_conv_image_fst ext)
  with 2 get have "set ks \<subseteq> fst ` set (lru_entries c1)" by simp
  with 2(1) get [symmetric] have "map fst (fst (dump_keys ks c1)) = ks \<and>
      (\<forall>k v. (k, v) \<in> set (fst (dump_keys ks c1)) \<longrightarrow> v = encode_cached (map_of (lru_entries c1) k)) \<and>
      (\<forall>k. map_of (lru_entries (snd (dump_keys ks c1))) k = map_of (lru_entries c1) k)" by blast
  with get v same show ?case by (cases "dump_keys ks c1") auto
qed simp

text \<open>The dump of the caches has one entry per key with its value, in the order of the keys, and changes no value.\<close>

lemma get_caches_exact:
  assumes "lru_inv (mainCache (srv_store (IsTestVersion False s)))"
  defines "m \<equiv> mainCache (srv_store (IsTestVersion False s))"
  shows "\<exists>obj s'. get_caches r s = Inr (respond 200 True (JsonBody (JObj obj)), s') \<and>
    sorted (map fst obj) \<and> mset (map fst obj) = mset (lru_Keys m) \<and>
    (\<forall>k v. (k, v) \<in> set obj \<longrightarrow> v = encode_cached (map_of (lru_entries m) k)) \<and>
    (\<forall>k. map_of (lru_entries (mainCache (srv_store s'))) k = map_of (lru_entries m) k)"
proof -
  have "set (lru_Keys m) \<subseteq> fst ` set (lru_entries m)" by (auto simp: lru_Keys_def)
  note d = dump_keys_spec [OF this]
  have "mset (map fst (sort_key fst (fst (dump_keys (lru_Keys m) m)))) = mset (lru_Keys m)"
    using d by (metis mset_map mset_sort)
  with d show ?thesis
    by (auto simp: get_caches_def m_def [symmetric] Let_def case_prod_unfold)
qed

lemma caches_size_agrees:
  assumes "get_caches r s = Inr (respond 200 True (JsonBody (JObj obj)), s1)"
  shows "\<exists>s2. get_caches_size r' s = Inr (respond 200 True (JsonBody (JObj [(''size'', JNum (int (length obj)))])), s2)"
proof -
  let ?m = "mainCache (srv_store (IsTestVersion False s))"
  have "length (fst (dump_keys (lru_Keys ?m) ?m)) = lru_Len ?m"
    using dump_keys_spec [of "lru_Keys ?m" ?m] by (metis (no_types, lifting) length_map length_rev lru_Keys_def lru_Len_def
        set_map set_rev subset_refl)
  with assms show ?thesis by (auto simp: get_caches_def get_caches_size_def Let_def case_prod_unfold respond_def)
qed

text \<open>Without a connection to Docker the route of the networks panics, and the connection is closed without an answer.\<close>

lemma delete_network_unconnected:
  assumes "\<not> dk_cli st"
  shows "\<exists>p. delete_network api r st = Inl p"
  using assms
  by (auto simp: delete_network_def DisconnectNetworkContainers_def FindNetworkByID_def FindNetwork_def ListNetworks_def
      MustParseFlags_def call_def dk_simps split: sum.splits)

section \<open>The server survives every route\<close>

text \<open>\<open>web_stays res\<close>: the request was answered, and the server serves a configuration again.\<close>

definition web_stays :: "(go_panic, response \<times> 'd dock) result \<Rightarrow> bool" where
  "web_stays res \<longleftrightarrow> (\<exists>a st' c'. res = Inr (a, st') \<and> served (dw_server (dk_world st')) c')"

lemma served_mainCache [simp]: "served (s\<lparr>srv_store := st\<rparr>) c \<longleftrightarrow> served s c"
  by (simp add: served_def holds_def clock_ok_def)

lemma on_web_stays: "stays (m (dw_server (dk_world st))) \<Longrightarrow> web_stays (on_web m st)"
  by (auto simp: on_web_def on_conf_def on_server_def stays_def web_stays_def)

lemma ret_web_stays: "served (dw_server (dk_world st)) c \<Longrightarrow> web_stays (ret_dk a st)"
  by (auto simp: ret_dk_def web_stays_def)

lemma other_handlers_stay:
  assumes s: "served s c"
  shows "stays (get_index r s)" and "stays (get_configuration r s)" and "stays (get_caches r s)" and "stays (get_caches_size r s)"
  using s by (auto simp: stays_def get_index_def get_configuration_def served_load [OF s] json_reply_def get_caches_def
      get_caches_size_def Let_def case_prod_unfold)

lemma disconnect_all_keeps:
  "dk_cli st \<Longrightarrow> \<exists>errs st'. disconnect_all api nid cids st = Inr (errs, st') \<and> dk_world st' = dk_world st \<and> dk_cli st'"
proof (induction cids arbitrary: st)
  case (Cons cid cids)
  obtain a d where "api_NetworkDisconnect api nid cid (dk_daemon st) = (a, d)" by force
  with Cons.prems Cons.IH [of "st\<lparr>dk_daemon := d\<rparr>"] show ?case by (auto simp: call_def dk_simps)
qed (simp add: ret_dk_def)

lemma MustParseFlags_id: "\<exists>fs. MustParseFlags [''id=^'' @ nid] = ret_dk fs"
  by (simp add: MustParseFlags_def ParseFlag_def Let_def) blast

lemma FindNetwork_total:
  assumes "ListNetworks api fs st = Inr (ns, st1)"
  shows "\<exists>x. FindNetwork api fs st = Inr (x, st1)"
proof (cases ns)
  case (Inr l)
  with assms show ?thesis by (cases l; cases "tl l") (auto simp: FindNetwork_def dk_simps)
qed (use assms in \<open>simp add: FindNetwork_def dk_simps\<close>)

lemma delete_network_stays:
  assumes "dk_cli st" and "served (dw_server (dk_world st)) c"
  shows "web_stays (delete_network api r st)"
proof -
  let ?nid = "query_get r ''networkId''"
  obtain fs where fs: "MustParseFlags [''id=^'' @ ?nid] = (ret_dk fs :: ('a, filter_args) dk)" using MustParseFlags_id by blast
  obtain a d where "NetworkList api fs (dk_daemon st) = (a, d)" by force
  then have list: "ListNetworks api [''id=^'' @ ?nid] st =
      Inr (case a of Inl err \<Rightarrow> Inl (WithMessage err ''can't list networks'') | Inr ns \<Rightarrow> Inr ns, st\<lparr>dk_daemon := d\<rparr>)"
    using assms(1) fs by (simp add: ListNetworks_def call_def dk_simps split: sum.splits)
  obtain x where find: "FindNetworkByID api ?nid st = Inr (x, st\<lparr>dk_daemon := d\<rparr>)"
    using FindNetwork_total [OF list] by (auto simp: FindNetworkByID_def)
  show ?thesis
  proof (cases x)
    case (Inl err)
    with find assms(2) show ?thesis
      by (auto simp: delete_network_def DisconnectNetworkContainers_def dk_simps web_stays_def)
  next
    case (Inr n)
    with find assms disconnect_all_keeps [of "st\<lparr>dk_daemon := d\<rparr>" api ?nid "map fst (nwContainers n)"] show ?thesis
      by (auto simp: delete_network_def DisconnectNetworkContainers_def dk_simps web_stays_def)
  qed
qed

lemma route_stays:
  assumes "served (dw_server (dk_world st)) c" and "dk_cli st \<or> rq_path r \<noteq> ''/network/disconnect-containers/''"
  shows "web_stays (route re jt api files r st)"
  using assms(2) other_handlers_stay [OF assms(1), of r] serve_stays [OF assms(1), of re jt r]
    ret_web_stays [OF assms(1)] delete_network_stays [OF _ assms(1)]
  unfolding route_def Let_def
  by (cases "dk_cli st") (simp_all add: on_web_stays)

end
