(* ===== verification/Highlight.thy ===== *)
theory Highlight
  imports JsBase
begin

text \<open>
  \<open>docs/themes/hugo-theme-learn/static/js/learn.js\<close>: the marks that the search of the documentation
  puts around what was typed (the plugin \<open>highlight\<close> and the handler of the search input). A page is a tree of
  texts and elements with their tag, in capitals as the browser gives it, and their class.
\<close>

datatype node = Text string | Element string string "node list"

section \<open>Matching\<close>

text \<open>
  The pattern \<open>(w1|w2|...)\<close>, in which the special characters of the words are escaped: it matches one of the
  words as it is, at the first place where one stands, whatever the case unless \<open>caseSensitive\<close> is set. Empty
  words are dropped before. \<open>rx_upper\<close> is the upper case letter within Latin-1 that the flag \<open>i\<close> compares.
\<close>

definition rx_upper :: "char \<Rightarrow> char" where
  "rx_upper c =
     (let n = (of_char c :: nat) in
      if 97 \<le> n \<and> n \<le> 122 \<or> 0xE0 \<le> n \<and> n \<le> 0xFE \<and> n \<noteq> 0xF7 then char_of (n - 32) else c)"

definition same_text :: "bool \<Rightarrow> string \<Rightarrow> string \<Rightarrow> bool" where
  "same_text caseSensitive s t = (if caseSensitive then s = t else map rx_upper s = map rx_upper t)"

definition word_at :: "bool \<Rightarrow> string list \<Rightarrow> string \<Rightarrow> string option" where
  "word_at cs words s = find (\<lambda>w. w \<noteq> [] \<and> same_text cs (take (length w) s) w) words"

fun find_match :: "bool \<Rightarrow> string list \<Rightarrow> string \<Rightarrow> (nat \<times> nat) option" where
  "find_match cs words [] = None"
| "find_match cs words (c # s) =
     (case word_at cs words (c # s) of
        Some w \<Rightarrow> Some (0, length w)
      | None \<Rightarrow> map_option (\<lambda>(i, l). (Suc i, l)) (find_match cs words s))"

lemma same_text_length: "same_text cs s t \<Longrightarrow> length s = length t"
  by (auto simp: same_text_def split: if_splits dest: map_eq_imp_length_eq)

lemma word_at_Some: "word_at cs words s = Some w \<Longrightarrow> 0 < length w \<and> length w \<le> length s"
  by (auto simp: word_at_def find_Some_iff dest!: same_text_length)

lemma find_match_bounds: "find_match cs words s = Some (i, l) \<Longrightarrow> 0 < l \<and> i + l \<le> length s"
proof (induction s arbitrary: i)
  case (Cons c s)
  show ?case
  proof (cases "word_at cs words (c # s)")
    case None
    with Cons show ?thesis by auto
  next
    case (Some w)
    with Cons.prems word_at_Some [OF Some] show ?thesis by auto
  qed
qed simp

section \<open>The plugin\<close>

text \<open>\<open>/(script|style)/i.test(node.tagName)\<close>.\<close>

definition no_text_tag :: "string \<Rightarrow> bool" where
  "no_text_tag t = (find_match False [''script'', ''style''] t \<noteq> None)"

text \<open>
  \<open>jQuery.highlight\<close> on the children of an element, \<open>tag\<close> and \<open>cls\<close> being those of a mark. A text with a match
  is cut in three and the middle one is wrapped; the loop goes on with the third.
\<close>

function (sequential) highlight_list :: "bool \<Rightarrow> string list \<Rightarrow> string \<Rightarrow> string \<Rightarrow> node list \<Rightarrow> node list" where
  "highlight_list cs words tag cls [] = []"
| "highlight_list cs words tag cls (Text s # ns) =
     (case find_match cs words s of
        None \<Rightarrow> Text s # highlight_list cs words tag cls ns
      | Some (i, l) \<Rightarrow>
          Text (take i s) # Element tag cls [Text (take l (drop i s))] #
          highlight_list cs words tag cls (Text (drop (i + l) s) # ns))"
| "highlight_list cs words tag cls (Element t c ch # ns) =
     Element t c (if \<not> no_text_tag t \<and> \<not> (t = tag \<and> c = cls) then highlight_list cs words tag cls ch else ch) #
     highlight_list cs words tag cls ns"
  by pat_completeness auto

fun node_size :: "node \<Rightarrow> nat" and nodes_size :: "node list \<Rightarrow> nat" where
  "node_size (Text s) = Suc (length s)"
| "node_size (Element t c ch) = Suc (nodes_size ch)"
| "nodes_size [] = 0"
| "nodes_size (n # ns) = Suc (node_size n + nodes_size ns)"

termination highlight_list
  by (relation "measure (\<lambda>(cs, words, tag, cls, ns). nodes_size ns)") (auto dest!: find_match_bounds)

text \<open>\<open>$.fn.highlight\<close> on one element: nothing happens without a word.\<close>

definition fn_highlight :: "string list \<Rightarrow> string \<Rightarrow> node \<Rightarrow> node" where
  "fn_highlight words element n =
     (let words = filter (\<lambda>w. w \<noteq> []) words in
      if words = [] then n
      else case n of
        Text s \<Rightarrow> Text s
      | Element t c ch \<Rightarrow> hd (highlight_list False words (map to_upper element) ''highlight'' [Element t c ch]))"

text \<open>\<open>normalize\<close>: empty texts are dropped and neighbours are joined, in the whole subtree.\<close>

fun join_text :: "string \<Rightarrow> node list \<Rightarrow> node list" where
  "join_text s (Text t # ns) = Text (s @ t) # ns"
| "join_text s ns = (if s = [] then ns else Text s # ns)"

fun normalize_node :: "node \<Rightarrow> node" and normalize_list :: "node list \<Rightarrow> node list" where
  "normalize_node (Text s) = Text s"
| "normalize_node (Element t c ch) = Element t c (normalize_list ch)"
| "normalize_list [] = []"
| "normalize_list (n # ns) = (case n of Text s \<Rightarrow> join_text s (normalize_list ns) | Element _ _ _ \<Rightarrow> normalize_node n # normalize_list ns)"

text \<open>The selector \<open>mark.highlight\<close>: the class is one of those of the element.\<close>

definition is_mark :: "string \<Rightarrow> string \<Rightarrow> node \<Rightarrow> bool" where
  "is_mark tag cls n = (case n of Element t c _ \<Rightarrow> t = tag \<and> cls \<in> set (split_on (CHR '' '') c) | Text _ \<Rightarrow> False)"

text \<open>
  \<open>$.fn.unhighlight\<close>: each mark is replaced by its first child, and the element that held it is normalised. A
  mark without a child makes \<open>replaceChild\<close> fail.
\<close>

fun unmark :: "string \<Rightarrow> string \<Rightarrow> node \<Rightarrow> (js_error, node) result"
  and unmark_list :: "string \<Rightarrow> string \<Rightarrow> node list \<Rightarrow> (js_error, node list) result" where
  "unmark tag cls (Text s) = Inr (Text s)"
| "unmark tag cls (Element t c ch) =
     bind_result (unmark_list tag cls ch) (\<lambda>ch'.
     if is_mark tag cls (Element t c ch) then (case ch' of [] \<Rightarrow> Inl (TypeError ''replaceChild'') | x # _ \<Rightarrow> Inr x)
     else Inr (Element t c (if list_ex (is_mark tag cls) ch then normalize_list ch' else ch')))"
| "unmark_list tag cls [] = Inr []"
| "unmark_list tag cls (n # ns) =
     bind_result (unmark tag cls n) (\<lambda>n'. bind_result (unmark_list tag cls ns) (\<lambda>ns'. Inr (n' # ns')))"

text \<open>The search below an element does not look at the element itself.\<close>

definition fn_unhighlight :: "string \<Rightarrow> node \<Rightarrow> (js_error, node) result" where
  "fn_unhighlight element n =
     (case n of
        Text s \<Rightarrow> Inr (Text s)
      | Element t c ch \<Rightarrow>
          (let tag = map to_upper element in
           bind_result (unmark_list tag ''highlight'' ch) (\<lambda>ch'.
           Inr (Element t c (if list_ex (is_mark tag ''highlight'') ch then normalize_list ch' else ch')))))"

section \<open>Texts\<close>

fun text_of :: "node \<Rightarrow> string" and texts_of :: "node list \<Rightarrow> string" where
  "text_of (Text s) = s"
| "text_of (Element t c ch) = texts_of ch"
| "texts_of [] = []"
| "texts_of (n # ns) = text_of n @ texts_of ns"

text \<open>The texts that stand outside every mark, script and style.\<close>

fun loose_texts :: "string \<Rightarrow> string \<Rightarrow> node list \<Rightarrow> string list" where
  "loose_texts tag cls [] = []"
| "loose_texts tag cls (Text s # ns) = s # loose_texts tag cls ns"
| "loose_texts tag cls (Element t c ch # ns) =
     (if no_text_tag t \<or> t = tag \<and> c = cls then [] else loose_texts tag cls ch) @ loose_texts tag cls ns"

lemma highlight_texts: "texts_of (highlight_list cs words tag cls ns) = texts_of ns"
proof (induction cs words tag cls ns rule: highlight_list.induct)
  case (2 cs words tag cls s ns)
  show ?case
  proof (cases "find_match cs words s")
    case (Some il)
    then obtain i l where il: "find_match cs words s = Some (i, l)" by (cases il) auto
    have "take i s @ take l (drop i s) @ drop (i + l) s = s"
      by (metis append_take_drop_id drop_drop add.commute)
    with 2(2) [OF il refl] il show ?thesis by (simp flip: append_assoc)
  qed (use 2(1) in simp)
qed simp_all

lemma find_match_take: "find_match cs words s = Some (i, l) \<Longrightarrow> find_match cs words (take i s) = None"
proof (induction s arbitrary: i)
  case (Cons c s)
  show ?case
  proof (cases "word_at cs words (c # s)")
    case None
    with Cons.prems obtain j where j: "i = Suc j" "find_match cs words s = Some (j, l)" by auto
    have "word_at cs words (c # take j s) = None"
    proof (rule ccontr)
      assume "word_at cs words (c # take j s) \<noteq> None"
      then obtain w where w: "w \<in> set words" "w \<noteq> []" "same_text cs (take (length w) (c # take j s)) w"
        by (auto simp: word_at_def find_None_iff find_Some_iff)
      then have "length w \<le> length (c # take j s)" by (auto dest!: same_text_length)
      then have "take (length w) (c # take j s) = take (length w) (c # s)" by (cases w) auto
      with w None show False by (auto simp: word_at_def find_None_iff)
    qed
    with j Cons.IH show ?thesis by simp
  qed (use Cons.prems in auto)
qed simp

lemma highlight_loose:
  "s \<in> set (loose_texts tag cls (highlight_list cs words tag cls ns)) \<Longrightarrow> find_match cs words s = None"
proof (induction cs words tag cls ns rule: highlight_list.induct)
  case (2 cs words tag cls t ns)
  show ?case
  proof (cases "find_match cs words t")
    case None
    with 2(1,3) show ?thesis by auto
  next
    case (Some il)
    then obtain i l where il: "find_match cs words t = Some (i, l)" by (cases il) auto
    with 2(2) [OF il refl] 2(3) find_match_take [OF il] show ?thesis by (auto split: if_splits)
  qed
next
  case (3 cs words tag cls t c ch ns)
  then show ?case by (auto split: if_splits)
qed simp

section \<open>Marking and taking the marks away\<close>

fun no_marks :: "string \<Rightarrow> string \<Rightarrow> node list \<Rightarrow> bool" where
  "no_marks tag cls [] = True"
| "no_marks tag cls (Text s # ns) = no_marks tag cls ns"
| "no_marks tag cls (Element t c ch # ns) =
     (\<not> is_mark tag cls (Element t c ch) \<and> no_marks tag cls ch \<and> no_marks tag cls ns)"

lemma join_text_append: "join_text a (join_text b ns) = join_text (a @ b) ns"
  by (induction b ns rule: join_text.induct) auto

lemma join_text_Nil: "(\<And>t r. ns = Text t # r \<Longrightarrow> t \<noteq> []) \<Longrightarrow> join_text [] ns = ns"
  by (cases "([] :: string, ns)" rule: join_text.cases) auto

lemma normalize_join: "normalize_list ns = ns \<Longrightarrow> normalize_list (join_text s ns) = join_text s ns"
proof (cases "(s, ns)" rule: join_text.cases)
  case (1 s' t r)
  assume n: "normalize_list ns = ns"
  then have e: "join_text t (normalize_list r) = Text t # r" using 1 by simp
  have "normalize_list (Text (s @ t) # r) = join_text s (join_text t (normalize_list r))" by (simp add: join_text_append)
  then show ?thesis using 1 by (simp only: e prod.inject join_text.simps)
qed auto

lemma normalize_idem:
  "normalize_node (normalize_node n) = normalize_node n" "normalize_list (normalize_list ns) = normalize_list ns"
proof (induction n and ns rule: normalize_node_normalize_list.induct)
  case (4 n ns)
  then show ?case by (cases n) (simp_all add: normalize_join)
qed simp_all

lemma normalize_start: "normalize_list ns = Text t # r \<Longrightarrow> t \<noteq> []"
proof (induction ns arbitrary: t r)
  case (Cons n ns)
  then show ?case
  proof (cases n)
    case (Text s)
    with Cons show ?thesis
      by (cases "(s, normalize_list ns)" rule: join_text.cases) (auto split: if_splits)
  qed simp
qed simp

lemma normal_text_tail: "normalize_list (Text s # ns) = Text s # ns \<Longrightarrow> normalize_list ns = ns"
proof (cases "(s, normalize_list ns)" rule: join_text.cases)
  case (1 s' t r)
  assume "normalize_list (Text s # ns) = Text s # ns"
  with 1 have "t = []" by auto
  with 1 normalize_start [of ns t r] show ?thesis by simp
qed (auto split: if_splits)

lemma is_mark_children: "is_mark tag cls (Element t c ch) = is_mark tag cls (Element t c ch')"
  by (simp add: is_mark_def)

lemma unmark_none: "no_marks tag cls ns \<Longrightarrow> unmark_list tag cls ns = Inr ns"
proof (induction tag cls ns rule: no_marks.induct)
  case (3 tag cls t c ch ns)
  have "\<not> list_ex (is_mark tag cls) ch"
    using 3(3) by (induction tag cls ch rule: no_marks.induct) (auto simp: is_mark_def)
  with 3 show ?case by simp
qed simp_all

text \<open>Taking the marks away gives the page back, up to texts that were cut.\<close>

lemma unmark_highlight:
  assumes "\<And>ch. is_mark tag cls (Element tag cls ch)" and "no_marks tag cls ns"
  shows "\<exists>us. unmark_list tag cls (highlight_list cs words tag cls ns) = Inr us \<and> normalize_list us = normalize_list ns \<and>
    (normalize_list ns = ns \<longrightarrow> \<not> list_ex (is_mark tag cls) (highlight_list cs words tag cls ns) \<longrightarrow> us = ns)"
  using assms
proof (induction cs words tag cls ns rule: highlight_list.induct)
  case (2 cs words tag cls s ns)
  show ?case
  proof (cases "find_match cs words s")
    case None
    with 2 obtain us where us: "unmark_list tag cls (highlight_list cs words tag cls ns) = Inr us"
      "normalize_list us = normalize_list ns"
      "normalize_list ns = ns \<longrightarrow> \<not> list_ex (is_mark tag cls) (highlight_list cs words tag cls ns) \<longrightarrow> us = ns" by auto
    with None normal_text_tail [of s ns] show ?thesis by auto
  next
    case (Some il)
    then obtain i l where il: "find_match cs words s = Some (i, l)" by (cases il) auto
    with 2(2) [OF il refl 2(3)] 2(4) obtain us where us:
      "unmark_list tag cls (highlight_list cs words tag cls (Text (drop (i + l) s) # ns)) = Inr us"
      "normalize_list us = normalize_list (Text (drop (i + l) s) # ns)" by auto
    have "take i s @ take l (drop i s) @ drop (i + l) s = s" by (metis append_take_drop_id drop_drop add.commute)
    then have "normalize_list (Text (take i s) # Text (take l (drop i s)) # us) = normalize_list (Text s # ns)"
      using us(2) by (simp add: join_text_append)
    with us(1) il 2(3) show ?thesis by auto
  qed
next
  case (3 cs words tag cls t c ch ns)
  from 3 obtain us where us: "unmark_list tag cls (highlight_list cs words tag cls ns) = Inr us"
    "normalize_list us = normalize_list ns"
    "normalize_list ns = ns \<longrightarrow> \<not> list_ex (is_mark tag cls) (highlight_list cs words tag cls ns) \<longrightarrow> us = ns" by auto
  have nm: "\<not> is_mark tag cls (Element t c x)" for x using 3(4) is_mark_children by fastforce
  then have tc: "\<not> (t = tag \<and> c = cls)" using 3(3) by auto
  show ?case
  proof (cases "no_text_tag t")
    case True
    have "unmark_list tag cls [Element t c ch] = Inr [Element t c ch]"
      using 3(4) by (intro unmark_none) simp
    then have "unmark tag cls (Element t c ch) = Inr (Element t c ch)"
      by (simp add: bind_result_Ok_iff del: unmark.simps)
    with True us nm show ?thesis by (auto simp del: unmark.simps)
  next
    case False
    with tc 3(1) 3(3,4) obtain vs where vs: "unmark_list tag cls (highlight_list cs words tag cls ch) = Inr vs"
      "normalize_list vs = normalize_list ch"
      "normalize_list ch = ch \<longrightarrow> \<not> list_ex (is_mark tag cls) (highlight_list cs words tag cls ch) \<longrightarrow> vs = ch" by auto
    with False tc us nm normalize_idem show ?thesis by auto
  qed
qed simp

lemma highlight_idle:
  "(\<And>s. s \<in> set (loose_texts tag cls ns) \<Longrightarrow> find_match cs words s = None) \<Longrightarrow> highlight_list cs words tag cls ns = ns"
proof (induction cs words tag cls ns rule: highlight_list.induct)
  case (3 cs words tag cls t c ch ns)
  then show ?case by (auto split: if_splits)
qed simp_all

lemma highlight_again: "highlight_list cs words tag cls (highlight_list cs words tag cls ns) = highlight_list cs words tag cls ns"
  by (rule highlight_idle) (rule highlight_loose)

section \<open>The search input\<close>

text \<open>
  The value of the input, the entry \<open>search-value\<close> of the session's storage, the number of handlers that are
  registered for the button that clears the input, and the part of the page that is marked. The styles of
  the menu entries are left out.
\<close>

record search_page =
  sp_value :: string
  sp_stored :: "string option"
  sp_clears :: nat
  sp_root :: node

definition search_input :: "search_page \<Rightarrow> (js_error, search_page) result" where
  "search_input st =
     (let v = sp_value st in
      bind_result (fn_unhighlight ''mark'' (sp_root st)) (\<lambda>root.
      if v = [] then Inr (st\<lparr>sp_stored := None, sp_root := root\<rparr>)
      else Inr (st\<lparr>sp_stored := Some v, sp_root := fn_highlight [v] ''mark'' root, sp_clears := Suc (sp_clears st)\<rparr>)))"

text \<open>The button: every handler that was registered runs.\<close>

definition clear_once :: "search_page \<Rightarrow> (js_error, search_page) result" where
  "clear_once st =
     bind_result (search_input (st\<lparr>sp_value := []\<rparr>)) (\<lambda>st1.
     bind_result (fn_unhighlight ''mark'' (sp_root st1)) (\<lambda>root. Inr (st1\<lparr>sp_root := root\<rparr>)))"

fun clear_times :: "nat \<Rightarrow> search_page \<Rightarrow> (js_error, search_page) result" where
  "clear_times 0 st = Inr st"
| "clear_times (Suc n) st = bind_result (clear_once st) (clear_times n)"

definition search_clear :: "search_page \<Rightarrow> (js_error, search_page) result" where
  "search_clear st = clear_times (sp_clears st) st"

text \<open>A page that is opened takes over the value of the last one; when it has loaded, it is marked once more.\<close>

definition search_restore :: "search_page \<Rightarrow> (js_error, search_page) result" where
  "search_restore st =
     (case sp_stored st of
        Some v \<Rightarrow> if v \<noteq> [] then search_input (st\<lparr>sp_value := v\<rparr>) else Inr st
      | None \<Rightarrow> Inr st)"

definition search_loaded :: "search_page \<Rightarrow> search_page" where
  "search_loaded st = (case sp_stored st of Some v \<Rightarrow> st\<lparr>sp_root := fn_highlight [v] ''mark'' (sp_root st)\<rparr> | None \<Rightarrow> st)"

fun type_all :: "string list \<Rightarrow> search_page \<Rightarrow> (js_error, search_page) result" where
  "type_all [] st = Inr st"
| "type_all (v # vs) st = bind_result (search_input (st\<lparr>sp_value := v\<rparr>)) (type_all vs)"

definition plain_page :: "node \<Rightarrow> bool" where
  "plain_page root = (case root of Element t c ch \<Rightarrow> no_marks ''MARK'' ''highlight'' [root] \<and> normalize_list ch = ch | Text _ \<Rightarrow> False)"

definition marked_for :: "string \<Rightarrow> node \<Rightarrow> node" where
  "marked_for v root = (if v = [] then root else fn_highlight [v] ''mark'' root)"

lemma mark_tag: "map to_upper ''mark'' = ''MARK''" by code_simp

lemma mark_is_mark: "is_mark ''MARK'' ''highlight'' (Element ''MARK'' ''highlight'' ch)"
  by (simp add: is_mark_def)

lemma fn_highlight_word:
  assumes "v \<noteq> []"
  shows "fn_highlight [v] ''mark'' (Element t c ch) =
    Element t c (if \<not> no_text_tag t \<and> \<not> (t = ''MARK'' \<and> c = ''highlight'') then highlight_list False [v] ''MARK'' ''highlight'' ch else ch)"
  using assms unfolding fn_highlight_def mark_tag by simp

lemma unhighlight_marked:
  assumes "plain_page root"
  shows "fn_unhighlight ''mark'' (marked_for v root) = Inr root"
proof -
  obtain t c ch where root: "root = Element t c ch" and nm: "no_marks ''MARK'' ''highlight'' [root]" and norm: "normalize_list ch = ch"
    using assms by (auto simp: plain_page_def split: node.splits)
  have ch: "no_marks ''MARK'' ''highlight'' ch" using nm root by simp
  then have plain: "unmark_list ''MARK'' ''highlight'' ch = Inr ch" "\<not> list_ex (is_mark ''MARK'' ''highlight'') ch"
    by (auto simp: unmark_none) (induction "''MARK''" "''highlight''" ch rule: no_marks.induct, auto simp: is_mark_def)
  obtain us where us: "unmark_list ''MARK'' ''highlight'' (highlight_list False [v] ''MARK'' ''highlight'' ch) = Inr us"
    "normalize_list us = ch"
    "\<not> list_ex (is_mark ''MARK'' ''highlight'') (highlight_list False [v] ''MARK'' ''highlight'' ch) \<longrightarrow> us = ch"
    using unmark_highlight [OF mark_is_mark ch, of False "[v]"] norm by auto
  show ?thesis
    using plain us unfolding root marked_for_def fn_unhighlight_def mark_tag
    by (auto simp: fn_highlight_word Let_def)
qed

section \<open>Properties\<close>

text \<open>
  C21. Marking a page changes nothing of its text; afterwards no text outside the marks, scripts and styles
  contains one of the words; and marking it again, as the page does when it has loaded, changes nothing.
\<close>

theorem highlight_marks_all:
  "texts_of (highlight_list cs words tag cls ns) = texts_of ns \<and>
   list_all (\<lambda>s. find_match cs words s = None) (loose_texts tag cls (highlight_list cs words tag cls ns)) \<and>
   highlight_list cs words tag cls (highlight_list cs words tag cls ns) = highlight_list cs words tag cls ns"
  using highlight_texts highlight_loose highlight_again by (simp add: list_all_iff)

text \<open>
  C18. The marks on the page are those of the last text that was typed, whatever was typed before: each
  input takes the marks of the one before away without a trace. Clearing the input gives the page as it was.
\<close>

theorem marks_follow_last_input:
  assumes "plain_page (sp_root st)"
  shows "\<exists>st'. type_all (vs @ [v]) st = Inr st' \<and> sp_root st' = marked_for v (sp_root st) \<and>
    sp_stored st' = (if v = [] then None else Some v) \<and>
    (sp_clears st' \<noteq> 0 \<longrightarrow> (\<exists>st''. search_clear st' = Inr st'' \<and> sp_root st'' = sp_root st \<and> sp_value st'' = [] \<and> sp_stored st'' = None))"
proof -
  let ?root = "sp_root st"
  have input: "\<exists>st2. search_input st1 = Inr st2 \<and> sp_root st2 = marked_for (sp_value st1) ?root \<and> sp_value st2 = sp_value st1 \<and>
      sp_stored st2 = (if sp_value st1 = [] then None else Some (sp_value st1))"
    if "sp_root st1 = marked_for u ?root" for u st1
    using unhighlight_marked [OF assms, of u] that by (simp add: search_input_def Let_def marked_for_def)
  have typed: "\<exists>st'. type_all (vs @ [v]) st1 = Inr st' \<and> sp_root st' = marked_for v ?root \<and>
      sp_stored st' = (if v = [] then None else Some v)" if "sp_root st1 = marked_for u ?root" for st1 u
    using that
  proof (induction vs arbitrary: st1 u)
    case Nil
    then show ?case using input [of "st1\<lparr>sp_value := v\<rparr>" u] by auto
  next
    case (Cons x vs)
    then obtain st2 where "search_input (st1\<lparr>sp_value := x\<rparr>) = Inr st2" "sp_root st2 = marked_for x ?root"
      using input [of "st1\<lparr>sp_value := x\<rparr>" u] by auto
    with Cons.IH show ?case by simp
  qed
  have once: "\<exists>st2. clear_once st1 = Inr st2 \<and> sp_root st2 = ?root \<and> sp_value st2 = [] \<and> sp_stored st2 = None"
    if "sp_root st1 = marked_for u ?root" for u st1
    using input [of "st1\<lparr>sp_value := []\<rparr>" u] that unhighlight_marked [OF assms, of "[]"]
    by (auto simp: clear_once_def marked_for_def)
  have clear: "\<exists>st2. clear_times (Suc n) st1 = Inr st2 \<and> sp_root st2 = ?root \<and> sp_value st2 = [] \<and> sp_stored st2 = None"
    if "sp_root st1 = marked_for u ?root" for n u st1
    using that
  proof (induction n arbitrary: st1 u)
    case 0
    then obtain st2 where "clear_once st1 = Inr st2" "sp_root st2 = ?root" "sp_value st2 = []" "sp_stored st2 = None"
      using once by blast
    then show ?case by simp
  next
    case (Suc n)
    then obtain st2 where st2: "clear_once st1 = Inr st2" "sp_root st2 = ?root" using once by blast
    from Suc.IH [of st2 "[]"] st2 show ?case by (auto simp: marked_for_def)
  qed
  obtain st' where st': "type_all (vs @ [v]) st = Inr st'" "sp_root st' = marked_for v ?root"
    "sp_stored st' = (if v = [] then None else Some v)"
    using typed [of st "[]"] by (auto simp: marked_for_def)
  have "sp_clears st' \<noteq> 0 \<longrightarrow>
      (\<exists>st''. search_clear st' = Inr st'' \<and> sp_root st'' = ?root \<and> sp_value st'' = [] \<and> sp_stored st'' = None)"
    using clear [OF st'(2)] unfolding search_clear_def by (metis not0_implies_Suc)
  with st' show ?thesis by blast
qed

definition sample_page_tree :: node where
  "sample_page_tree = Element ''DIV'' ''highlightable''
     [Element ''P'' '''' [Text ''A dns, a DNS server''], Element ''SCRIPT'' '''' [Text ''dns()'']]"

theorem marks_follow_last_input_witness:
  "\<exists>st'. type_all [''server'', ''dns''] \<lparr>sp_value = '''', sp_stored = None, sp_clears = 0, sp_root = sample_page_tree\<rparr> = Inr st' \<and>
    sp_root st' = Element ''DIV'' ''highlightable''
      [Element ''P'' '''' [Text ''A '', Element ''MARK'' ''highlight'' [Text ''dns''], Text '', a '',
         Element ''MARK'' ''highlight'' [Text ''DNS''], Text '' server''], Element ''SCRIPT'' '''' [Text ''dns()'']]"
proof -
  let ?st = "\<lparr>sp_value = '''', sp_stored = None, sp_clears = 0, sp_root = sample_page_tree\<rparr>"
  have "plain_page (sp_root ?st)" by code_simp
  from marks_follow_last_input [OF this, of "[''server'']" "''dns''"]
  obtain st' where "type_all [''server'', ''dns''] ?st = Inr st'" "sp_root st' = marked_for ''dns'' sample_page_tree" by auto
  moreover have "marked_for ''dns'' sample_page_tree = Element ''DIV'' ''highlightable''
      [Element ''P'' '''' [Text ''A '', Element ''MARK'' ''highlight'' [Text ''dns''], Text '', a '',
         Element ''MARK'' ''highlight'' [Text ''DNS''], Text '' server''], Element ''SCRIPT'' '''' [Text ''dns()'']]" by code_simp
  ultimately show ?thesis by auto
qed

end
