(* ===== verification/Sticky.thy ===== *)
theory Sticky
  imports JsBase
begin

text \<open>
  \<open>docs/themes/hugo-theme-learn/static/js/jquery.sticky.js\<close>: the top bar of the documentation stays on
  the screen while the page is scrolled. What the browser measures is an argument of each handler, in whole
  pixels; the styles and classes that the plugin sets on an element and on its wrapper are kept with the
  element's entry, since an element is made sticky at most once.
\<close>

section \<open>State\<close>

datatype css_position = PosUnset | PosFixed | PosAbsolute

record css =
  css_width :: "int option"
  css_pos :: css_position
  css_top :: "int option"
  css_bottom :: "int option"
  css_zIndex :: "string option"
  css_float :: "string option"

definition css_empty :: css where
  "css_empty = \<lparr>css_width = None, css_pos = PosUnset, css_top = None, css_bottom = None, css_zIndex = None,
     css_float = None\<rparr>"

record sticky =
  sk_element :: nat
  topSpacing :: int
  bottomSpacing :: int
  zIndex :: string
  getWidthFrom :: bool
  widthFromWrapper :: bool
  responsiveWidth :: bool
  currentTop :: "int option"
  sk_css :: css
  sk_marked :: bool
  wrapperHeight :: int
  wrapperFloat :: "string option"
  wrapperCentered :: "int option"

text \<open>
  The measures of an element at one moment: \<open>mz_elementTop\<close> is its offset once the position has been set, \<open>mz_from\<close>
  the width of the element named by \<open>getWidthFrom\<close>, if there is one.
\<close>

record measures =
  mz_wrapperTop :: int
  mz_outerHeight :: int
  mz_elementTop :: int
  mz_wrapperWidth :: int
  mz_width :: int
  mz_innerWidth :: int
  mz_outerWidth :: int
  mz_float :: string
  mz_from :: "int option"
  mz_containerTop :: int
  mz_containerHeight :: int

record window =
  win_scrollTop :: int
  win_documentHeight :: int
  win_measures :: "nat \<Rightarrow> measures"

datatype sticky_event = StickyStart | StickyUpdate | StickyEnd | BottomReached | BottomUnreached

record sticky_page =
  windowHeight :: int
  sticked :: "sticky list"

section \<open>Scrolling\<close>

definition extra_scroll :: "int \<Rightarrow> window \<Rightarrow> int" where
  "extra_scroll wh w =
     (let dwh = win_documentHeight w - wh in if win_scrollTop w > dwh then dwh - win_scrollTop w else 0)"

definition new_top :: "window \<Rightarrow> int \<Rightarrow> measures \<Rightarrow> sticky \<Rightarrow> int" where
  "new_top w extra mz s =
     (let newTop = win_documentHeight w - mz_outerHeight mz - topSpacing s - bottomSpacing s - win_scrollTop w - extra in
      if newTop < 0 then newTop + topSpacing s else topSpacing s)"

text \<open>
  \<open>$(s.getWidthFrom).width() - padding || null\<close>: no element and a width of zero both give \<open>null\<close>. The variable
  is declared inside the loop without a value, so that it still has the value of the entry before.
\<close>

definition new_width :: "measures \<Rightarrow> sticky \<Rightarrow> int option \<Rightarrow> int" where
  "new_width mz s before =
     (let from_other = (case mz_from mz of
            Some v \<Rightarrow> let w = v - (mz_innerWidth mz - mz_width mz) in if w \<noteq> 0 then Some w else None
          | None \<Rightarrow> None);
          w = (if getWidthFrom s then from_other else if widthFromWrapper s then Some (mz_wrapperWidth mz) else before)
      in case w of Some v \<Rightarrow> v | None \<Rightarrow> mz_width mz)"

definition stick_events :: "sticky \<Rightarrow> int \<Rightarrow> sticky_event list" where
  "stick_events s newTop =
     (if currentTop s = None then [StickyStart] else [StickyUpdate]) @
     (if currentTop s = Some (topSpacing s) \<and> topSpacing s > newTop \<or> currentTop s = None \<and> newTop < topSpacing s
      then [BottomReached]
      else if (case currentTop s of Some t \<Rightarrow> newTop = topSpacing s \<and> t < newTop | None \<Rightarrow> False)
      then [BottomUnreached] else [])"

definition scroll_one :: "int \<Rightarrow> window \<Rightarrow> int option \<Rightarrow> sticky \<Rightarrow> (sticky \<times> sticky_event list) \<times> int option" where
  "scroll_one wh w before s0 =
     (let mz = win_measures w (sk_element s0);
          extra = extra_scroll wh w;
          etse = mz_wrapperTop mz - topSpacing s0 - extra;
          s = s0\<lparr>wrapperHeight := mz_outerHeight mz\<rparr> in
      if win_scrollTop w \<le> etse then
        (if currentTop s \<noteq> None then
          (s\<lparr>sk_css := (sk_css s)\<lparr>css_width := None, css_pos := PosUnset, css_top := None, css_zIndex := None\<rparr>,
             sk_marked := False, currentTop := None\<rparr>, [StickyEnd])
         else (s, []), before)
      else
        (let newTop = new_top w extra mz s;
             moved = (currentTop s \<noteq> Some newTop);
             newWidth = new_width mz s before;
             (s1, es) =
               (if moved then
                  (s\<lparr>sk_css := (sk_css s)\<lparr>css_width := Some newWidth, css_pos := PosFixed, css_top := Some newTop,
                       css_zIndex := Some (zIndex s)\<rparr>,
                     sk_marked := True, currentTop := Some newTop\<rparr>, stick_events s newTop)
                else (s, []));
             unstick = mz_elementTop mz + mz_outerHeight mz \<ge> mz_containerTop mz + mz_containerHeight mz \<and>
               mz_elementTop mz \<le> topSpacing s in
         (if unstick then
            (s1\<lparr>sk_css := (sk_css s1)\<lparr>css_pos := PosAbsolute, css_top := None, css_bottom := Some 0,
               css_zIndex := None\<rparr>\<rparr>, es)
          else
            (s1\<lparr>sk_css := (sk_css s1)\<lparr>css_pos := PosFixed, css_top := Some newTop, css_bottom := None,
               css_zIndex := Some (zIndex s)\<rparr>\<rparr>, es),
          if moved then Some newWidth else before)))"

fun scroll_all :: "int \<Rightarrow> window \<Rightarrow> int option \<Rightarrow> sticky list \<Rightarrow> (sticky \<times> sticky_event list) list" where
  "scroll_all wh w before [] = []"
| "scroll_all wh w before (s # ss) =
     (let (r, after) = scroll_one wh w before s in r # scroll_all wh w after ss)"

definition scroller :: "window \<Rightarrow> sticky_page \<Rightarrow> sticky_page \<times> (nat \<times> sticky_event) list" where
  "scroller w pg =
     (let rs = scroll_all (windowHeight pg) w None (sticked pg) in
      (pg\<lparr>sticked := map fst rs\<rparr>, concat (map (\<lambda>(s, es). map (Pair (sk_element s)) es) rs)))"

section \<open>Resizing, adding and removing\<close>

definition resize_one :: "(nat \<Rightarrow> measures) \<Rightarrow> sticky \<Rightarrow> sticky" where
  "resize_one ms s =
     (let mz = ms (sk_element s);
          newWidth = (if getWidthFrom s then (if responsiveWidth s then mz_from mz else None)
                      else if widthFromWrapper s then Some (mz_wrapperWidth mz) else None)
      in case newWidth of Some v \<Rightarrow> s\<lparr>sk_css := (sk_css s)\<lparr>css_width := Some v\<rparr>\<rparr> | None \<Rightarrow> s)"

definition resizer :: "int \<Rightarrow> (nat \<Rightarrow> measures) \<Rightarrow> sticky_page \<Rightarrow> sticky_page" where
  "resizer height ms pg = pg\<lparr>windowHeight := height, sticked := map (resize_one ms) (sticked pg)\<rparr>"

text \<open>The options of a call, each of them possibly left out, and the defaults.\<close>

record sticky_options =
  o_topSpacing :: "int option"
  o_bottomSpacing :: "int option"
  o_center :: "bool option"
  o_getWidthFrom :: "bool option"
  o_widthFromWrapper :: "bool option"
  o_responsiveWidth :: "bool option"
  o_zIndex :: "string option"

definition sticky_defaults :: "sticky_options" where
  "sticky_defaults = \<lparr>o_topSpacing = Some 0, o_bottomSpacing = Some 0, o_center = Some False, o_getWidthFrom = Some False,
     o_widthFromWrapper = Some True, o_responsiveWidth = Some False, o_zIndex = Some ''inherit''\<rparr>"

definition given :: "(sticky_options \<Rightarrow> 'a option) \<Rightarrow> sticky_options \<Rightarrow> 'a" where
  "given f o' = (case f o' of Some v \<Rightarrow> v | None \<Rightarrow> the (f sticky_defaults))"

definition setWrapperHeight :: "(nat \<Rightarrow> measures) \<Rightarrow> nat \<Rightarrow> sticky_page \<Rightarrow> sticky_page" where
  "setWrapperHeight ms el pg = pg\<lparr>sticked :=
     map (\<lambda>s. if sk_element s = el then s\<lparr>wrapperHeight := mz_outerHeight (ms el)\<rparr> else s) (sticked pg)\<rparr>"

definition sticky_init :: "sticky_options \<Rightarrow> (nat \<Rightarrow> measures) \<Rightarrow> nat \<Rightarrow> sticky_page \<Rightarrow> sticky_page" where
  "sticky_init opts ms el pg =
     (let right = (mz_float (ms el) = ''right'');
          o' = \<lparr>sk_element = el, topSpacing = given o_topSpacing opts, bottomSpacing = given o_bottomSpacing opts,
             zIndex = given o_zIndex opts, getWidthFrom = given o_getWidthFrom opts,
             widthFromWrapper = given o_widthFromWrapper opts, responsiveWidth = given o_responsiveWidth opts,
             currentTop = None, sk_css = css_empty\<lparr>css_float := if right then Some ''none'' else None\<rparr>,
             sk_marked = False, wrapperHeight = 0, wrapperFloat = (if right then Some ''right'' else None),
             wrapperCentered = (if given o_center opts then Some (mz_outerWidth (ms el)) else None)\<rparr>
      in setWrapperHeight ms el (pg\<lparr>sticked := sticked pg @ [o']\<rparr>))"

text \<open>The observer of an element: only the first of the reported mutations is looked at.\<close>

definition mutation_seen :: "(nat \<Rightarrow> measures) \<Rightarrow> nat \<Rightarrow> (nat \<times> nat) list \<Rightarrow> sticky_page \<Rightarrow> sticky_page" where
  "mutation_seen ms el mutations pg =
     (case mutations of
        (added, removed) # _ \<Rightarrow> if added \<noteq> 0 \<or> removed \<noteq> 0 then setWrapperHeight ms el pg else pg
      | [] \<Rightarrow> pg)"

text \<open>
  The loop of \<open>unstick\<close>, from the last entry to the first, and the styles that the element then has: \<open>None\<close> when
  it was not sticky.
\<close>

fun unstick_loop :: "nat \<Rightarrow> nat \<Rightarrow> sticky list \<Rightarrow> sticky option \<Rightarrow> sticky list \<times> sticky option" where
  "unstick_loop el 0 xs hit = (xs, hit)"
| "unstick_loop el (Suc i) xs hit =
     (if sk_element (xs ! i) = el then unstick_loop el i (remove_nth i xs) (Some (xs ! i))
      else unstick_loop el i xs hit)"

definition sticky_unstick :: "nat \<Rightarrow> sticky_page \<Rightarrow> sticky_page \<times> css option" where
  "sticky_unstick el pg =
     (let (ss, hit) = unstick_loop el (length (sticked pg)) (sticked pg) None in
      (pg\<lparr>sticked := ss\<rparr>,
       map_option (\<lambda>s. (sk_css s)\<lparr>css_width := None, css_pos := PosUnset, css_top := None, css_float := None,
         css_zIndex := None\<rparr>) hit))"

text \<open>What happens on the page, one event after the other, with the events that the plugin triggers.\<close>

datatype page_event =
    Scrolled window
  | Resized int "nat \<Rightarrow> measures"
  | Mutated "nat \<Rightarrow> measures" nat "(nat \<times> nat) list"
  | Added sticky_options "nat \<Rightarrow> measures" nat

fun page_step :: "page_event \<Rightarrow> sticky_page \<Rightarrow> sticky_page \<times> (nat \<times> sticky_event) list" where
  "page_step (Scrolled w) pg = scroller w pg"
| "page_step (Resized h ms) pg = (resizer h ms pg, [])"
| "page_step (Mutated ms el mutations) pg = (mutation_seen ms el mutations pg, [])"
| "page_step (Added opts ms el) pg = (sticky_init opts ms el pg, [])"

fun page_run :: "page_event list \<Rightarrow> sticky_page \<Rightarrow> sticky_page \<times> (nat \<times> sticky_event) list" where
  "page_run [] pg = (pg, [])"
| "page_run (e # es) pg = (let (pg1, out1) = page_step e pg; (pg2, out2) = page_run es pg1 in (pg2, out1 @ out2))"

section \<open>Lemmas\<close>

lemma new_top_min:
  "new_top w extra mz s =
     min (topSpacing s) (win_documentHeight w - mz_outerHeight mz - bottomSpacing s - win_scrollTop w - extra)"
  by (simp add: new_top_def Let_def)

text \<open>An element is marked and positioned exactly while it sticks.\<close>

definition sticky_inv :: "sticky \<Rightarrow> bool" where
  "sticky_inv s \<longleftrightarrow> sk_marked s = (currentTop s \<noteq> None) \<and> (css_pos (sk_css s) = PosUnset) = (currentTop s = None)"

definition past_top :: "int \<Rightarrow> window \<Rightarrow> sticky \<Rightarrow> bool" where
  "past_top wh w s \<longleftrightarrow>
     win_scrollTop w + extra_scroll wh w > mz_wrapperTop (win_measures w (sk_element s)) - topSpacing s"

definition stuck_top :: "int \<Rightarrow> window \<Rightarrow> sticky \<Rightarrow> int" where
  "stuck_top wh w s =
     min (topSpacing s) (win_documentHeight w - mz_outerHeight (win_measures w (sk_element s)) - bottomSpacing s -
       win_scrollTop w - extra_scroll wh w)"

lemma scroll_one_state:
  "sticky_inv s \<Longrightarrow> sticky_inv (fst (fst (scroll_one wh w bf s))) \<and>
   currentTop (fst (fst (scroll_one wh w bf s))) = (if past_top wh w s then Some (stuck_top wh w s) else None) \<and>
   topSpacing (fst (fst (scroll_one wh w bf s))) = topSpacing s \<and>
   bottomSpacing (fst (fst (scroll_one wh w bf s))) = bottomSpacing s \<and>
   sk_element (fst (fst (scroll_one wh w bf s))) = sk_element s"
  by (auto simp: scroll_one_def Let_def sticky_inv_def past_top_def stuck_top_def new_top_min)

lemma scroll_one_events:
  "count_list (snd (fst (scroll_one wh w bf s))) StickyStart = (if currentTop s = None \<and> past_top wh w s then 1 else 0)"
  "count_list (snd (fst (scroll_one wh w bf s))) StickyEnd = (if currentTop s \<noteq> None \<and> \<not> past_top wh w s then 1 else 0)"
  by (auto simp: scroll_one_def Let_def past_top_def stick_events_def)

lemma past_top_cong:
  "topSpacing s = topSpacing s' \<Longrightarrow> bottomSpacing s = bottomSpacing s' \<Longrightarrow> sk_element s = sk_element s' \<Longrightarrow>
   past_top wh w s = past_top wh w s' \<and> stuck_top wh w s = stuck_top wh w s'"
  by (simp add: past_top_def stuck_top_def)

text \<open>An entry is where the last scroll event puts it.\<close>

definition placed :: "int \<Rightarrow> window \<Rightarrow> sticky \<Rightarrow> bool" where
  "placed wh w s \<longleftrightarrow> currentTop s = (if past_top wh w s then Some (stuck_top wh w s) else None)"

definition stuck :: "sticky list \<Rightarrow> nat" where
  "stuck ss = length (filter (\<lambda>s. currentTop s \<noteq> None) ss)"

abbreviation triggered :: "sticky_event \<Rightarrow> (nat \<times> sticky_event) list \<Rightarrow> nat" where
  "triggered e out \<equiv> count_list (map snd out) e"

lemma scroll_all_state:
  "list_all sticky_inv ss \<Longrightarrow> list_all sticky_inv (map fst (scroll_all wh w bf ss)) \<and>
   list_all (placed wh w) (map fst (scroll_all wh w bf ss))"
proof (induction ss arbitrary: bf)
  case (Cons s ss)
  obtain s' es bf' where one: "scroll_one wh w bf s = ((s', es), bf')" by (metis surj_pair)
  with Cons.prems have "sticky_inv s' \<and> placed wh w s'"
    using scroll_one_state [of s wh w bf] past_top_cong [of s' s wh w] by (simp add: placed_def)
  with one Cons show ?case by simp
qed simp

lemma stuck_Cons: "stuck (s # ss) = (if currentTop s = None then 0 else 1) + stuck ss"
  by (simp add: stuck_def)

lemma scroll_all_events:
  "list_all sticky_inv ss \<Longrightarrow>
   stuck ss + (\<Sum>r \<leftarrow> scroll_all wh w bf ss. count_list (snd r) StickyStart) =
   stuck (map fst (scroll_all wh w bf ss)) + (\<Sum>r \<leftarrow> scroll_all wh w bf ss. count_list (snd r) StickyEnd)"
proof (induction ss arbitrary: bf)
  case (Cons s ss)
  obtain s' es bf' where one: "scroll_one wh w bf s = ((s', es), bf')" by (metis surj_pair)
  with Cons.prems have "(if currentTop s = None then 0 else 1) + count_list es StickyStart =
      (if currentTop s' = None then 0 else 1) + count_list es StickyEnd"
    using scroll_one_state [of s wh w bf] scroll_one_events [of wh w bf s] by simp
  moreover have "stuck ss + (\<Sum>r \<leftarrow> scroll_all wh w bf' ss. count_list (snd r) StickyStart) =
    stuck (map fst (scroll_all wh w bf' ss)) + (\<Sum>r \<leftarrow> scroll_all wh w bf' ss. count_list (snd r) StickyEnd)"
    using Cons by simp
  ultimately show ?case using one by (simp add: stuck_Cons)
qed (simp add: stuck_def)

lemma triggered_concat:
  "triggered e (concat (map (\<lambda>(s, es). map (Pair (k s)) es) rs)) = (\<Sum>r \<leftarrow> rs. count_list (snd r) e)"
  by (induction rs) (auto simp: comp_def)

lemma resize_one_keeps [simp]:
  "currentTop (resize_one ms s) = currentTop s" "sticky_inv (resize_one ms s) = sticky_inv s"
  by (simp_all add: resize_one_def Let_def sticky_inv_def split: option.splits)

lemma setWrapperHeight_keeps [simp]:
  "stuck (sticked (setWrapperHeight ms el pg)) = stuck (sticked pg)"
  "list_all sticky_inv (sticked (setWrapperHeight ms el pg)) = list_all sticky_inv (sticked pg)"
  by (simp_all add: setWrapperHeight_def stuck_def sticky_inv_def list_all_length filter_map comp_def if_distrib cong: if_cong)

lemma page_step_keeps:
  assumes "list_all sticky_inv (sticked pg)"
  shows "list_all sticky_inv (sticked (fst (page_step e pg))) \<and>
    stuck (sticked pg) + triggered StickyStart (snd (page_step e pg)) =
    stuck (sticked (fst (page_step e pg))) + triggered StickyEnd (snd (page_step e pg))"
proof (cases e)
  case (Scrolled w)
  then show ?thesis
    using assms scroll_all_state [OF assms] scroll_all_events [OF assms]
    by (simp add: scroller_def Let_def triggered_concat del: map_concat)
next
  case (Resized h ms)
  then show ?thesis using assms by (simp add: resizer_def stuck_def list.pred_map comp_def filter_map)
next
  case (Mutated ms el mutations)
  then show ?thesis using assms by (auto simp: mutation_seen_def split: list.splits)
next
  case (Added opts ms el)
  then show ?thesis
    using assms by (simp add: sticky_init_def Let_def) (simp add: stuck_def sticky_inv_def css_empty_def)
qed

lemma page_run_keeps:
  "list_all sticky_inv (sticked pg) \<Longrightarrow> list_all sticky_inv (sticked (fst (page_run es pg))) \<and>
   stuck (sticked pg) + triggered StickyStart (snd (page_run es pg)) =
   stuck (sticked (fst (page_run es pg))) + triggered StickyEnd (snd (page_run es pg))"
proof (induction es pg rule: page_run.induct)
  case (2 e es pg)
  obtain pg1 out1 where step: "page_step e pg = (pg1, out1)" by force
  obtain pg2 out2 where run: "page_run es pg1 = (pg2, out2)" by force
  from 2 step page_step_keeps [of pg e]
  have "list_all sticky_inv (sticked pg1)"
    "stuck (sticked pg) + triggered StickyStart out1 = stuck (sticked pg1) + triggered StickyEnd out1" by simp_all
  moreover from this(1) 2 step run
  have "list_all sticky_inv (sticked pg2)"
    "stuck (sticked pg1) + triggered StickyStart out2 = stuck (sticked pg2) + triggered StickyEnd out2" by simp_all
  ultimately show ?case using step run by simp
qed simp

lemma page_run_append:
  "page_run (xs @ ys) pg =
     (let (pg1, out1) = page_run xs pg; (pg2, out2) = page_run ys pg1 in (pg2, out1 @ out2))"
  by (induction xs pg rule: page_run.induct) (simp_all add: Let_def split: prod.splits)

lemma unstick_loop_filter:
  "i \<le> length xs \<Longrightarrow> fst (unstick_loop el i xs hit) = filter (\<lambda>s. sk_element s \<noteq> el) (take i xs) @ drop i xs"
proof (induction el i xs hit rule: unstick_loop.induct)
  case (2 el i xs hit)
  then have "take (Suc i) xs = take i xs @ [xs ! i]" "drop i xs = xs ! i # drop (Suc i) xs"
    by (simp_all add: take_Suc_conv_app_nth Cons_nth_drop_Suc)
  with 2 show ?case by (auto simp: remove_nth_def)
qed simp

lemma unstick_removes: "sticked (fst (sticky_unstick el pg)) = filter (\<lambda>s. sk_element s \<noteq> el) (sticked pg)"
  using unstick_loop_filter [of "length (sticked pg)" "sticked pg" el None]
  by (simp add: sticky_unstick_def case_prod_unfold)

lemma page_run_scrolled:
  assumes "list_all sticky_inv (sticked pg)"
  shows "list_all (placed (windowHeight (fst (page_run (es @ [Scrolled w]) pg))) w)
    (sticked (fst (page_run (es @ [Scrolled w]) pg)))"
proof -
  obtain pg1 out1 where run: "page_run es pg = (pg1, out1)" by force
  with page_run_keeps [OF assms, of es] have "list_all sticky_inv (sticked pg1)" by simp
  from scroll_all_state [OF this] run show ?thesis by (simp add: page_run_append scroller_def Let_def)
qed

text \<open>
  C32. Whatever has been scrolled, resized, changed and made sticky on a page before: after a scroll event every
  sticky element sticks exactly when the page is scrolled past its wrapper, less its spacing; it then stands
  at its spacing, or as much higher as it needs in order not to reach into the space kept free at the bottom
  of the document; it is marked and positioned exactly while it sticks; and of all elements together
  \<open>sticky-start\<close> has been triggered as often as \<open>sticky-end\<close>, once more for each element that sticks now.
\<close>

theorem scroll_decides:
  assumes "sticked pg = []" and "page_run (es @ [Scrolled w]) pg = (pg', out)"
  shows "(\<forall>s \<in> set (sticked pg'). sticky_inv s \<and>
      currentTop s =
        (let mz = win_measures w (sk_element s); extra = extra_scroll (windowHeight pg') w in
         if win_scrollTop w + extra > mz_wrapperTop mz - topSpacing s
         then Some (min (topSpacing s)
           (win_documentHeight w - win_scrollTop w - extra - mz_outerHeight mz - bottomSpacing s))
         else None)) \<and>
    triggered StickyStart out = triggered StickyEnd out + length (filter (\<lambda>s. currentTop s \<noteq> None) (sticked pg'))"
proof -
  have inv: "list_all sticky_inv (sticked pg)" "stuck (sticked pg) = 0" using assms(1) by (simp_all add: stuck_def)
  have placed: "list_all (placed (windowHeight pg') w) (sticked pg')" "list_all sticky_inv (sticked pg')"
    using page_run_scrolled [OF inv(1), of es w] page_run_keeps [OF inv(1), of "es @ [Scrolled w]"] assms(2) by simp_all
  have "triggered StickyStart out = triggered StickyEnd out + stuck (sticked pg')"
    using page_run_keeps [OF inv(1), of "es @ [Scrolled w]"] inv(2) assms(2) by simp
  with placed show ?thesis
    by (auto simp: list_all_iff placed_def past_top_def stuck_top_def stuck_def Let_def algebra_simps)
qed

definition sample_measures :: "nat \<Rightarrow> measures" where
  "sample_measures el = \<lparr>mz_wrapperTop = 100, mz_outerHeight = 50, mz_elementTop = 120, mz_wrapperWidth = 800,
     mz_width = 780, mz_innerWidth = 790, mz_outerWidth = 800, mz_float = ''none'', mz_from = None, mz_containerTop = 0,
     mz_containerHeight = 2000\<rparr>"

definition sample_window :: "int \<Rightarrow> window" where
  "sample_window st = \<lparr>win_scrollTop = st, win_documentHeight = 2000, win_measures = sample_measures\<rparr>"

definition sample_run :: "page_event list" where
  "sample_run = [Added \<lparr>o_topSpacing = Some 10, o_bottomSpacing = None, o_center = None, o_getWidthFrom = None,
     o_widthFromWrapper = None, o_responsiveWidth = None, o_zIndex = Some ''1000''\<rparr> sample_measures 7,
     Scrolled (sample_window 0), Scrolled (sample_window 200), Scrolled (sample_window 20)]"

definition sample_end :: "sticky_page \<times> (nat \<times> sticky_event) list" where
  "sample_end = page_run (sample_run @ [Scrolled (sample_window 300)]) \<lparr>windowHeight = 600, sticked = []\<rparr>"

lemma sample_end_eval:
  "map sk_element (sticked (fst sample_end)) = [7]" "map topSpacing (sticked (fst sample_end)) = [10]"
  "map bottomSpacing (sticked (fst sample_end)) = [0]" "windowHeight (fst sample_end) = 600"
  "triggered StickyEnd (snd sample_end) = 1"
  by code_simp+

theorem scroll_decides_witness:
  "map currentTop (sticked (fst sample_end)) = [Some 10] \<and> list_all sticky_inv (sticked (fst sample_end)) \<and>
   triggered StickyStart (snd sample_end) = 2"
proof -
  have run: "page_run (sample_run @ [Scrolled (sample_window 300)]) \<lparr>windowHeight = 600, sticked = []\<rparr> =
      (fst sample_end, snd sample_end)" by (simp add: sample_end_def)
  note facts = scroll_decides [OF _ run, simplified, THEN conjunct1] scroll_decides [OF _ run, simplified, THEN conjunct2]
  obtain s where s: "sticked (fst sample_end) = [s]" "sk_element s = 7" "topSpacing s = 10" "bottomSpacing s = 0"
    using sample_end_eval(1-3) by (auto simp: map_eq_Cons_conv)
  moreover from s facts(1) sample_end_eval(4) have "currentTop s = Some 10" "sticky_inv s"
    by (simp_all add: sample_window_def sample_measures_def extra_scroll_def Let_def)
  ultimately show ?thesis using facts(2) sample_end_eval(5) by simp
qed

end
