(* ===== verification/DocsPage.thy ===== *)
theory DocsPage
  imports Highlight Sticky Web
begin

text \<open>
  The other scripts of the documentation, \<open>learn.js\<close> and \<open>hugo-learn.js\<close> under
  \<open>docs/themes/hugo-theme-learn/static/js\<close>: the delayed reaction to resizing, the side bar, the pages that were
  visited, anchors, the buttons that copy code and links, and the parameters in the addresses of images. Sizes
  and positions are whole pixels and arguments of the functions that read them.
\<close>

section \<open>Resizing\<close>

text \<open>
  \<open>debounce(func, threshold, execAsap)\<close>: the variable \<open>timeout\<close> of the closure, and the timers of the browser, each
  with the time when it is due and the arguments that \<open>delayed\<close> was created with. A call of \<open>func\<close> is its time and
  its arguments.
\<close>

record 'a debouncer =
  db_timeout :: "nat option"
  db_timers :: "(nat \<times> nat \<times> 'a) list"
  db_next :: nat

definition db_new :: "'a debouncer" where
  "db_new = \<lparr>db_timeout = None, db_timers = [], db_next = 1\<rparr>"

definition db_delay :: "nat \<Rightarrow> nat" where
  "db_delay threshold = (if threshold = 0 then 100 else threshold)"

definition debounced :: "nat \<Rightarrow> bool \<Rightarrow> nat \<Rightarrow> 'a \<Rightarrow> 'a debouncer \<Rightarrow> 'a debouncer \<times> (nat \<times> 'a) list" where
  "debounced threshold execAsap now args s =
     (let (s1, calls) =
        (case db_timeout s of
           Some i \<Rightarrow> (s\<lparr>db_timers := filter (\<lambda>tm. fst tm \<noteq> i) (db_timers s)\<rparr>, [])
         | None \<Rightarrow> (s, if execAsap then [(now, args)] else []))
      in (s1\<lparr>db_timeout := Some (db_next s1),
             db_timers := db_timers s1 @ [(db_next s1, now + db_delay threshold, args)],
             db_next := Suc (db_next s1)\<rparr>, calls))"

text \<open>\<open>delayed\<close>, for the timers that are due at the time \<open>now\<close>.\<close>

definition delayed :: "bool \<Rightarrow> nat \<Rightarrow> 'a debouncer \<Rightarrow> 'a debouncer \<times> (nat \<times> 'a) list" where
  "delayed execAsap now s =
     (let due = filter (\<lambda>tm. fst (snd tm) \<le> now) (db_timers s) in
      (s\<lparr>db_timers := filter (\<lambda>tm. now < fst (snd tm)) (db_timers s),
         db_timeout := if due = [] then db_timeout s else None\<rparr>,
       if execAsap then [] else map snd due))"

text \<open>A history of events: before each, the timers that are due fire; after the last one, all of them.\<close>

fun db_run :: "nat \<Rightarrow> bool \<Rightarrow> (nat \<times> 'a) list \<Rightarrow> 'a debouncer \<Rightarrow> (nat \<times> 'a) list" where
  "db_run threshold execAsap [] s = (if execAsap then [] else map snd (db_timers s))"
| "db_run threshold execAsap ((t, args) # es) s =
     (let (s1, calls1) = delayed execAsap t s; (s2, calls2) = debounced threshold execAsap t args s1
      in calls1 @ calls2 @ db_run threshold execAsap es s2)"

text \<open>\<open>adjustForScrollbar\<close>, what \<open>smartresize\<close> calls, and the sizes that are set.\<close>

definition getScrollBarWidth :: "int \<Rightarrow> int \<Rightarrow> int \<Rightarrow> int" where
  "getScrollBarWidth hidden scrolled clientWidth =
     (let w1 = hidden; w2 = (if hidden = scrolled then clientWidth else scrolled) in w1 - w2)"

definition adjustForScrollbar :: "int \<Rightarrow> int \<Rightarrow> int \<Rightarrow> int" where
  "adjustForScrollbar inner body barWidth = (if inner + 83 \<ge> body then barWidth else 0)"

definition setMenuHeight :: "int \<Rightarrow> int \<Rightarrow> int" where
  "setMenuHeight sidebar header = sidebar - header - 40"

section \<open>The side bar\<close>

datatype pane_status = Open | Closed

record docs_body =
  sidebar_hidden :: bool
  searchbox_hidden :: bool
  sidebarStatus :: pane_status
  searchStatus :: pane_status

definition toggle_sidebar :: "docs_body \<Rightarrow> docs_body" where
  "toggle_sidebar d =
     (let h = (\<not> sidebar_hidden d) in d\<lparr>sidebar_hidden := h, sidebarStatus := if h then Closed else Open\<rparr>)"

text \<open>The button of the search clicks every element that toggles the side bar; \<open>buttons\<close> is their number.\<close>

definition toggle_search :: "nat \<Rightarrow> docs_body \<Rightarrow> docs_body" where
  "toggle_search buttons d =
     (if sidebarStatus d = Closed then
        ((toggle_sidebar ^^ buttons) d)\<lparr>searchbox_hidden := False, searchStatus := Open\<rparr>
      else
        (let h = (\<not> searchbox_hidden d) in d\<lparr>searchbox_hidden := h, searchStatus := if h then Closed else Open\<rparr>))"

record menu_category =
  icon_down :: bool
  icon_right :: bool
  list_shown :: bool

definition toggle_category :: "menu_category \<Rightarrow> menu_category" where
  "toggle_category m = m\<lparr>icon_down := \<not> icon_down m, icon_right := \<not> icon_right m, list_shown := \<not> list_shown m\<rparr>"

text \<open>
  The session's storage as far as it names pages: each is stored with the value 1. The entries of the menu are
  addresses of pages, so the search text, stored beside them, marks none.
\<close>

definition store_page :: "string \<Rightarrow> string list \<Rightarrow> string list" where
  "store_page url stored = (if url \<in> set stored then stored else url # stored)"

definition visited_entries :: "string list \<Rightarrow> string list \<Rightarrow> string list" where
  "visited_entries stored navs = filter (\<lambda>n. n \<in> set stored) navs"

definition clear_history :: "string list \<Rightarrow> string list" where
  "clear_history stored = []"

section \<open>Anchors\<close>

text \<open>The identifiers on the page with their positions, where the page scrolls to, and the browser's history.\<close>

record anchor_page =
  an_ids :: "(string \<times> int) list"
  an_scroll :: "int option"
  an_history :: "string list"
  an_pathname :: string
  an_pushState :: bool

definition anchor_regex :: "string \<Rightarrow> bool" where
  "anchor_regex href = (case href of c # d # r \<Rightarrow> c = CHR ''#'' \<and> CHR '' '' \<notin> set (d # r) | _ \<Rightarrow> False)"

text \<open>An attribute that is not there is tested as the text \<open>null\<close>.\<close>

definition scrollIfAnchor :: "string option \<Rightarrow> bool \<Rightarrow> anchor_page \<Rightarrow> bool \<times> anchor_page" where
  "scrollIfAnchor href pushToHistory pg =
     (let h = (case href of Some h \<Rightarrow> h | None \<Rightarrow> ''null'') in
      if \<not> anchor_regex h then (False, pg)
      else case map_of (an_ids pg) (drop 1 h) of
        None \<Rightarrow> (False, pg)
      | Some tp \<Rightarrow>
          (True, pg\<lparr>an_scroll := Some (tp - 50),
             an_history := if an_pushState pg \<and> pushToHistory then (an_pathname pg @ h) # an_history pg else an_history pg\<rparr>))"

text \<open>Whether the default action of the event, if there is one, is prevented, and the page.\<close>

definition scrollToCurrent :: "bool \<Rightarrow> string \<Rightarrow> anchor_page \<Rightarrow> bool \<times> anchor_page" where
  "scrollToCurrent event hash pg = (let (found, pg1) = scrollIfAnchor (Some hash) False pg in (found \<and> event, pg1))"

text \<open>A click: the element that was clicked, which may be inside the link, is the one that is asked for \<open>href\<close>.\<close>

definition delegateAnchors :: "string option \<Rightarrow> anchor_page \<Rightarrow> bool \<times> anchor_page" where
  "delegateAnchors target_href pg = scrollIfAnchor target_href True pg"

section \<open>Copying\<close>

text \<open>Buttons are added to code of more than five characters; a prompt at the start of a line is not copied.\<close>

definition code_buttons :: "string list \<Rightarrow> string list" where
  "code_buttons codes = filter (\<lambda>t. length t > 5) codes"

definition line_end :: "char \<Rightarrow> bool" where
  "line_end c \<longleftrightarrow> c = CHR 0x0A \<or> c = CHR 0x0D"

fun strip_prompts :: "bool \<Rightarrow> string \<Rightarrow> string" where
  "strip_prompts bol [] = []"
| "strip_prompts bol [c] = [c]"
| "strip_prompts bol (c # d # s) =
     (if bol \<and> c = CHR ''$'' \<and> js_space d then strip_prompts (line_end d) s else c # strip_prompts (line_end c) (d # s))"

definition clip_text :: "string \<Rightarrow> string" where
  "clip_text text = strip_prompts True text"

text \<open>The text of a label; \<open>PressCommand\<close> holds what follows the sign of the command key.\<close>

datatype label = Label string | PressCommand string

definition fallbackMessage :: "string \<Rightarrow> string \<Rightarrow> label" where
  "fallbackMessage userAgent action =
     (let actionKey = (if action = ''cut'' then ''X'' else ''C'') in
      if find_match False [''iPhone'', ''iPad''] userAgent \<noteq> None then Label ''No support :(''
      else if find_match False [''Mac''] userAgent \<noteq> None then PressCommand (''-'' @ actionKey @ '' to '' @ action)
      else Label (''Press Ctrl-'' @ actionKey @ '' to '' @ action))"

record tip =
  tip_label :: "label option"
  tip_classes :: "string list"

definition add_class :: "string \<Rightarrow> string list \<Rightarrow> string list" where
  "add_class c cs = (if c \<in> set cs then cs else cs @ [c])"

definition show_tip :: "label \<Rightarrow> string \<Rightarrow> tip \<Rightarrow> tip" where
  "show_tip l side b = b\<lparr>tip_label := Some l, tip_classes := add_class (''tooltipped-'' @ side) (add_class ''tooltipped'' (tip_classes b))\<rparr>"

definition hide_tip :: "tip \<Rightarrow> tip" where
  "hide_tip b = b\<lparr>tip_label := None,
     tip_classes := filter (\<lambda>c. c \<notin> {''tooltipped'', ''tooltipped-s'', ''tooltipped-w''}) (tip_classes b)\<rparr>"

text \<open>
  The buttons, the variable \<open>inPre\<close>, which all handlers share, and the buttons that wait for the next copy of the
  document.
\<close>

record clip =
  clip_tips :: "nat \<Rightarrow> tip"
  clip_inPre :: bool
  clip_waiting :: "nat list"

definition pre_side :: "bool \<Rightarrow> string" where
  "pre_side inPre = (if inPre then ''w'' else ''s'')"

definition clip_success :: "nat \<Rightarrow> bool \<Rightarrow> clip \<Rightarrow> clip" where
  "clip_success k inPre c =
     c\<lparr>clip_inPre := inPre, clip_tips := (clip_tips c)(k := show_tip (Label ''Copied to clipboard!'') (pre_side inPre) (clip_tips c k))\<rparr>"

definition clip_error :: "string \<Rightarrow> string \<Rightarrow> nat \<Rightarrow> bool \<Rightarrow> clip \<Rightarrow> clip" where
  "clip_error userAgent action k inPre c =
     c\<lparr>clip_inPre := inPre,
       clip_tips := (clip_tips c)(k := show_tip (fallbackMessage userAgent action) (pre_side inPre) (clip_tips c k)),
       clip_waiting := clip_waiting c @ [k]\<rparr>"

definition document_copied :: "clip \<Rightarrow> clip" where
  "document_copied c =
     c\<lparr>clip_tips := fold (\<lambda>k tips. tips(k := show_tip (Label ''Copied to clipboard!'') (pre_side (clip_inPre c)) (tips k)))
         (clip_waiting c) (clip_tips c),
       clip_waiting := []\<rparr>"

definition clip_leave :: "nat \<Rightarrow> clip \<Rightarrow> clip" where
  "clip_leave k c = c\<lparr>clip_tips := (clip_tips c)(k := hide_tip (clip_tips c k))\<rparr>"

text \<open>\<open>encodeURI\<close>, the link that is copied from a heading, and the label of its button.\<close>

definition uri_char :: "char \<Rightarrow> bool" where
  "uri_char c \<longleftrightarrow> (let n = (of_char c :: nat) in
     65 \<le> n \<and> n \<le> 90 \<or> 97 \<le> n \<and> n \<le> 122 \<or> 48 \<le> n \<and> n \<le> 57 \<or> c \<in> set '';/?:@&=+$,-_.!~*()#'' \<or> c = CHR 0x27)"

definition percent :: "nat \<Rightarrow> string" where
  "percent n = [CHR ''%'', hex_char (n div 16), hex_char (n mod 16)]"

definition encodeURI_char :: "char \<Rightarrow> string" where
  "encodeURI_char c =
     (let n = (of_char c :: nat) in
      if uri_char c then [c] else if n < 128 then percent n else percent (192 + n div 64) @ percent (128 + n mod 64))"

definition encodeURI :: "string \<Rightarrow> string" where
  "encodeURI s = concat (map encodeURI_char s)"

definition heading_link :: "string \<Rightarrow> string \<Rightarrow> string \<Rightarrow> string" where
  "heading_link origin pathname ident = encodeURI (origin @ pathname) @ ''#'' @ ident"

definition link_copied :: "tip \<Rightarrow> tip" where
  "link_copied b = show_tip (Label ''Link copied to clipboard!'') ''s'' b"

text \<open>The source of a diagram: \<open>&amp;\<close> is \<open>&\<close> again.\<close>

fun unescape_amp :: "string \<Rightarrow> string" where
  "unescape_amp [] = []"
| "unescape_amp (c # s) =
     (if take 5 (c # s) = ''&amp;'' then CHR ''&'' # unescape_amp (drop 4 s) else c # unescape_amp s)"

section \<open>Images\<close>

text \<open>An object: the value last stored under a name comes first; a name without a value has \<open>undefined\<close>.\<close>

type_synonym url_params = "(string \<times> string option) list"

definition url_param :: "string \<Rightarrow> string \<times> string option" where
  "url_param w = (let ps = split_on (CHR ''='') w in (ps ! 0, if length ps > 1 then Some (ps ! 1) else None))"

definition getUrlParameter :: "string \<Rightarrow> url_params option" where
  "getUrlParameter sPageURL =
     (let url = split_on (CHR ''?'') sPageURL in
      if length url = 2 then Some (rev (map url_param (split_on (CHR ''&'') (url ! 1)))) else None)"

definition param :: "url_params \<Rightarrow> string \<Rightarrow> string option" where
  "param obj k = (case map_of obj k of Some v \<Rightarrow> v | None \<Rightarrow> None)"

record image =
  im_src :: string
  im_in_link :: bool
  im_link :: "string option"
  im_width :: "string option"
  im_height :: "string option"
  im_classes :: "string list"

definition wrap_image :: "image \<Rightarrow> image" where
  "wrap_image im = (if \<not> im_in_link im then im\<lparr>im_in_link := True, im_link := Some (im_src im)\<rparr> else im)"

definition or_auto :: "string option \<Rightarrow> string" where
  "or_auto v = (case v of Some t \<Rightarrow> t | None \<Rightarrow> ''auto'')"

definition style_image :: "image \<Rightarrow> image" where
  "style_image im =
     (case getUrlParameter (im_src im) of
        None \<Rightarrow> im
      | Some obj \<Rightarrow>
          im\<lparr>im_width := Some (or_auto (param obj ''width'')), im_height := Some (or_auto (param obj ''height'')),
             im_classes := (case param obj ''classes'' of
                None \<Rightarrow> im_classes im
              | Some c \<Rightarrow> fold add_class (filter (\<lambda>w. w \<noteq> []) (split_on (CHR '','') c)) (im_classes im))\<rparr>)"

text \<open>What the documentation makes sticky.\<close>

definition topbar_options :: sticky_options where
  "topbar_options = \<lparr>o_topSpacing = Some 0, o_bottomSpacing = None, o_center = None, o_getWidthFrom = None,
     o_widthFromWrapper = None, o_responsiveWidth = None, o_zIndex = Some ''1000''\<rparr>"

section \<open>What is copied and parsed\<close>

lemma strip_prompts_plain: "list_all (\<lambda>c. \<not> line_end c) s \<Longrightarrow> strip_prompts False s = s"
  by (induction "False" s rule: strip_prompts.induct) (simp_all add: line_end_def)

lemma strip_prompts_line:
  "list_all (\<lambda>c. \<not> line_end c) s \<Longrightarrow> strip_prompts False (s @ CHR 0x0A # t) = s @ CHR 0x0A # strip_prompts True t"
proof (induction s)
  case Nil
  then show ?case by (cases t) (simp_all add: line_end_def)
next
  case (Cons c s)
  then show ?case by (cases s; cases t) (simp_all add: line_end_def)
qed

text \<open>A session in which every line has a prompt is copied as its commands.\<close>

lemma clip_text_commands:
  "list_all (\<lambda>cmd. list_all (\<lambda>c. \<not> line_end c) cmd) cmds \<Longrightarrow>
   clip_text (join_with (CHR 0x0A) (map (\<lambda>cmd. ''$ '' @ cmd) cmds)) = join_with (CHR 0x0A) cmds"
proof -
  have prompt: "strip_prompts True (''$ '' @ s) = strip_prompts False s" for s
    by (simp add: js_space_def line_end_def)
  assume "list_all (\<lambda>cmd. list_all (\<lambda>c. \<not> line_end c) cmd) cmds"
  then show ?thesis
    unfolding clip_text_def
  proof (induction cmds)
    case (Cons cmd cmds)
    show ?case
    proof (cases cmds)
      case Nil
      with Cons.prems show ?thesis using prompt [of cmd] by (simp add: strip_prompts_plain)
    next
      case (Cons a as)
      with Cons.IH Cons.prems have "strip_prompts True (join_with (CHR 0x0A) (map (\<lambda>cmd. ''$ '' @ cmd) cmds)) = join_with (CHR 0x0A) cmds"
        by simp
      moreover have "strip_prompts False (cmd @ CHR 0x0A # r) = cmd @ CHR 0x0A # strip_prompts True r" for r
        using Cons.prems by (intro strip_prompts_line) simp
      ultimately show ?thesis
        using prompt Cons by (simp add: join_with_Cons)
    qed
  qed simp
qed

text \<open>The parameters that were written into an address are read from it; of a name given twice the last.\<close>

definition url_text :: "string \<Rightarrow> (string \<times> string) list \<Rightarrow> string" where
  "url_text base ps = base @ ''?'' @ join_with (CHR ''&'') (map (\<lambda>(k, v). k @ ''='' @ v) ps)"

definition plain_text :: "string \<Rightarrow> bool" where
  "plain_text w \<longleftrightarrow> CHR ''?'' \<notin> set w \<and> CHR ''&'' \<notin> set w \<and> CHR ''='' \<notin> set w"

lemma join_with_set: "c \<in> set (join_with d ws) \<Longrightarrow> c = d \<or> (\<exists>w \<in> set ws. c \<in> set w)"
  by (induction d ws rule: join_with.induct) auto

lemma getUrlParameter_text:
  assumes "ps \<noteq> []" and "CHR ''?'' \<notin> set base" and "list_all (\<lambda>(k, v). plain_text k \<and> plain_text v) ps"
  shows "\<exists>obj. getUrlParameter (url_text base ps) = Some obj \<and> (\<forall>k. param obj k = map_of (rev ps) k)"
proof -
  let ?q = "join_with (CHR ''&'') (map (\<lambda>(k, v). k @ ''='' @ v) ps)"
  have "CHR ''?'' \<notin> set ?q"
    using assms(3) join_with_set [of "CHR ''?''" "CHR ''&''"] by (fastforce simp: list_all_iff plain_text_def)
  then have url: "split_on (CHR ''?'') (url_text base ps) = [base, ?q]"
    using split_on_append [OF assms(2), of ?q] by (simp add: url_text_def split_on_no_sep)
  have split: "split_on (CHR ''&'') ?q = map (\<lambda>(k, v). k @ ''='' @ v) ps"
    using assms(1,3) by (intro split_join) (auto simp: list_all_iff plain_text_def)
  have one: "url_param (k @ ''='' @ v) = (k, Some v)" if "plain_text k" "plain_text v" for k v
    using that split_on_append [of "CHR ''=''" k v] by (simp add: url_param_def plain_text_def split_on_no_sep)
  have "map url_param (map (\<lambda>(k, v). k @ ''='' @ v) ps) = map (\<lambda>(k, v). (k, Some v)) ps"
    unfolding map_map by (rule map_cong [OF refl]) (use assms(3) one in \<open>auto simp: list_all_iff\<close>)
  moreover have "getUrlParameter (url_text base ps) = Some (rev (map url_param (split_on (CHR ''&'') ?q)))"
    by (simp add: getUrlParameter_def url)
  ultimately have "getUrlParameter (url_text base ps) = Some (map (\<lambda>(k, v). (k, Some v)) (rev ps))"
    unfolding split by (simp only: rev_map)
  moreover have "param (map (\<lambda>(k, v). (k, Some v)) qs) k = map_of qs k" for qs k
    by (induction qs) (auto simp: param_def)
  ultimately show ?thesis by auto
qed

text \<open>
  The link of a heading is the address of the page with the anchor exactly when \<open>encodeURI\<close> keeps every character of
  the address; a path with a percent sign, as the browser gives every path with other characters, is encoded twice.
\<close>

lemma encodeURI_length: "length s \<le> length (encodeURI s) \<and> (length (encodeURI s) = length s \<longrightarrow> list_all uri_char s)"
  by (induction s) (auto simp: encodeURI_def encodeURI_char_def percent_def Let_def)

lemma encodeURI_id: "encodeURI s = s \<longleftrightarrow> list_all uri_char s"
proof
  show "encodeURI s = s \<Longrightarrow> list_all uri_char s" using encodeURI_length [of s] by simp
  show "list_all uri_char s \<Longrightarrow> encodeURI s = s" by (induction s) (simp_all add: encodeURI_def encodeURI_char_def)
qed

lemma heading_link_address:
  "heading_link origin pathname ident = origin @ pathname @ ''#'' @ ident \<longleftrightarrow> list_all uri_char origin \<and> list_all uri_char pathname"
  using encodeURI_id [of "origin @ pathname"] by (simp add: heading_link_def)

lemma percent_not_kept: "\<not> uri_char (CHR ''%'')"
  by (simp add: uri_char_def)

section \<open>Panes and anchors\<close>

definition body_ok :: "docs_body \<Rightarrow> bool" where
  "body_ok d \<longleftrightarrow> (sidebarStatus d = Closed) = sidebar_hidden d \<and> (searchStatus d = Closed) = searchbox_hidden d"

lemma toggle_ok: "body_ok d \<Longrightarrow> body_ok (toggle_sidebar d)" "body_ok d \<Longrightarrow> body_ok (toggle_search 1 d)"
  by (auto simp: body_ok_def toggle_sidebar_def toggle_search_def Let_def)

lemma search_opens_sidebar:
  "body_ok d \<Longrightarrow> sidebar_hidden d \<Longrightarrow> \<not> sidebar_hidden (toggle_search 1 d) \<and> \<not> searchbox_hidden (toggle_search 1 d)"
  by (simp add: body_ok_def toggle_sidebar_def toggle_search_def Let_def)

text \<open>A link to a place on the page scrolls fifty pixels above it; a click inside such a link does not.\<close>

lemma delegateAnchors_link:
  assumes "map_of (an_ids pg) ident = Some y" and "ident \<noteq> []" and "CHR '' '' \<notin> set ident"
  shows "delegateAnchors (Some (CHR ''#'' # ident)) pg =
    (True, pg\<lparr>an_scroll := Some (y - 50),
       an_history := if an_pushState pg then (an_pathname pg @ CHR ''#'' # ident) # an_history pg else an_history pg\<rparr>)"
  using assms by (cases ident) (auto simp: delegateAnchors_def scrollIfAnchor_def anchor_regex_def Let_def)

lemma delegateAnchors_inside: "delegateAnchors None pg = (False, pg)"
  by (simp add: delegateAnchors_def scrollIfAnchor_def anchor_regex_def)

section \<open>Delayed calls\<close>

text \<open>
  The reference: of the events with their arguments, those after which nothing happens for \<open>d\<close> milliseconds, and those
  before which nothing has happened for \<open>d\<close> milliseconds.
\<close>

fun quiet_after :: "nat \<Rightarrow> (nat \<times> 'a) list \<Rightarrow> (nat \<times> 'a) list" where
  "quiet_after d [] = []"
| "quiet_after d [(t, a)] = [(t + d, a)]"
| "quiet_after d ((t, a) # (t', a') # es) = (if t + d \<le> t' then [(t + d, a)] else []) @ quiet_after d ((t', a') # es)"

fun quiet_before :: "nat \<Rightarrow> nat option \<Rightarrow> (nat \<times> 'a) list \<Rightarrow> (nat \<times> 'a) list" where
  "quiet_before d lst [] = []"
| "quiet_before d lst ((t, a) # es) =
     (if (case lst of None \<Rightarrow> True | Some t0 \<Rightarrow> t0 + d \<le> t) then [(t, a)] else []) @ quiet_before d (Some t) es"

definition db_waiting :: "nat \<Rightarrow> nat \<Rightarrow> 'a \<Rightarrow> 'a debouncer \<Rightarrow> bool" where
  "db_waiting d t a s \<longleftrightarrow> (\<exists>i. db_timeout s = Some i \<and> db_timers s = [(i, t + d, a)])"

definition db_idle :: "'a debouncer \<Rightarrow> bool" where
  "db_idle s \<longleftrightarrow> db_timeout s = None \<and> db_timers s = []"

lemma debounced_idle:
  "db_idle s \<Longrightarrow> db_waiting (db_delay th) t a (fst (debounced th asap t a s)) \<and>
   snd (debounced th asap t a s) = (if asap then [(t, a)] else [])"
  by (simp add: db_idle_def db_waiting_def debounced_def)

lemma debounced_waiting:
  "db_waiting d t0 a0 s \<Longrightarrow> db_waiting (db_delay th) t a (fst (debounced th asap t a s)) \<and> snd (debounced th asap t a s) = []"
  by (auto simp: db_waiting_def debounced_def)

lemma delayed_waiting:
  assumes "db_waiting d t0 a0 s"
  shows "if t0 + d \<le> t then db_idle (fst (delayed asap t s)) \<and> snd (delayed asap t s) = (if asap then [] else [(t0 + d, a0)])
    else delayed asap t s = (s, [])"
  using assms by (auto simp: db_waiting_def db_idle_def delayed_def Let_def split: if_splits intro!: debouncer.equality)

lemma db_run_waiting:
  "db_waiting (db_delay th) t0 a0 s \<Longrightarrow> db_run th asap es s =
     (if asap then quiet_before (db_delay th) (Some t0) es else quiet_after (db_delay th) ((t0, a0) # es))"
proof (induction es arbitrary: t0 a0 s)
  case Nil
  then show ?case by (auto simp: db_waiting_def)
next
  case (Cons e es)
  obtain t a where e: "e = (t, a)" by force
  let ?s1 = "fst (delayed asap t s)"
  let ?s2 = "fst (debounced th asap t a ?s1)"
  have s2: "db_waiting (db_delay th) t a ?s2"
    and calls: "snd (delayed asap t s) @ snd (debounced th asap t a ?s1) =
      (if t0 + db_delay th \<le> t then if asap then [(t, a)] else [(t0 + db_delay th, a0)] else [])"
    using delayed_waiting [OF Cons.prems, of t asap] debounced_idle [of ?s1 th t a asap]
      debounced_waiting [OF Cons.prems, of th t a asap] by (auto split: if_splits)
  have "db_run th asap (e # es) s = (snd (delayed asap t s) @ snd (debounced th asap t a ?s1)) @ db_run th asap es ?s2"
    by (simp add: e case_prod_unfold Let_def)
  also have "\<dots> = (if asap then quiet_before (db_delay th) (Some t0) (e # es) else quiet_after (db_delay th) ((t0, a0) # e # es))"
    unfolding calls Cons.IH [OF s2] e by simp
  finally show ?case .
qed

text \<open>
  C24. The delayed reaction to resizing: the function is called exactly once for every run of events that are less than
  the threshold apart, at the end of the silence after the last one and with its arguments; or, when it is to be
  called at once, at the time of the first one and with the arguments of that. A threshold that is not given is
  100 milliseconds.
\<close>

theorem debounce_exact:
  "db_run threshold execAsap events db_new =
     (let d = (if threshold = 0 then 100 else threshold) in
      if execAsap then quiet_before d None events else quiet_after d events)"
proof (cases events)
  case Nil
  then show ?thesis by (simp add: db_new_def Let_def)
next
  case (Cons e es)
  obtain t a where e: "e = (t, a)" by force
  have "db_idle (db_new :: 'a debouncer)" by (simp add: db_idle_def db_new_def)
  moreover from this have "delayed execAsap t db_new = (db_new :: 'a debouncer, [])"
    by (simp add: delayed_def db_new_def Let_def)
  ultimately show ?thesis
    using debounced_idle [of "db_new :: 'a debouncer" threshold t a execAsap]
      db_run_waiting [of threshold t a "fst (debounced threshold execAsap t a db_new)" execAsap es]
    by (simp add: Cons e case_prod_unfold db_delay_def [symmetric])
qed

end
