(* ===== verification/AutoComplete.thy ===== *)
theory AutoComplete
  imports JsBase
begin

text \<open>
  \<open>docs/themes/hugo-theme-learn/static/js/auto-complete.js\<close>: the list of suggestions below an input
  element, as the search box of the documentation uses it (its \<open>selector\<close> is one element). The state holds the
  input's value, the suggestions that are in the container, the answers that were cached, and the timeouts
  that are set. Every handler returns the new state and its effects in order. What a timeout does depends on
  what happened before it fires; the rules of \<open>ac_step\<close> let it fire at any time.
\<close>

section \<open>State\<close>

text \<open>
  A suggestion: the identity of its element, its attributes and whether its class is \<open>selected\<close>.
\<close>

record sugg =
  sg_id :: nat
  sg_attrs :: "(string \<times> string) list"
  sg_selected :: bool

text \<open>
  What the cache gives for a name: a stored answer, whose entries may be \<open>undefined\<close>, or the function that every
  object inherits under that name, of which only the number of its parameters is ever looked at.
\<close>

datatype 'a data = Results "'a option list" | Inherited nat

fun data_length :: "'a data \<Rightarrow> nat" where
  "data_length (Results xs) = length xs"
| "data_length (Inherited n) = n"

fun data_items :: "'a data \<Rightarrow> 'a option list" where
  "data_items (Results xs) = xs"
| "data_items (Inherited n) = replicate n None"

datatype display = DisplayUnset | DisplayBlock | DisplayNone

datatype ac_timeout = AskSource string | HideBox | Deselect nat | Refocus

record 'a box =
  bx_value :: string
  bx_attr :: "string option"
  bx_saved_attr :: "string option"
  bx_display :: display
  bx_items :: "sugg list"
  bx_scroll :: int
  bx_cache :: "(string \<times> 'a data) list"
  bx_last_val :: string
  bx_timer :: "nat option"
  bx_pending :: "(nat \<times> ac_timeout) list"
  bx_next :: nat

text \<open>
  The options that the handlers use. \<open>source\<close> answers at once, as the one of the documentation does. The last
  three are the browser's layout: the height of a suggestion, the greatest height of the container and the
  position of each suggestion in it.
\<close>

record 'a ac_options =
  minChars :: nat
  use_cache :: bool
  ac_source :: "string \<Rightarrow> (js_error, 'a option list) result"
  renderItem :: "'a option \<Rightarrow> string \<Rightarrow> (js_error, (string \<times> string) list) result"
  suggestionHeight :: int
  maxHeight :: int
  item_top :: "nat \<Rightarrow> int"

datatype ac_effect = AcAsk string | AcSelect "string option" sugg | AcThrow js_error

section \<open>Parts of the handlers\<close>

text \<open>\<open>getAttribute\<close> gives \<open>null\<close> for an attribute that is not there, and the input shows that as no text.\<close>

definition data_val :: "sugg \<Rightarrow> string option" where
  "data_val e = map_of (sg_attrs e) ''data-val''"

definition to_value :: "string option \<Rightarrow> string" where
  "to_value v = (case v of None \<Rightarrow> '''' | Some t \<Rightarrow> t)"

definition selected_at :: "'a box \<Rightarrow> nat option" where
  "selected_at b = index_where sg_selected (bx_items b)"

definition set_selected :: "nat \<Rightarrow> bool \<Rightarrow> 'a box \<Rightarrow> 'a box" where
  "set_selected i v b = b\<lparr>bx_items := (bx_items b)[i := (bx_items b ! i)\<lparr>sg_selected := v\<rparr>]\<rparr>"

definition set_timeout :: "ac_timeout \<Rightarrow> 'a box \<Rightarrow> 'a box" where
  "set_timeout t b = b\<lparr>bx_pending := bx_pending b @ [(bx_next b, t)], bx_next := Suc (bx_next b)\<rparr>"

definition clear_timeout :: "nat option \<Rightarrow> 'a box \<Rightarrow> 'a box" where
  "clear_timeout i b = b\<lparr>bx_pending := filter (\<lambda>p. Some (fst p) \<noteq> i) (bx_pending b)\<rparr>"

text \<open>
  The functions of \<open>Object.prototype\<close> with the number of their parameters: \<open>val in that.cache\<close> holds for
  their names too. \<open>__proto__\<close> is found as well, and has no length; storing an answer under that name, which would
  replace the prototype, is left out.
\<close>

definition inherited :: "string \<Rightarrow> nat option" where
  "inherited k = map_of
     [(''constructor'', 1), (''hasOwnProperty'', 1), (''isPrototypeOf'', 1), (''propertyIsEnumerable'', 1),
      (''toLocaleString'', 0), (''toString'', 0), (''valueOf'', 0), (''__defineGetter__'', 2),
      (''__defineSetter__'', 2), (''__lookupGetter__'', 1), (''__lookupSetter__'', 1), (''__proto__'', 0)] k"

definition cache_lookup :: "(string \<times> 'a data) list \<Rightarrow> string \<Rightarrow> 'a data option" where
  "cache_lookup c k = (case map_of c k of Some d \<Rightarrow> Some d | None \<Rightarrow> map_option Inherited (inherited k))"

text \<open>The scroll position after \<open>updateSC\<close>: \<open>nxt\<close> is the position of the suggestion that was selected.\<close>

definition updateScroll :: "int \<Rightarrow> int \<Rightarrow> int \<Rightarrow> int option \<Rightarrow> int" where
  "updateScroll h maxH scrTop nxt =
     (if h = 0 then scrTop
      else case nxt of
        None \<Rightarrow> 0
      | Some y \<Rightarrow>
          (let selTop = y - scrTop in
           if selTop + h - maxH > 0 then selTop + h + scrTop - maxH
           else if selTop < 0 then selTop + scrTop else scrTop))"

definition updateSC :: "'a ac_options \<Rightarrow> nat option \<Rightarrow> 'a box \<Rightarrow> 'a box" where
  "updateSC opt nxt b =
     b\<lparr>bx_display := DisplayBlock,
       bx_scroll := updateScroll (suggestionHeight opt) (maxHeight opt) (bx_scroll b) (map_option (item_top opt) nxt)\<rparr>"

fun make_items :: "nat \<Rightarrow> (string \<times> string) list list \<Rightarrow> sugg list" where
  "make_items n [] = []"
| "make_items n (as # ass) = \<lparr>sg_id = n, sg_attrs = as, sg_selected = False\<rparr> # make_items (Suc n) ass"

definition suggest :: "'a ac_options \<Rightarrow> 'a data \<Rightarrow> 'a box \<Rightarrow> 'a box \<times> ac_effect list" where
  "suggest opt data b =
     (let val = bx_value b; b1 = b\<lparr>bx_cache := (val, data) # bx_cache b\<rparr> in
      if data_length data \<noteq> 0 \<and> length val \<ge> minChars opt then
        (case map_result (\<lambda>x. renderItem opt x val) (data_items data) of
           Inl e \<Rightarrow> (b1, [AcThrow e])
         | Inr ass \<Rightarrow>
             (updateSC opt None (b1\<lparr>bx_items := make_items (bx_next b1) ass, bx_next := bx_next b1 + length ass\<rparr>), []))
      else (b1\<lparr>bx_display := DisplayNone\<rparr>, []))"

section \<open>The handlers\<close>

text \<open>\<open>autoComplete\<close> on an element whose attribute \<open>autocomplete\<close> is \<open>attr\<close>, and \<open>destroy\<close>.\<close>

definition ac_new :: "string option \<Rightarrow> string \<Rightarrow> 'a box" where
  "ac_new attr value =
     \<lparr>bx_value = value, bx_attr = Some ''off'', bx_saved_attr = attr, bx_display = DisplayUnset, bx_items = [],
      bx_scroll = 0, bx_cache = [], bx_last_val = '''', bx_timer = None, bx_pending = [], bx_next = 0\<rparr>"

definition ac_destroy :: "'a box \<Rightarrow> 'a box" where
  "ac_destroy b =
     b\<lparr>bx_attr := (case bx_saved_attr b of Some v \<Rightarrow> if v \<noteq> '''' then Some v else None | None \<Rightarrow> None), bx_items := []\<rparr>"

definition ac_mouseleave :: "'a box \<Rightarrow> 'a box" where
  "ac_mouseleave b =
     (case selected_at b of Some i \<Rightarrow> set_timeout (Deselect (sg_id (bx_items b ! i))) b | None \<Rightarrow> b)"

definition ac_mouseover :: "nat \<Rightarrow> 'a box \<Rightarrow> 'a box" where
  "ac_mouseover i b =
     (let b1 = (case selected_at b of Some j \<Rightarrow> set_selected j False b | None \<Rightarrow> b) in set_selected i True b1)"

definition ac_mousedown :: "nat \<Rightarrow> 'a box \<Rightarrow> 'a box \<times> ac_effect list" where
  "ac_mousedown i b =
     (let e = bx_items b ! i; v = data_val e in
      (b\<lparr>bx_value := to_value v, bx_display := DisplayNone\<rparr>, [AcSelect v e]))"

definition blurHandler :: "bool \<Rightarrow> bool \<Rightarrow> 'a box \<Rightarrow> 'a box" where
  "blurHandler over_sb active b =
     (if \<not> over_sb then set_timeout HideBox (b\<lparr>bx_last_val := bx_value b, bx_display := DisplayNone\<rparr>)
      else if \<not> active then set_timeout Refocus b
      else b)"

definition keydownHandler :: "'a ac_options \<Rightarrow> nat \<Rightarrow> 'a box \<Rightarrow> 'a box \<times> ac_effect list" where
  "keydownHandler opt key b =
     (if (key = 40 \<or> key = 38) \<and> bx_items b \<noteq> [] then
        (case selected_at b of
           None \<Rightarrow>
             (let nxt = (if key = 40 then 0 else length (bx_items b) - 1) in
              (updateSC opt (Some nxt) ((set_selected nxt True b)\<lparr>bx_value := to_value (data_val (bx_items b ! nxt))\<rparr>), []))
         | Some sel \<Rightarrow>
             (let nxt = (if key = 40 then (if Suc sel < length (bx_items b) then Some (Suc sel) else None)
                         else (if 0 < sel then Some (sel - 1) else None));
                  b1 = set_selected sel False b in
              case nxt of
                Some i \<Rightarrow>
                  (updateSC opt (Some i) ((set_selected i True b1)\<lparr>bx_value := to_value (data_val (bx_items b ! i))\<rparr>), [])
              | None \<Rightarrow> (updateSC opt None (b1\<lparr>bx_value := bx_last_val b\<rparr>), [])))
      else if key = 27 then (b\<lparr>bx_value := bx_last_val b, bx_display := DisplayNone\<rparr>, [])
      else if key = 13 \<or> key = 9 then
        (case selected_at b of
           Some sel \<Rightarrow>
             if bx_display b \<noteq> DisplayNone
             then (set_timeout HideBox b, [AcSelect (data_val (bx_items b ! sel)) (bx_items b ! sel)])
             else (b, [])
         | None \<Rightarrow> (b, []))
      else (b, []))"

text \<open>
  The loop over the shorter texts: \<open>val\<close> without its last \<open>i\<close> characters, for \<open>i\<close> from 1 as long as
  \<open>i < val.length - o.minChars\<close>.
\<close>

definition shorter_parts :: "nat \<Rightarrow> string \<Rightarrow> string list" where
  "shorter_parts mc val = map (\<lambda>i. take (length val - i) val) [1..<length val - mc]"

definition empty_part :: "'a box \<Rightarrow> string \<Rightarrow> bool" where
  "empty_part b part = (case cache_lookup (bx_cache b) part of Some d \<Rightarrow> data_length d = 0 | None \<Rightarrow> False)"

definition ask_later :: "string \<Rightarrow> 'a box \<Rightarrow> 'a box" where
  "ask_later val b = set_timeout (AskSource val) (b\<lparr>bx_timer := Some (bx_next b)\<rparr>)"

definition keyupHandler :: "'a ac_options \<Rightarrow> nat \<Rightarrow> 'a box \<Rightarrow> 'a box \<times> ac_effect list" where
  "keyupHandler opt key b =
     (if key = 0 \<or> (key < 35 \<or> key > 40) \<and> key \<noteq> 13 \<and> key \<noteq> 27 then
        (let val = bx_value b in
         if length val \<ge> minChars opt then
           if val \<noteq> bx_last_val b then
             (let b1 = clear_timeout (bx_timer b) (b\<lparr>bx_last_val := val\<rparr>) in
              if use_cache opt then
                (case cache_lookup (bx_cache b) val of
                   Some d \<Rightarrow> suggest opt d b1
                 | None \<Rightarrow>
                     if list_ex (empty_part b) (shorter_parts (minChars opt) val) then suggest opt (Results []) b1
                     else (ask_later val b1, []))
              else (ask_later val b1, []))
           else (b, [])
         else (b\<lparr>bx_last_val := val, bx_display := DisplayNone\<rparr>, []))
      else (b, []))"

text \<open>The handler of the focus is there only where no character is needed.\<close>

definition focusHandler :: "'a ac_options \<Rightarrow> 'a box \<Rightarrow> 'a box \<times> ac_effect list" where
  "focusHandler opt b =
     (if minChars opt = 0 then keyupHandler opt 0 (b\<lparr>bx_last_val := [CHR 0x0A]\<rparr>) else (b, []))"

definition fire_timeout :: "'a ac_options \<Rightarrow> nat \<Rightarrow> 'a box \<Rightarrow> 'a box \<times> ac_effect list" where
  "fire_timeout opt n b =
     (let b1 = b\<lparr>bx_pending := remove_nth n (bx_pending b)\<rparr> in
      case snd (bx_pending b ! n) of
        AskSource val \<Rightarrow>
          (case ac_source opt val of
             Inl e \<Rightarrow> (b1, [AcAsk val, AcThrow e])
           | Inr xs \<Rightarrow> let (b2, es) = suggest opt (Results xs) b1 in (b2, AcAsk val # es))
      | HideBox \<Rightarrow> (b1\<lparr>bx_display := DisplayNone\<rparr>, [])
      | Deselect i \<Rightarrow>
          (b1\<lparr>bx_items := map (\<lambda>e. if sg_id e = i then e\<lparr>sg_selected := False\<rparr> else e) (bx_items b1)\<rparr>, [])
      | Refocus \<Rightarrow> focusHandler opt b1)"

section \<open>Steps\<close>

datatype ac_event =
    Typed string | KeyDown nat | KeyUp nat | MouseOver nat | MouseLeave | MouseDown nat | Blur bool bool | Focus | Fire nat

definition ac_possible :: "ac_event \<Rightarrow> 'a box \<Rightarrow> bool" where
  "ac_possible ev b =
     (case ev of
        MouseOver i \<Rightarrow> i < length (bx_items b)
      | MouseLeave \<Rightarrow> bx_items b \<noteq> []
      | MouseDown i \<Rightarrow> i < length (bx_items b)
      | Fire n \<Rightarrow> n < length (bx_pending b)
      | _ \<Rightarrow> True)"

definition ac_handle :: "'a ac_options \<Rightarrow> ac_event \<Rightarrow> 'a box \<Rightarrow> 'a box \<times> ac_effect list" where
  "ac_handle opt ev b =
     (case ev of
        Typed s \<Rightarrow> (b\<lparr>bx_value := s\<rparr>, [])
      | KeyDown k \<Rightarrow> keydownHandler opt k b
      | KeyUp k \<Rightarrow> keyupHandler opt k b
      | MouseOver i \<Rightarrow> (ac_mouseover i b, [])
      | MouseLeave \<Rightarrow> (ac_mouseleave b, [])
      | MouseDown i \<Rightarrow> ac_mousedown i b
      | Blur over active \<Rightarrow> (blurHandler over active b, [])
      | Focus \<Rightarrow> focusHandler opt b
      | Fire n \<Rightarrow> fire_timeout opt n b)"

inductive ac_step :: "'a ac_options \<Rightarrow> 'a box \<Rightarrow> ac_effect list \<Rightarrow> 'a box \<Rightarrow> bool" for opt where
  "ac_possible ev b \<Longrightarrow> ac_handle opt ev b = (b', es) \<Longrightarrow> ac_step opt b es b'"

inductive ac_reachable :: "'a ac_options \<Rightarrow> 'a box \<Rightarrow> bool" for opt where
  ac_start: "ac_reachable opt (ac_new attr value)"
| ac_more: "ac_reachable opt b \<Longrightarrow> ac_step opt b es b' \<Longrightarrow> ac_reachable opt b'"

inductive_cases ac_stepE: "ac_step opt b es b'"

section \<open>One selection and one question\<close>

definition one_selected :: "sugg list \<Rightarrow> bool" where
  "one_selected xs \<longleftrightarrow>
     (\<forall>i < length xs. \<forall>j < length xs. sg_selected (xs ! i) \<longrightarrow> sg_selected (xs ! j) \<longrightarrow> i = j)"

definition none_selected :: "sugg list \<Rightarrow> bool" where
  "none_selected xs \<longleftrightarrow> list_all (\<lambda>e. \<not> sg_selected e) xs"

fun asks_source :: "ac_timeout \<Rightarrow> bool" where
  "asks_source (AskSource _) = True"
| "asks_source _ = False"

definition pending_ok :: "'a ac_options \<Rightarrow> 'a box \<Rightarrow> bool" where
  "pending_ok opt b \<longleftrightarrow> distinct (map fst (bx_pending b)) \<and> (\<forall>p \<in> set (bx_pending b). fst p < bx_next b) \<and>
     (\<forall>i val. (i, AskSource val) \<in> set (bx_pending b) \<longrightarrow> bx_timer b = Some i \<and> minChars opt \<le> length val)"

definition ac_inv :: "'a ac_options \<Rightarrow> 'a box \<Rightarrow> bool" where
  "ac_inv opt b \<longleftrightarrow> one_selected (bx_items b) \<and> pending_ok opt b"

lemma none_one: "none_selected xs \<Longrightarrow> one_selected xs"
  by (auto simp: none_selected_def one_selected_def list_all_length)

lemma make_items_none: "none_selected (make_items n ass)"
  by (induction ass arbitrary: n) (simp_all add: none_selected_def)

lemma length_make_items [simp]: "length (make_items n ass) = length ass"
  by (induction ass arbitrary: n) simp_all

lemma selected_at_None: "selected_at b = None \<longleftrightarrow> none_selected (bx_items b)"
  by (auto simp: selected_at_def none_selected_def list_all_iff index_where_None)

lemma selected_at_Some:
  "selected_at b = Some i \<Longrightarrow> i < length (bx_items b) \<and> sg_selected (bx_items b ! i)"
  using index_where_Some [of sg_selected "bx_items b" i] by (simp add: selected_at_def)

lemma deselect_none:
  "one_selected (bx_items b) \<Longrightarrow> selected_at b = Some i \<Longrightarrow> none_selected (bx_items (set_selected i False b))"
  using selected_at_Some [of b i]
  by (auto simp: none_selected_def one_selected_def set_selected_def list_all_length nth_list_update)

lemma select_one: "none_selected (bx_items b) \<Longrightarrow> one_selected (bx_items (set_selected i True b))"
  by (cases "i < length (bx_items b)")
    (auto simp: none_selected_def one_selected_def set_selected_def list_all_length nth_list_update list_update_beyond split: if_splits)

lemma deselect_map: "one_selected xs \<Longrightarrow> one_selected (map (\<lambda>e. if P e then e\<lparr>sg_selected := False\<rparr> else e) xs)"
  by (auto simp: one_selected_def split: if_splits)

lemma set_selected_fields [simp]:
  "bx_pending (set_selected i v b) = bx_pending b" "bx_next (set_selected i v b) = bx_next b"
  "bx_timer (set_selected i v b) = bx_timer b" "length (bx_items (set_selected i v b)) = length (bx_items b)"
  "bx_last_val (set_selected i v b) = bx_last_val b"
  by (simp_all add: set_selected_def)

lemma updateSC_fields [simp]:
  "bx_pending (updateSC opt nxt b) = bx_pending b" "bx_next (updateSC opt nxt b) = bx_next b"
  "bx_timer (updateSC opt nxt b) = bx_timer b" "bx_items (updateSC opt nxt b) = bx_items b"
  "bx_value (updateSC opt nxt b) = bx_value b" "bx_last_val (updateSC opt nxt b) = bx_last_val b"
  "bx_display (updateSC opt nxt b) = DisplayBlock"
  by (simp_all add: updateSC_def)

lemma pending_ok_cong:
  "bx_pending b' = bx_pending b \<Longrightarrow> bx_timer b' = bx_timer b \<Longrightarrow> bx_next b \<le> bx_next b' \<Longrightarrow> pending_ok opt b \<Longrightarrow> pending_ok opt b'"
  by (auto simp: pending_ok_def)

lemma pending_ok_timeout: "pending_ok opt b \<Longrightarrow> \<not> asks_source t \<Longrightarrow> pending_ok opt (set_timeout t b)"
  by (cases t) (auto simp: pending_ok_def set_timeout_def)

lemma pending_ok_remove:
  assumes "pending_ok opt b"
  shows "pending_ok opt (b\<lparr>bx_pending := remove_nth n (bx_pending b)\<rparr>)"
proof -
  have "distinct (map fst (remove_nth n (bx_pending b)))"
    using assms by (simp add: pending_ok_def map_remove_nth distinct_remove_nth)
  then show ?thesis using assms set_remove_nth [of n "bx_pending b"] by (auto simp: pending_ok_def)
qed

lemma pending_ok_clear:
  "pending_ok opt b \<Longrightarrow> pending_ok opt (clear_timeout (bx_timer b) b) \<and>
    (\<forall>p \<in> set (bx_pending (clear_timeout (bx_timer b) b)). \<not> asks_source (snd p))"
  by (auto simp: pending_ok_def clear_timeout_def distinct_map_filter elim!: asks_source.elims)

lemma pending_ok_ask:
  "pending_ok opt b \<Longrightarrow> \<forall>p \<in> set (bx_pending b). \<not> asks_source (snd p) \<Longrightarrow> minChars opt \<le> length val \<Longrightarrow>
    pending_ok opt (ask_later val b)"
  by (fastforce simp: pending_ok_def ask_later_def set_timeout_def)

lemma suggest_inv:
  assumes "ac_inv opt b"
  shows "ac_inv opt (fst (suggest opt d b))"
  using assms none_one [OF make_items_none]
  by (auto simp: suggest_def ac_inv_def Let_def pending_ok_def split: sum.split)

lemma keyup_inv:
  assumes "ac_inv opt b"
  shows "ac_inv opt (fst (keyupHandler opt key b))"
proof -
  let ?val = "bx_value b"
  let ?b = "b\<lparr>bx_last_val := ?val\<rparr>"
  have b: "one_selected (bx_items ?b)" "pending_ok opt ?b" "bx_timer ?b = bx_timer b"
    using assms by (auto simp: ac_inv_def elim: pending_ok_cong [rotated -1])
  let ?c = "clear_timeout (bx_timer b) ?b"
  have c: "pending_ok opt ?c" "\<forall>p \<in> set (bx_pending ?c). \<not> asks_source (snd p)"
    using pending_ok_clear [OF b(2)] by simp_all
  have "bx_items ?c = bx_items b" by (simp add: clear_timeout_def)
  then have inv: "ac_inv opt ?c" using b(1) c(1) by (simp add: ac_inv_def)
  have ask: "ac_inv opt (ask_later ?val ?c)" if "minChars opt \<le> length ?val"
    using pending_ok_ask [OF c that] inv by (simp add: ac_inv_def ask_later_def set_timeout_def)
  have "ac_inv opt (?b\<lparr>bx_display := DisplayNone\<rparr>)"
    using b by (auto simp: ac_inv_def elim: pending_ok_cong [rotated -1])
  with assms inv ask suggest_inv [of opt ?c] show ?thesis
    by (auto simp: keyupHandler_def Let_def split: option.split)
qed

lemma focus_inv: "ac_inv opt b \<Longrightarrow> ac_inv opt (fst (focusHandler opt b))"
  using keyup_inv [of opt "b\<lparr>bx_last_val := [CHR 0x0A]\<rparr>" 0]
  by (auto simp: focusHandler_def ac_inv_def pending_ok_def)

lemma keydown_items:
  assumes "one_selected (bx_items b)"
  shows "one_selected (bx_items (fst (keydownHandler opt key b)))"
proof (cases "selected_at b")
  case None
  then have "one_selected (bx_items (set_selected i True b))" for i by (simp add: selected_at_None select_one)
  with assms None show ?thesis by (auto simp: keydownHandler_def Let_def)
next
  case (Some s)
  let ?b = "set_selected s False b"
  have "none_selected (bx_items ?b)" using assms Some by (rule deselect_none)
  then have "one_selected (bx_items ?b)" "\<And>i. one_selected (bx_items (set_selected i True ?b))"
    using none_one select_one by blast+
  with assms Some show ?thesis by (auto simp: keydownHandler_def Let_def set_timeout_def split: option.split)
qed

lemma keydown_inv: "ac_inv opt b \<Longrightarrow> ac_inv opt (fst (keydownHandler opt key b))"
proof -
  assume inv: "ac_inv opt b"
  then have p: "pending_ok opt b" by (simp add: ac_inv_def)
  have "pending_ok opt (fst (keydownHandler opt key b))"
    using p pending_ok_timeout [OF p, of HideBox]
    by (auto simp: keydownHandler_def Let_def pending_ok_def split: option.split)
  with inv show ?thesis by (simp add: ac_inv_def keydown_items)
qed

lemma mouse_inv:
  assumes "ac_inv opt b"
  shows "ac_inv opt (ac_mouseover i b)" "ac_inv opt (ac_mouseleave b)" "ac_inv opt (fst (ac_mousedown i b))"
proof -
  have p: "pending_ok opt b" "one_selected (bx_items b)" using assms by (simp_all add: ac_inv_def)
  show "ac_inv opt (ac_mouseover i b)"
    using p deselect_none [OF p(2)]
    by (auto simp: ac_mouseover_def ac_inv_def Let_def pending_ok_def selected_at_None intro!: select_one split: option.split)
  show "ac_inv opt (ac_mouseleave b)"
    using p pending_ok_timeout [OF p(1)] by (auto simp: ac_mouseleave_def ac_inv_def set_timeout_def split: option.split)
  show "ac_inv opt (fst (ac_mousedown i b))"
    using p by (auto simp: ac_mousedown_def ac_inv_def Let_def pending_ok_def)
qed

lemma blur_inv: "ac_inv opt b \<Longrightarrow> ac_inv opt (blurHandler over act b)"
  using pending_ok_timeout [of opt b] pending_ok_timeout [of opt "b\<lparr>bx_last_val := bx_value b, bx_display := DisplayNone\<rparr>" HideBox]
  by (auto simp: blurHandler_def ac_inv_def set_timeout_def pending_ok_def)

lemma fire_inv: "ac_inv opt b \<Longrightarrow> ac_inv opt (fst (fire_timeout opt n b))"
proof -
  assume inv: "ac_inv opt b"
  let ?b = "b\<lparr>bx_pending := remove_nth n (bx_pending b)\<rparr>"
  have b: "ac_inv opt ?b" using inv pending_ok_remove [of opt b n] by (simp add: ac_inv_def)
  have "ac_inv opt (fst (suggest opt d ?b))" for d using b by (rule suggest_inv)
  moreover have "ac_inv opt (?b\<lparr>bx_display := DisplayNone\<rparr>)" using b by (auto simp: ac_inv_def pending_ok_def)
  moreover have "ac_inv opt (?b\<lparr>bx_items := map (\<lambda>e. if sg_id e = i then e\<lparr>sg_selected := False\<rparr> else e) (bx_items ?b)\<rparr>)" for i
    using b deselect_map by (auto simp: ac_inv_def pending_ok_def)
  ultimately show ?thesis
    using b focus_inv [OF b]
    by (auto simp: fire_timeout_def Let_def case_prod_unfold split: ac_timeout.split sum.split)
qed

lemma typed_inv: "ac_inv opt b \<Longrightarrow> ac_inv opt (b\<lparr>bx_value := t\<rparr>)"
  by (simp add: ac_inv_def pending_ok_def)

lemma ac_reachable_inv: "ac_reachable opt b \<Longrightarrow> ac_inv opt b"
proof (induction rule: ac_reachable.induct)
  case (ac_start attr v)
  show ?case by (simp add: ac_inv_def ac_new_def one_selected_def pending_ok_def)
next
  case (ac_more b es b')
  from ac_more(2) obtain ev where "ac_handle opt ev b = (b', es)" by (auto elim: ac_stepE)
  then have b': "b' = fst (ac_handle opt ev b)" by simp
  show ?case
    unfolding b' using ac_more.IH
    by (cases ev) (simp_all add: ac_handle_def typed_inv keydown_inv keyup_inv mouse_inv blur_inv focus_inv fire_inv)
qed

section \<open>Where the suggestions come from\<close>

definition data_from :: "('a \<Rightarrow> bool) \<Rightarrow> 'a data \<Rightarrow> bool" where
  "data_from Q d \<longleftrightarrow> (\<forall>a. Some a \<in> set (data_items d) \<longrightarrow> Q a)"

text \<open>Every suggestion shows an entry of an answer of the source, and every cached answer is one of its answers.\<close>

definition shown_from :: "'a ac_options \<Rightarrow> ('a \<Rightarrow> bool) \<Rightarrow> (string \<times> string) list \<Rightarrow> bool" where
  "shown_from opt Q as \<longleftrightarrow> (\<exists>x v. renderItem opt x v = Inr as \<and> (\<forall>a. x = Some a \<longrightarrow> Q a))"

definition from_inv :: "'a ac_options \<Rightarrow> ('a \<Rightarrow> bool) \<Rightarrow> 'a box \<Rightarrow> bool" where
  "from_inv opt Q b \<longleftrightarrow> list_all (\<lambda>e. shown_from opt Q (sg_attrs e)) (bx_items b) \<and> list_all (\<lambda>c. data_from Q (snd c)) (bx_cache b)"

lemma from_inv_keep:
  "from_inv opt Q b \<Longrightarrow> map sg_attrs (bx_items b') = map sg_attrs (bx_items b) \<Longrightarrow> bx_cache b' = bx_cache b \<Longrightarrow> from_inv opt Q b'"
  unfolding from_inv_def by (metis (no_types, lifting) list.pred_map comp_def list.pred_cong)

lemma attrs_make_items [simp]: "map sg_attrs (make_items n ass) = ass"
  by (induction ass arbitrary: n) simp_all

lemma attrs_set_selected [simp]:
  "map sg_attrs (bx_items (set_selected i v b)) = map sg_attrs (bx_items b)" "bx_cache (set_selected i v b) = bx_cache b"
  by (cases "i < length (bx_items b)",
      simp_all add: set_selected_def map_update list_update_beyond list_update_same_conv)

lemma cache_fields [simp]:
  "bx_cache (updateSC opt nxt b) = bx_cache b" "bx_cache (set_timeout t b) = bx_cache b" "bx_items (set_timeout t b) = bx_items b"
  "bx_cache (clear_timeout i b) = bx_cache b" "bx_items (clear_timeout i b) = bx_items b"
  "bx_cache (ask_later v b) = bx_cache b" "bx_items (ask_later v b) = bx_items b"
  by (simp_all add: updateSC_def set_timeout_def clear_timeout_def ask_later_def)

lemma map_result_members: "map_result f xs = Inr ys \<Longrightarrow> y \<in> set ys \<Longrightarrow> \<exists>x \<in> set xs. f x = Inr y"
  by (induction xs arbitrary: ys) (fastforce split: sum.splits)+

lemma suggest_from:
  assumes "from_inv opt Q b" and "data_from Q d"
  shows "from_inv opt Q (fst (suggest opt d b))"
proof -
  have "shown_from opt Q as" if "map_result (\<lambda>x. renderItem opt x v) (data_items d) = Inr ass" "as \<in> set ass" for v ass as
    using map_result_members [OF that] assms(2) unfolding shown_from_def data_from_def by metis
  then have "list_all (\<lambda>e. shown_from opt Q (sg_attrs e)) (make_items n ass)"
    if "map_result (\<lambda>x. renderItem opt x v) (data_items d) = Inr ass" for v ass n
    using that attrs_make_items [of n ass] by (metis (no_types, lifting) list_all_iff in_set_conv_nth length_map nth_map)
  with assms show ?thesis
    by (auto simp: suggest_def from_inv_def Let_def split: sum.split)
qed

lemma cached_from: "from_inv opt Q b \<Longrightarrow> cache_lookup (bx_cache b) k = Some d \<Longrightarrow> data_from Q d"
proof -
  assume b: "from_inv opt Q b" and l: "cache_lookup (bx_cache b) k = Some d"
  show ?thesis
  proof (cases "map_of (bx_cache b) k")
    case (Some d')
    then have "(k, d') \<in> set (bx_cache b)" by (rule map_of_SomeD)
    with b l Some show ?thesis by (auto simp: from_inv_def list_all_iff cache_lookup_def)
  next
    case None
    with l show ?thesis by (auto simp: cache_lookup_def data_from_def)
  qed
qed

lemma keyup_from:
  assumes "from_inv opt Q b"
  shows "from_inv opt Q (fst (keyupHandler opt key b))"
proof -
  let ?c = "clear_timeout (bx_timer b) (b\<lparr>bx_last_val := bx_value b\<rparr>)"
  have c: "from_inv opt Q ?c" using assms by (simp add: from_inv_def)
  have "from_inv opt Q (fst (suggest opt d ?c))" if "cache_lookup (bx_cache b) (bx_value b) = Some d" for d
    using suggest_from [OF c cached_from [OF assms that]] .
  moreover have "from_inv opt Q (fst (suggest opt (Results []) ?c))"
    using c by (intro suggest_from) (simp_all add: data_from_def)
  moreover have "from_inv opt Q (ask_later (bx_value b) ?c)" using c by (simp add: from_inv_def)
  moreover have "from_inv opt Q (b\<lparr>bx_last_val := bx_value b, bx_display := DisplayNone\<rparr>)"
    using assms by (simp add: from_inv_def)
  ultimately show ?thesis using assms by (auto simp: keyupHandler_def Let_def split: option.split)
qed

lemma focus_from: "from_inv opt Q b \<Longrightarrow> from_inv opt Q (fst (focusHandler opt b))"
  using keyup_from [of opt Q "b\<lparr>bx_last_val := [CHR 0x0A]\<rparr>" 0] by (simp add: focusHandler_def from_inv_def)

lemma keydown_from: "from_inv opt Q b \<Longrightarrow> from_inv opt Q (fst (keydownHandler opt key b))"
  by (erule from_inv_keep) (simp_all add: keydownHandler_def Let_def split: option.split)

lemma mouse_from:
  assumes "from_inv opt Q b"
  shows "from_inv opt Q (ac_mouseover i b)" "from_inv opt Q (ac_mouseleave b)" "from_inv opt Q (fst (ac_mousedown i b))"
    "from_inv opt Q (blurHandler over act b)"
  by (rule from_inv_keep [OF assms];
      simp add: ac_mouseover_def ac_mouseleave_def ac_mousedown_def blurHandler_def Let_def split: option.split)+

lemma fire_from:
  assumes "from_inv opt Q b" and source: "\<And>t xs. ac_source opt t = Inr xs \<Longrightarrow> data_from Q (Results xs)"
  shows "from_inv opt Q (fst (fire_timeout opt n b))"
proof -
  let ?b = "b\<lparr>bx_pending := remove_nth n (bx_pending b)\<rparr>"
  have b: "from_inv opt Q ?b" using assms(1) by (simp add: from_inv_def)
  have "from_inv opt Q (fst (suggest opt (Results xs) ?b))" if "ac_source opt t = Inr xs" for t xs
    using suggest_from [OF b source [OF that]] .
  moreover have "from_inv opt Q (?b\<lparr>bx_items := map (\<lambda>e. if sg_id e = i then e\<lparr>sg_selected := False\<rparr> else e) (bx_items ?b)\<rparr>)" for i
    using b by (auto simp: from_inv_def list_all_iff)
  moreover have "from_inv opt Q (?b\<lparr>bx_display := DisplayNone\<rparr>)" using b by (simp add: from_inv_def)
  ultimately show ?thesis
    using b focus_from [OF b] by (auto simp: fire_timeout_def Let_def case_prod_unfold split: ac_timeout.split sum.split)
qed

lemma reachable_from:
  assumes "ac_reachable opt b" and source: "\<And>t xs. ac_source opt t = Inr xs \<Longrightarrow> data_from Q (Results xs)"
  shows "from_inv opt Q b"
  using assms(1)
proof (induction rule: ac_reachable.induct)
  case (ac_start attr v)
  show ?case by (simp add: from_inv_def ac_new_def)
next
  case (ac_more b es b')
  from ac_more(2) obtain ev where "ac_handle opt ev b = (b', es)" by (auto elim: ac_stepE)
  then have b': "b' = fst (ac_handle opt ev b)" by simp
  have "from_inv opt Q (b\<lparr>bx_value := t\<rparr>)" for t using ac_more.IH by (simp add: from_inv_def)
  then show ?case
    unfolding b' using ac_more.IH fire_from [OF ac_more.IH source]
    by (cases ev) (simp_all add: ac_handle_def keydown_from keyup_from mouse_from focus_from)
qed

section \<open>Properties\<close>

text \<open>A box whose source answers a text with itself and one that is longer, shown one below the other.\<close>

definition sample_options :: "string ac_options" where
  "sample_options = \<lparr>minChars = 3, use_cache = True, ac_source = (\<lambda>t. Inr [Some t, Some (t @ ''s'')]),
     renderItem = (\<lambda>x _. case x of Some t \<Rightarrow> Inr [(''data-val'', t)] | None \<Rightarrow> Inl (TypeError ''replace'')),
     suggestionHeight = 20, maxHeight = 100, item_top = (\<lambda>i. 20 * int i)\<rparr>"

definition sample_box :: "string box" where
  "sample_box = fst (fire_timeout sample_options 0
     (fst (keyupHandler sample_options 83 ((ac_new None '''')\<lparr>bx_value := ''dns''\<rparr>))))"

lemma sample_box_items:
  "map sg_attrs (bx_items sample_box) = [[(''data-val'', ''dns'')], [(''data-val'', ''dnss'')]]"
  "none_selected (bx_items sample_box)" "length (bx_items sample_box) = 2" "bx_last_val sample_box = ''dns''"
  by code_simp+

text \<open>
  C22. Whatever is typed, clicked and waited for, at most one suggestion is selected and at most one
  question to the source is scheduled, and only for a text with enough characters.
\<close>

theorem one_question_at_a_time:
  assumes "ac_reachable opt b"
  shows "length (filter sg_selected (bx_items b)) \<le> 1 \<and> length (filter (\<lambda>p. asks_source (snd p)) (bx_pending b)) \<le> 1 \<and>
    (\<forall>i val. (i, AskSource val) \<in> set (bx_pending b) \<longrightarrow> minChars opt \<le> length val)"
proof -
  have inv: "one_selected (bx_items b)" "pending_ok opt b" using ac_reachable_inv [OF assms] by (simp_all add: ac_inv_def)
  let ?as = "filter (\<lambda>p. asks_source (snd p)) (bx_pending b)"
  have "fst p = the (bx_timer b)" if "p \<in> set ?as" for p
  proof -
    obtain i t where p: "p = (i, t)" by (cases p)
    with that obtain val where "t = AskSource val" by (auto elim: asks_source.elims)
    with that p inv(2) show ?thesis by (auto simp: pending_ok_def)
  qed
  then have "set (map fst ?as) \<subseteq> {the (bx_timer b)}" by auto
  moreover have "distinct (map fst ?as)" using inv(2) by (simp add: pending_ok_def distinct_map_filter)
  ultimately have "length ?as \<le> 1"
    by (metis card_mono card.empty card_insert_disjoint distinct_card empty_iff finite.intros length_map One_nat_def)
  moreover have "length (filter sg_selected (bx_items b)) \<le> 1"
    using inv(1) unfolding one_selected_def
    by (subst length_filter_conv_card) (auto simp: card_le_Suc0_iff_eq)
  ultimately show ?thesis using inv(2) by (auto simp: pending_ok_def)
qed

theorem one_question_at_a_time_witness:
  "ac_reachable sample_options (ac_new None '''' :: string box) \<and> length (bx_pending (ac_new None '''' :: string box)) = 0 \<and>
   (\<exists>b. ac_reachable sample_options b \<and> map snd (bx_pending b) = [AskSource ''dns''] \<and>
      length (filter (\<lambda>p. asks_source (snd p)) (bx_pending b)) \<le> 1)"
proof -
  let ?a = "ac_new None '''' :: string box" and ?b = "fst (keyupHandler sample_options 83 ((ac_new None '''')\<lparr>bx_value := ''dns''\<rparr>))"
  have start: "ac_reachable sample_options ?a" by (rule ac_start)
  have "ac_step sample_options ?a [] (?a\<lparr>bx_value := ''dns''\<rparr>)"
    by (rule ac_step.intros [of "Typed ''dns''"]) (simp_all add: ac_possible_def ac_handle_def)
  with start have "ac_reachable sample_options (?a\<lparr>bx_value := ''dns''\<rparr>)" by (rule ac_more)
  moreover have "ac_step sample_options (?a\<lparr>bx_value := ''dns''\<rparr>) (snd (keyupHandler sample_options 83 (?a\<lparr>bx_value := ''dns''\<rparr>))) ?b"
    by (rule ac_step.intros [of "KeyUp 83"]) (simp_all add: ac_possible_def ac_handle_def)
  ultimately have b: "ac_reachable sample_options ?b" by (rule ac_more)
  moreover have "map snd (bx_pending ?b) = [AskSource ''dns'']" by code_simp
  ultimately show ?thesis
    using one_question_at_a_time [OF b] start by (auto simp: ac_new_def)
qed

text \<open>The positions of the suggestions that the arrow keys select.\<close>

definition pressed :: "'a ac_options \<Rightarrow> nat \<Rightarrow> 'a box \<Rightarrow> 'a box" where
  "pressed opt key b = fst (keydownHandler opt key b)"

definition with_selected :: "sugg list \<Rightarrow> nat \<Rightarrow> sugg list" where
  "with_selected xs i = xs[i := (xs ! i)\<lparr>sg_selected := True\<rparr>]"

lemma selected_at_with:
  assumes "none_selected xs" and "i < length xs" and "bx_items b = with_selected xs i"
  shows "selected_at b = Some i"
proof -
  have sel: "sg_selected (bx_items b ! j) \<longleftrightarrow> j = i" if "j < length xs" for j
    using that assms by (auto simp: with_selected_def none_selected_def list_all_length nth_list_update)
  have "selected_at b \<noteq> None"
    using assms(2,3) sel [of i] unfolding selected_at_None none_selected_def
    by (auto simp: list_all_length with_selected_def)
  then obtain j where j: "selected_at b = Some j" by blast
  with selected_at_Some [OF j] sel [of j] assms(3) show ?thesis by (simp add: with_selected_def)
qed

lemma deselect_with:
  assumes "none_selected xs" and "i < length xs" and "bx_items b = with_selected xs i"
  shows "bx_items (set_selected i False b) = xs"
proof -
  have "\<not> sg_selected (xs ! i)" using assms(1,2) by (simp add: none_selected_def list_all_length)
  then have "(xs ! i)\<lparr>sg_selected := False\<rparr> = xs ! i" by (cases "xs ! i") simp
  then show ?thesis using assms(2,3) by (simp add: set_selected_def with_selected_def)
qed

lemma arrow_first:
  assumes "none_selected (bx_items b)" and "bx_items b \<noteq> []" and "key = 40 \<or> key = 38"
  shows "let i = (if key = 40 then 0 else length (bx_items b) - 1) in
    bx_items (pressed opt key b) = with_selected (bx_items b) i \<and> bx_last_val (pressed opt key b) = bx_last_val b \<and>
    bx_value (pressed opt key b) = to_value (data_val (bx_items b ! i))"
  using assms selected_at_None [of b] by (auto simp: pressed_def keydownHandler_def Let_def set_selected_def with_selected_def)

lemma arrow_next:
  assumes "none_selected xs" and "i < length xs" and "bx_items b = with_selected xs i" and "key = 40 \<or> key = 38"
    and "nxt = (if key = 40 then (if Suc i < length xs then Some (Suc i) else None) else (if 0 < i then Some (i - 1) else None))"
  shows "bx_last_val (pressed opt key b) = bx_last_val b \<and>
    (case nxt of
       Some j \<Rightarrow> bx_items (pressed opt key b) = with_selected xs j \<and> bx_value (pressed opt key b) = to_value (data_val (xs ! j))
     | None \<Rightarrow> bx_items (pressed opt key b) = xs \<and> bx_value (pressed opt key b) = bx_last_val b)"
proof -
  have len: "length (bx_items b) = length xs" "bx_items b \<noteq> []" using assms(2,3) by (auto simp: with_selected_def)
  have at: "bx_items b ! j = xs ! j" if "j \<noteq> i" for j using that assms(3) by (simp add: with_selected_def)
  have sel: "selected_at b = Some i" by (rule selected_at_with [OF assms(1-3)])
  have x: "bx_items (set_selected i False b) = xs" by (rule deselect_with [OF assms(1-3)])
  have y: "bx_items (set_selected j True (set_selected i False b)) = with_selected xs j" for j
    by (subst set_selected_def) (simp add: x with_selected_def)
  have run: "pressed opt key b = (case nxt of
       Some j \<Rightarrow> updateSC opt (Some j) ((set_selected j True (set_selected i False b))\<lparr>bx_value := to_value (data_val (bx_items b ! j))\<rparr>)
     | None \<Rightarrow> updateSC opt None ((set_selected i False b)\<lparr>bx_value := bx_last_val b\<rparr>))"
    using assms(4) sel len unfolding pressed_def assms(5) by (auto simp: keydownHandler_def Let_def split: option.split)
  have "j \<noteq> i" if "nxt = Some j" for j using that assms(5) by (auto split: if_splits)
  then show ?thesis unfolding run by (auto simp: x y at split: option.split)
qed

text \<open>
  C30. The arrow keys go through the suggestions one by one and around: from no selection, the key down selects
  the first, the second and so on, and after the last it gives back the text that was typed, with no selection;
  the key up does the same from the last to the first.
\<close>

theorem arrow_keys_cycle:
  fixes opt :: "'a ac_options"
  assumes "none_selected (bx_items b)" and "bx_items b \<noteq> []" and "key = 40 \<or> key = 38"
  defines "n \<equiv> length (bx_items b)"
  defines "pos \<equiv> \<lambda>k. if key = 40 then k else n - 1 - k"
  shows "(\<forall>k < n. selected_at ((pressed opt key ^^ Suc k) b) = Some (pos k) \<and>
      bx_value ((pressed opt key ^^ Suc k) b) = to_value (data_val (bx_items b ! pos k))) \<and>
    bx_items ((pressed opt key ^^ Suc n) b) = bx_items b \<and> bx_value ((pressed opt key ^^ Suc n) b) = bx_last_val b"
proof -
  let ?xs = "bx_items b" and ?c = "\<lambda>k. (pressed opt key ^^ k) b"
  have n: "0 < n" using assms(2) by (simp add: n_def)
  have go: "bx_items (?c (Suc k)) = with_selected ?xs (pos k) \<and> bx_last_val (?c (Suc k)) = bx_last_val b \<and>
      bx_value (?c (Suc k)) = to_value (data_val (?xs ! pos k))" if "k < n" for k
    using that
  proof (induction k)
    case 0
    then show ?case using arrow_first [OF assms(1-3), of opt] by (simp add: pos_def n_def Let_def)
  next
    case (Suc k)
    then have c: "bx_items (?c (Suc k)) = with_selected ?xs (pos k)" "bx_last_val (?c (Suc k)) = bx_last_val b" by auto
    have "pos k < length ?xs" using Suc.prems by (auto simp: pos_def n_def)
    from arrow_next [OF assms(1) this c(1) assms(3) refl, of opt] c(2) Suc.prems assms(3) show ?case
      by (auto simp: pos_def n_def split: if_splits)
  qed
  have sel: "selected_at (?c (Suc k)) = Some (pos k)" if "k < n" for k
    using go [OF that] that by (intro selected_at_with [OF assms(1)]) (auto simp: pos_def n_def)
  have last: "pos (n - 1) < length ?xs" using n by (auto simp: pos_def n_def)
  have "?c (Suc (n - 1)) = ?c n" using n by simp
  with go [of "n - 1"] n have c: "bx_items (?c n) = with_selected ?xs (pos (n - 1))" "bx_last_val (?c n) = bx_last_val b" by auto
  from arrow_next [OF assms(1) last c(1) assms(3) refl, of opt] c(2) n assms(3)
  have "bx_items (?c (Suc n)) = ?xs \<and> bx_value (?c (Suc n)) = bx_last_val b"
    by (auto simp: pos_def n_def split: if_splits)
  with go sel show ?thesis by blast
qed

theorem arrow_keys_cycle_witness:
  "bx_value ((pressed sample_options 40 ^^ 2) sample_box) = ''dnss'' \<and> bx_value ((pressed sample_options 40 ^^ 3) sample_box) = ''dns''"
proof -
  have ne: "bx_items sample_box \<noteq> []" using sample_box_items(3) by auto
  have at: "sg_attrs (bx_items sample_box ! 1) = [(''data-val'', ''dnss'')]"
    using arg_cong [OF sample_box_items(1), of "\<lambda>xs. xs ! 1"] sample_box_items(3) by simp
  from arrow_keys_cycle [OF sample_box_items(2) ne, of 40 sample_options] sample_box_items(3,4) at show ?thesis
    by (auto simp: numeral_2_eq_2 numeral_3_eq_3 data_val_def to_value_def dest: spec [of _ 1])
qed

text \<open>
  C31. When a key is released, a question is scheduled exactly when there are enough characters, the text has
  changed, no answer is cached for it, and no answer that is cached for a part of it from the start is empty;
  but only the parts with more than the least number of characters are looked at, so that an empty answer for
  the shortest text that is ever asked for does not spare the questions for longer ones.
\<close>

theorem question_scheduled_iff:
  assumes "pending_ok opt b" and "key = 0 \<or> (key < 35 \<or> key > 40) \<and> key \<noteq> 13 \<and> key \<noteq> 27"
  shows "(bx_next b, AskSource (bx_value b)) \<in> set (bx_pending (fst (keyupHandler opt key b))) \<longleftrightarrow>
    minChars opt \<le> length (bx_value b) \<and> bx_value b \<noteq> bx_last_val b \<and>
    (use_cache opt \<longrightarrow> cache_lookup (bx_cache b) (bx_value b) = None \<and>
      \<not> (\<exists>m. minChars opt < m \<and> m < length (bx_value b) \<and> empty_part b (take m (bx_value b))))"
proof -
  have fresh: "(bx_next b, t) \<notin> set (bx_pending b)" for t using assms(1) by (auto simp: pending_ok_def)
  have parts: "list_ex (empty_part b) (shorter_parts mc val) \<longleftrightarrow> (\<exists>m. mc < m \<and> m < length val \<and> empty_part b (take m val))" for mc val
  proof -
    have "set (shorter_parts mc val) = (\<lambda>m. take m val) ` {m. mc < m \<and> m < length val}"
      unfolding shorter_parts_def
    proof (auto simp: image_iff)
      fix m assume "mc < m" "m < length val"
      then show "\<exists>i\<in>{Suc 0..<length val - mc}. take m val = take (length val - i) val"
        by (intro bexI [of _ "length val - m"]) auto
    next
      fix i assume "Suc 0 \<le> i" "i < length val - mc"
      then show "\<exists>m>mc. m < length val \<and> take (length val - i) val = take m val"
        by (intro exI [of _ "length val - i"]) auto
    qed
    then show ?thesis by (auto simp: list_ex_iff)
  qed
  have keep: "bx_pending (fst (suggest opt d c)) = bx_pending c" for d and c :: "'a box"
    by (simp add: suggest_def Let_def split: sum.split)
  show ?thesis
    using assms(2) fresh
    by (auto simp: keyupHandler_def Let_def parts keep clear_timeout_def ask_later_def set_timeout_def split: option.split)
qed

theorem question_scheduled_iff_witness:
  "\<exists>b :: string box. bx_cache b = [(''dns'', Results [])] \<and> bx_value b = ''dnsx'' \<and>
    (bx_next b, AskSource ''dnsx'') \<in> set (bx_pending (fst (keyupHandler sample_options 88 b)))"
proof -
  let ?b = "(ac_new None '''')\<lparr>bx_cache := [(''dns'', Results [])], bx_value := ''dnsx''\<rparr> :: string box"
  have "pending_ok sample_options ?b" by (simp add: pending_ok_def ac_new_def)
  moreover have "cache_lookup (bx_cache ?b) (bx_value ?b) = None" by code_simp
  ultimately show ?thesis
    using question_scheduled_iff [of sample_options ?b 88]
    by (intro exI [of _ ?b]) (auto simp: sample_options_def ac_new_def)
qed

end
