(* ===== verification/DocsSearch.thy ===== *)
theory DocsSearch
  imports AutoComplete
begin

text \<open>
  \<open>docs/themes/hugo-theme-learn/static/js/search.js\<close>: the search box of the documentation, an
  instance of theory \<open>AutoComplete\<close>. The index is built and searched by the library lunr, and texts are matched
  by the browser: both are arguments.
\<close>

section \<open>The index\<close>

record page =
  pg_uri :: string
  pg_title :: string
  pg_content :: string

text \<open>\<open>str.indexOf(sub, from)\<close>; a start below zero is zero.\<close>

definition js_indexOf :: "string \<Rightarrow> string \<Rightarrow> int \<Rightarrow> nat option" where
  "js_indexOf str sub from = find (\<lambda>i. take (length sub) (drop i str) = sub) [nat from..<Suc (length str)]"

definition endsWith :: "string \<Rightarrow> string \<Rightarrow> bool" where
  "endsWith str suffix = (js_indexOf str suffix (int (length str) - int (length suffix)) \<noteq> None)"

definition base_url :: "string \<Rightarrow> string" where
  "base_url baseurl = (if \<not> endsWith baseurl ''/'' then baseurl @ ''/'' else baseurl)"

text \<open>The variables of the script: the pages and the index over them, once the file has been read.\<close>

record docs =
  baseurl :: string
  pagesIndex :: "page list option"
  lunrIndex :: "(string \<Rightarrow> (js_error, string list) result) option"

text \<open>\<open>initLunr\<close>: the file that is asked for, and what becomes of its answer. \<open>lunr\<close> builds the index.\<close>

definition initLunr :: "docs \<Rightarrow> string \<times> docs" where
  "initLunr st = (let url = base_url (baseurl st) in (url @ ''index.json'', st\<lparr>baseurl := url\<rparr>))"


section \<open>The search\<close>

definition query_of :: "string \<Rightarrow> string" where
  "query_of t = t @ ''^100'' @ '' '' @ t @ ''*^10'' @ '' '' @ ''*'' @ t @ ''^10'' @ '' '' @ t @ ''~2^1''"

text \<open>Both variables are set together; before that the search fails.\<close>

definition docs_search :: "docs \<Rightarrow> string \<Rightarrow> (js_error, page option list) result" where
  "docs_search st queryTerm =
     (case (lunrIndex st, pagesIndex st) of
        (Some idx, Some pages) \<Rightarrow>
          bind_result (idx (query_of queryTerm)) (\<lambda>refs. Inr (map (\<lambda>ref. find (\<lambda>p. pg_uri p = ref) pages) refs))
      | _ \<Rightarrow> Inl (TypeError ''search''))"

definition context_pattern :: "string \<Rightarrow> string" where
  "context_pattern t =
     (let ws = ''(?:'' @ [CHR 0x5C] @ ''s?(?:['' @ [CHR 0x5C] @ ''w]+)'' @ [CHR 0x5C] @ ''s?){0,2}'' in ws @ t @ ws)"

text \<open>
  \<open>renderItem\<close>: the attributes of the element. \<open>rx\<close> is \<open>String.match\<close>: it fails for a text that is not a regular
  expression, and gives the text that matched, if any. The titles, addresses and texts are taken to be free of
  the characters that HTML gives a meaning.
\<close>

definition docs_renderItem ::
  "(string \<Rightarrow> string \<Rightarrow> (js_error, string option) result) \<Rightarrow> page option \<Rightarrow> string \<Rightarrow> (js_error, (string \<times> string) list) result" where
  "docs_renderItem rx item t =
     (case item of
        None \<Rightarrow> Inl (TypeError ''content'')
      | Some p \<Rightarrow>
          bind_result (rx (pg_content p) (context_pattern t)) (\<lambda>context.
          Inr [(''class'', ''autocomplete-suggestion''), (''data-term'', t), (''data-title'', pg_title p), (''data-uri'', pg_uri p),
               (''data-context'', case context of None \<Rightarrow> ''null'' | Some c \<Rightarrow> c)]))"

definition docs_options ::
  "(string \<Rightarrow> string \<Rightarrow> (js_error, string option) result) \<Rightarrow> int \<Rightarrow> int \<Rightarrow> (nat \<Rightarrow> int) \<Rightarrow> docs \<Rightarrow> page ac_options" where
  "docs_options rx h maxH tops st =
     \<lparr>minChars = 3, use_cache = True, ac_source = docs_search st, renderItem = docs_renderItem rx,
      suggestionHeight = h, maxHeight = maxH, item_top = tops\<rparr>"


section \<open>Lemmas\<close>

lemma endsWith_suffix: "endsWith str suffix \<longleftrightarrow> (\<exists>p. str = p @ suffix)"
proof (cases "length suffix \<le> length str")
  case True
  let ?k = "length str - length suffix"
  have k: "nat (int (length str) - int (length suffix)) = ?k" by simp
  have "endsWith str suffix \<longleftrightarrow> (\<exists>i \<ge> ?k. i < Suc (length str) \<and> take (length suffix) (drop i str) = suffix)"
    unfolding endsWith_def js_indexOf_def k by (auto simp: find_None_iff)
  also have "\<dots> \<longleftrightarrow> drop ?k str = suffix"
  proof
    assume "\<exists>i \<ge> ?k. i < Suc (length str) \<and> take (length suffix) (drop i str) = suffix"
    then obtain i where i: "?k \<le> i" "i < Suc (length str)" "take (length suffix) (drop i str) = suffix" by blast
    then have "length suffix \<le> length str - i" by (metis length_drop length_take min.cobounded1)
    with i True have "i = ?k \<or> suffix = []" by auto
    with i(3) show "drop ?k str = suffix" by auto
  qed (use True in \<open>auto intro!: exI [of _ ?k]\<close>)
  also have "\<dots> \<longleftrightarrow> (\<exists>p. str = p @ suffix)" by (metis append_take_drop_id append_eq_conv_conj length_append diff_add_inverse2)
  finally show ?thesis .
next
  case False
  have "length (take (length suffix) (drop i str)) < length suffix" for i using False by auto
  then have "take (length suffix) (drop i str) \<noteq> suffix" for i by (metis less_irrefl)
  with False show ?thesis by (auto simp: endsWith_def js_indexOf_def find_None_iff)
qed

lemma base_url_slash: "\<exists>p. base_url u = p @ ''/''" "base_url (base_url u) = base_url u"
  unfolding base_url_def endsWith_suffix by (cases "\<exists>p. u = p @ ''/''"; auto)+


lemma docs_shown:
  assumes "shown_from (docs_options rx h m tops st) Q as"
  shows "\<exists>p. Q p \<and> map_of as ''data-uri'' = Some (pg_uri p) \<and> map_of as ''data-title'' = Some (pg_title p) \<and> map_of as ''data-val'' = None"
  using assms unfolding shown_from_def docs_options_def docs_renderItem_def
  by (fastforce simp: bind_result_Ok_iff split: option.splits)

section \<open>Properties\<close>







text \<open>
  In the search box of the documentation the arrow keys delete what was typed: the suggestions have no
  attribute \<open>data-val\<close>, whose value the keys put into the box, so that selecting one leaves the box empty.
\<close>

lemma arrow_key_empties_box:
  assumes "ac_reachable (docs_options rx h m tops st) b" and "bx_items b \<noteq> []" and "selected_at b = None"
    and "key = 40 \<or> key = 38"
  shows "bx_value (pressed (docs_options rx h m tops st) key b) = ''''"
proof -
  let ?o = "docs_options rx h m tops st" and ?i = "if key = 40 then 0 else length (bx_items b) - 1"
  have "from_inv ?o (\<lambda>_. True) b" using assms(1) by (rule reachable_from) (simp add: data_from_def)
  moreover have "?i < length (bx_items b)" using assms(2) by auto
  ultimately have "shown_from ?o (\<lambda>_. True) (sg_attrs (bx_items b ! ?i))"
    unfolding from_inv_def list_all_length by blast
  from docs_shown [OF this] have "data_val (bx_items b ! ?i) = None" by (auto simp: data_val_def)
  with arrow_first [OF assms(3) [unfolded selected_at_None] assms(2,4), of ?o] show ?thesis
    by (simp add: Let_def to_value_def)
qed

text \<open>
  A text that is the name of a function every object inherits, such as \<open>constructor\<close>, is taken for a cached
  answer: the handler throws, shows nothing and asks no question, although the pages may well contain the text.
\<close>

lemma inherited_name_throws:
  assumes "inherited (bx_value b) = Some (Suc n)" and "map_of (bx_cache b) (bx_value b) = None"
    and "bx_last_val b \<noteq> bx_value b" and "3 \<le> length (bx_value b)"
    and "key = 0 \<or> (key < 35 \<or> key > 40) \<and> key \<noteq> 13 \<and> key \<noteq> 27"
  shows "snd (keyupHandler (docs_options rx h m tops st) key b) = [AcThrow (TypeError ''content'')] \<and>
    bx_items (fst (keyupHandler (docs_options rx h m tops st) key b)) = bx_items b \<and>
    set (bx_pending (fst (keyupHandler (docs_options rx h m tops st) key b))) \<subseteq> set (bx_pending b)"
proof -
  have "cache_lookup (bx_cache b) (bx_value b) = Some (Inherited (Suc n))"
    using assms(1,2) by (simp add: cache_lookup_def)
  with assms(3-5) show ?thesis
    by (auto simp: keyupHandler_def docs_options_def Let_def suggest_def clear_timeout_def docs_renderItem_def)
qed

end
