(* ===== verification/DocsReady.thy ===== *)
theory DocsReady
  imports DocsPage DocsSearch
begin

text \<open>
  How the scripts of the documentation are put together: the listeners of the search box (\<open>auto-complete.js\<close>), the
  calls of the sticky plugin by name (\<open>jquery.sticky.js\<close>), and what \<open>learn.js\<close>, \<open>hugo-learn.js\<close> and \<open>search.js\<close> do
  when the document is ready, when the page has loaded and when a file is missing. jQuery's selector engine and
  its fading are arguments.
\<close>

section \<open>Listeners of the search box\<close>

text \<open>An event is delivered along the path from its target to the root; elements are told apart by a number.\<close>

record dom_elem =
  de_id :: nat
  de_classes :: "string list"

definition hasClass :: "dom_elem \<Rightarrow> string \<Rightarrow> bool" where
  "hasClass el className \<longleftrightarrow> className \<in> set (de_classes el)"

definition live_cb :: "string \<Rightarrow> (dom_elem \<Rightarrow> 's \<Rightarrow> 's) \<Rightarrow> dom_elem list \<Rightarrow> 's \<Rightarrow> 's" where
  "live_cb elClass cb path s = (case find (\<lambda>el. hasClass el elClass) path of Some el \<Rightarrow> cb el s | None \<Rightarrow> s)"

text \<open>A listener of \<open>context\<close> hears what bubbles up to it, and of other events only those whose target it is.\<close>

definition heard :: "bool \<Rightarrow> nat \<Rightarrow> dom_elem list \<Rightarrow> bool" where
  "heard bubbles ctx path \<longleftrightarrow> (if bubbles then ctx \<in> de_id ` set path else path \<noteq> [] \<and> de_id (hd path) = ctx)"

definition live :: "bool \<Rightarrow> string \<Rightarrow> (dom_elem \<Rightarrow> 's \<Rightarrow> 's) \<Rightarrow> nat \<Rightarrow> dom_elem list \<Rightarrow> 's \<Rightarrow> 's" where
  "live bubbles elClass cb ctx path s = (if heard bubbles ctx path then live_cb elClass cb path s else s)"

text \<open>The container of the suggestions and the suggestions, with the three registrations.\<close>

definition sc_elem :: dom_elem where
  "sc_elem = \<lparr>de_id = 0, de_classes = [''autocomplete-suggestions'']\<rparr>"

definition sugg_elem :: "nat \<Rightarrow> dom_elem" where
  "sugg_elem i = \<lparr>de_id = Suc i, de_classes = [''autocomplete-suggestion'']\<rparr>"

definition on_mouseleave :: "dom_elem list \<Rightarrow> 'a box \<Rightarrow> 'a box" where
  "on_mouseleave path = live False ''autocomplete-suggestion'' (\<lambda>_. ac_mouseleave) 0 path"

definition on_mouseover :: "dom_elem list \<Rightarrow> 'a box \<Rightarrow> 'a box" where
  "on_mouseover path = live True ''autocomplete-suggestion'' (\<lambda>el. ac_mouseover (de_id el - 1)) 0 path"

definition on_mousedown :: "dom_elem list \<Rightarrow> 'a box \<times> ac_effect list \<Rightarrow> 'a box \<times> ac_effect list" where
  "on_mousedown path = live True ''autocomplete-suggestion''
     (\<lambda>el (b, es). let (b', es') = ac_mousedown (de_id el - 1) b in (b', es @ es')) 0 path"

text \<open>
  Listeners by target, event and handler. With \<open>ie\<close> the browser has \<open>attachEvent\<close>; otherwise a listener that is there is
  not added again.
\<close>

datatype ac_target = TWindow | TInput nat

datatype ac_handler = UpdateSC nat | BlurHandler nat | KeydownHandler nat | KeyupHandler nat | FocusHandler nat

type_synonym listener = "ac_target \<times> string \<times> ac_handler"

definition addEvent :: "bool \<Rightarrow> ac_target \<Rightarrow> string \<Rightarrow> ac_handler \<Rightarrow> listener list \<Rightarrow> listener list" where
  "addEvent ie el ty h ls =
     (if ie then ls @ [(el, ''on'' @ ty, h)] else if (el, ty, h) \<in> set ls then ls else ls @ [(el, ty, h)])"

definition removeEvent :: "bool \<Rightarrow> ac_target \<Rightarrow> string \<Rightarrow> ac_handler \<Rightarrow> listener list \<Rightarrow> listener list" where
  "removeEvent ie el ty h ls = remove1 (el, if ie then ''on'' @ ty else ty, h) ls"

definition ac_listen :: "bool \<Rightarrow> nat \<Rightarrow> nat \<Rightarrow> listener list \<Rightarrow> listener list" where
  "ac_listen ie min_chars i ls =
     (let ls1 = addEvent ie (TInput i) ''keyup'' (KeyupHandler i) (addEvent ie (TInput i) ''keydown'' (KeydownHandler i)
        (addEvent ie (TInput i) ''blur'' (BlurHandler i) (addEvent ie TWindow ''resize'' (UpdateSC i) ls)))
      in if min_chars = 0 then addEvent ie (TInput i) ''focus'' (FocusHandler i) ls1 else ls1)"

definition ac_unlisten :: "bool \<Rightarrow> nat \<Rightarrow> listener list \<Rightarrow> listener list" where
  "ac_unlisten ie i ls =
     removeEvent ie (TInput i) ''keyup'' (KeyupHandler i) (removeEvent ie (TInput i) ''keydown'' (KeydownHandler i)
     (removeEvent ie (TInput i) ''focus'' (FocusHandler i) (removeEvent ie (TInput i) ''blur'' (BlurHandler i)
     (removeEvent ie TWindow ''resize'' (UpdateSC i) ls))))"

text \<open>
  The variable \<open>that\<close> of the loop over the elements is one variable for all rounds: when the handlers run, it holds the
  last element.
\<close>

fun that_after :: "nat list \<Rightarrow> nat option \<Rightarrow> nat option" where
  "that_after [] that = that"
| "that_after (e # es) that = that_after es (Some e)"

definition acts_on :: "nat list \<Rightarrow> nat \<Rightarrow> nat option" where
  "acts_on elems e = (if e \<in> set elems then that_after elems None else None)"

section \<open>The sticky plugin by name\<close>

text \<open>
  \<open>methods[method]\<close>: a name of \<open>methods\<close>, or one that every object inherits; an object as argument is the text
  \<open>[object Object]\<close>, which is neither.
\<close>

datatype plugin_arg = NoArg | ObjectArg sticky_options | NameArg string

datatype plugin_call = CallMethod string | CallInherited string | CallDefault sticky_options | CallError string

datatype plugin_error = Thrown js_error | JQueryError string

definition sticky_methods :: "string list" where
  "sticky_methods = [''init'', ''setWrapperHeight'', ''setupChangeListeners'', ''update'', ''unstick'']"

definition no_options :: sticky_options where
  "no_options = \<lparr>o_topSpacing = None, o_bottomSpacing = None, o_center = None, o_getWidthFrom = None,
     o_widthFromWrapper = None, o_responsiveWidth = None, o_zIndex = None\<rparr>"

definition plugin_call :: "plugin_arg \<Rightarrow> plugin_call" where
  "plugin_call arg =
     (case arg of
        NoArg \<Rightarrow> CallDefault no_options
      | ObjectArg opts \<Rightarrow> CallDefault opts
      | NameArg m \<Rightarrow>
          if m \<in> set sticky_methods then CallMethod m
          else if inherited m \<noteq> None then CallInherited m
          else if m = '''' then CallDefault no_options
          else CallError (''Method '' @ m @ '' does not exist on jQuery.sticky''))"

text \<open>
  The call on one element. \<open>update\<close> scrolls; called by name without an element, \<open>setWrapperHeight\<close> does nothing and
  \<open>setupChangeListeners\<close> fails. The inherited functions change nothing; those that want a function fail without
  one, and \<open>__proto__\<close> is none.
\<close>

definition plugin_apply ::
  "(sticky_options \<Rightarrow> sticky_page \<Rightarrow> sticky_page) \<Rightarrow> window \<Rightarrow> nat \<Rightarrow> plugin_arg \<Rightarrow> sticky_page \<Rightarrow> (plugin_error, sticky_page) result" where
  "plugin_apply deflt w el arg pg =
     (case plugin_call arg of
        CallDefault opts \<Rightarrow> Inr (deflt opts pg)
      | CallMethod m \<Rightarrow>
          if m = ''init'' then Inr (sticky_init no_options (win_measures w) el pg)
          else if m = ''update'' then Inr (fst (scroller w pg))
          else if m = ''unstick'' then Inr (fst (sticky_unstick el pg))
          else if m = ''setWrapperHeight'' then Inr pg
          else Inl (Thrown (TypeError ''observe''))
      | CallInherited m \<Rightarrow>
          if m \<in> {''__defineGetter__'', ''__defineSetter__'', ''__proto__''} then Inl (Thrown (TypeError m)) else Inr pg
      | CallError msg \<Rightarrow> Inl (JQueryError msg))"

definition fn_sticky :: "window \<Rightarrow> nat \<Rightarrow> plugin_arg \<Rightarrow> sticky_page \<Rightarrow> (plugin_error, sticky_page) result" where
  "fn_sticky w el arg pg = plugin_apply (\<lambda>opts. sticky_init opts (win_measures w) el) w el arg pg"

definition fn_unstick :: "window \<Rightarrow> nat \<Rightarrow> plugin_arg \<Rightarrow> sticky_page \<Rightarrow> (plugin_error, sticky_page) result" where
  "fn_unstick w el arg pg = plugin_apply (\<lambda>_ p. fst (sticky_unstick el p)) w el arg pg"

text \<open>How a browser tells that the children of an element have changed.\<close>

datatype change_api = Observes | Listens | Attaches | NoChanges

definition children_changed :: "change_api \<Rightarrow> (nat \<Rightarrow> measures) \<Rightarrow> nat \<Rightarrow> (nat \<times> nat) list \<Rightarrow> sticky_page \<Rightarrow> sticky_page" where
  "children_changed ca ms el mutations pg =
     (case ca of
        Observes \<Rightarrow> mutation_seen ms el mutations pg
      | NoChanges \<Rightarrow> pg
      | _ \<Rightarrow> ((setWrapperHeight ms el) ^^ sum_list (map (\<lambda>(added, removed). added + removed) mutations)) pg)"


section \<open>The document is ready\<close>

definition overlay_click :: "docs_body \<Rightarrow> docs_body" where
  "overlay_click d =
     (let h = (\<not> sidebar_hidden d) in d\<lparr>sidebar_hidden := h, sidebarStatus := if h then Closed else Open\<rparr>)"

text \<open>\<open>toUpperCase\<close> on the characters of Latin-1, as numbers, since three of them leave that range.\<close>

definition upper_units :: "char \<Rightarrow> nat list" where
  "upper_units c =
     (let n = (of_char c :: nat) in
      if 97 \<le> n \<and> n \<le> 122 \<or> 0xE0 \<le> n \<and> n \<le> 0xFE \<and> n \<noteq> 0xF7 then [n - 32]
      else if n = 0xDF then [83, 83]
      else if n = 0xFF then [0x178]
      else if n = 0xB5 then [0x39C]
      else [n])"

definition toUpperCase :: "string \<Rightarrow> nat list" where
  "toUpperCase s = concat (map upper_units s)"

definition occurs_in :: "'a list \<Rightarrow> 'a list \<Rightarrow> bool" where
  "occurs_in xs ys = list_ex (\<lambda>i. take (length xs) (drop i ys) = xs) [0..<Suc (length ys)]"

definition contains_pseudo :: "string \<Rightarrow> node \<Rightarrow> bool" where
  "contains_pseudo arg elem = occurs_in (toUpperCase arg) (toUpperCase (text_of elem))"

text \<open>\<open>find\<close>: the elements below an element, in the order of the document.\<close>

fun below :: "node \<Rightarrow> node list" and below_list :: "node list \<Rightarrow> node list" where
  "below (Text s) = []"
| "below (Element t c ch) = below_list ch"
| "below_list [] = []"
| "below_list (n # ns) = (case n of Text s \<Rightarrow> [] | Element t c ch \<Rightarrow> n # below n) @ below_list ns"

text \<open>
  The search of the last page is taken over. \<open>sizzle\<close> reads the argument of \<open>:contains(\<dots>)\<close> out of the selector, into
  which the text was pasted as it is, or fails; \<open>inner\<close> is the element \<open>#body-inner\<close>; \<open>scrollY\<close> is where the window
  stands once the element is in view. The results: the body, the search, and where the window is scrolled to.
\<close>

definition scroll_back :: "int \<Rightarrow> int option" where
  "scroll_back scrolledY = (if scrolledY \<noteq> 0 then Some (scrolledY - 125) else None)"

definition ready_search ::
  "(string \<Rightarrow> (js_error, string) result) \<Rightarrow> (node \<Rightarrow> node) \<Rightarrow> (node \<Rightarrow> int) \<Rightarrow> docs_body \<Rightarrow> search_page \<Rightarrow>
   (js_error, docs_body \<times> search_page \<times> int option) result" where
  "ready_search sizzle inner scrollY d st =
     (if sp_stored st = None \<or> sp_stored st = Some '''' then Inr (d, st, None)
      else
        bind_result (search_restore st) (\<lambda>st1.
        bind_result (sizzle (the (sp_stored st))) (\<lambda>arg.
        Inr (d\<lparr>searchbox_hidden := False\<rparr>, st1,
          case find (contains_pseudo arg) (below (inner (sp_root st1))) of
            Some el \<Rightarrow> scroll_back (scrollY el)
          | None \<Rightarrow> None))))"

text \<open>
  The loop over the code blocks: \<open>clipInit\<close>, the number of \<open>ClipboardJS\<close> objects that are created, and which blocks get a
  button.
\<close>

fun each_code :: "bool \<Rightarrow> string list \<Rightarrow> bool \<times> nat \<times> bool list" where
  "each_code clipInit [] = (clipInit, 0, [])"
| "each_code clipInit (text # codes) =
     (if length text > 5 then
        (let (i, n, bs) = each_code True codes in (i, if clipInit then n else Suc n, True # bs))
      else (let (i, n, bs) = each_code clipInit codes in (i, n, False # bs)))"

text \<open>The address that a click on the link to the next or the previous page sets.\<close>

definition nav_click :: "string option \<Rightarrow> string" where
  "nav_click href = (case href of Some h \<Rightarrow> h | None \<Rightarrow> ''undefined'')"

record link =
  ln_topbar :: bool
  ln_inner :: bool
  ln_has_img :: bool
  ln_rel :: "string option"
  ln_classes :: "string list"

definition highlight_topbar :: "link \<Rightarrow> link" where
  "highlight_topbar l =
     (if ln_topbar l \<and> \<not> ln_has_img l \<and> ''btn'' \<notin> set (ln_classes l)
      then l\<lparr>ln_classes := add_class ''highlight'' (ln_classes l)\<rparr> else l)"

definition highlight_inner :: "link \<Rightarrow> link" where
  "highlight_inner l =
     (if ln_inner l \<and> \<not> ln_has_img l \<and> ''btn'' \<notin> set (ln_classes l) \<and> ln_rel l \<noteq> Some ''footnote''
      then l\<lparr>ln_classes := add_class ''highlight'' (ln_classes l)\<rparr> else l)"

text \<open>The table of contents; \<open>fade\<close> is \<open>stop(true, false, true).fadeToggle(100)\<close>. \<open>hover\<close> is told of entering and leaving.\<close>

definition touchsupport :: "bool \<Rightarrow> int option \<Rightarrow> int option \<Rightarrow> bool" where
  "touchsupport ontouchstart maxTouchPoints msMaxTouchPoints \<longleftrightarrow>
     ontouchstart \<or> (case maxTouchPoints of Some n \<Rightarrow> n > 0 | None \<Rightarrow> False) \<or>
     (case msMaxTouchPoints of Some n \<Rightarrow> n > 0 | None \<Rightarrow> False)"

datatype toc_event = TocEnter | TocLeave | TocClick

definition toc_handle :: "('p \<Rightarrow> 'p) \<Rightarrow> bool \<Rightarrow> toc_event \<Rightarrow> 'p \<Rightarrow> 'p" where
  "toc_handle fade touch ev p =
     (if \<not> touch \<and> ev \<in> {TocEnter, TocLeave} then fade p
      else if touch \<and> ev = TocClick then fade p
      else p)"

text \<open>The anchors: the position is corrected at once, and then at every change of the hash and every click on a link.\<close>

datatype anchor_event = HashChange string | LinkClick "string option"

fun anchor_handle :: "anchor_event \<Rightarrow> anchor_page \<Rightarrow> bool \<times> anchor_page" where
  "anchor_handle (HashChange hash) pg = scrollToCurrent True hash pg"
| "anchor_handle (LinkClick href) pg = delegateAnchors href pg"

definition anchors_init :: "string \<Rightarrow> anchor_page \<Rightarrow> anchor_page" where
  "anchors_init hash pg = snd (scrollToCurrent False hash pg)"

text \<open>The handler as a whole: what fails ends it, and the rest is not done.\<close>

definition docs_ready ::
  "(string \<Rightarrow> (js_error, string) result) \<Rightarrow> (node \<Rightarrow> node) \<Rightarrow> (node \<Rightarrow> int) \<Rightarrow> string list \<Rightarrow> link list \<Rightarrow> docs_body \<Rightarrow> search_page \<Rightarrow>
   (js_error, (docs_body \<times> search_page \<times> int option) \<times> bool list \<times> link list) result" where
  "docs_ready sizzle inner scrollY codes links d st =
     bind_result (ready_search sizzle inner scrollY d st) (\<lambda>r.
     Inr (r, snd (snd (each_code False codes)), map highlight_inner (map highlight_topbar links)))"

section \<open>The page has loaded\<close>

text \<open>\<open>smartresize\<close> with a function: without a threshold and not at once. The times of the calls.\<close>

definition smartresize :: "nat list \<Rightarrow> nat list" where
  "smartresize ts = map fst (db_run 0 False (map (\<lambda>t. (t, ())) ts) db_new)"

text \<open>The margins that are set: at once, and whenever the window has been resized; \<open>ms\<close> is what is measured at a time.\<close>

definition nav_margins :: "(nat \<Rightarrow> int \<times> int \<times> int) \<Rightarrow> nat \<Rightarrow> nat list \<Rightarrow> (nat \<times> int) list" where
  "nav_margins ms loaded ts =
     map (\<lambda>t. case ms t of (inner, body, bar) \<Rightarrow> (t, adjustForScrollbar inner body bar)) (loaded # smartresize ts)"

text \<open>The session, the entries of the menu that are marked, and the marks of the search.\<close>

definition window_load :: "string \<Rightarrow> string list \<Rightarrow> string list \<times> search_page \<Rightarrow> string list \<times> string list \<times> search_page" where
  "window_load url navs s =
     (case s of (stored, st) \<Rightarrow>
        let stored' = store_page url stored in (stored', visited_entries stored' navs, search_loaded st))"

definition link_leave :: "tip \<Rightarrow> tip" where
  "link_leave b = b\<lparr>tip_label := None,
     tip_classes := filter (\<lambda>c. c \<notin> {''tooltipped'', ''tooltipped-s'', ''tooltipped-w''}) (tip_classes b)\<rparr>"

text \<open>The index could not be read: what is written to the console.\<close>

definition initLunr_failed :: "string \<Rightarrow> string \<Rightarrow> docs \<Rightarrow> (string \<times> string) \<times> docs" where
  "initLunr_failed textStatus error st = ((''Error getting Hugo index file:'', textStatus @ '', '' @ error), st)"


section \<open>Lemmas on the listeners\<close>

definition no_sugg :: "dom_elem list \<Rightarrow> bool" where
  "no_sugg path \<longleftrightarrow> list_all (\<lambda>el. \<not> hasClass el ''autocomplete-suggestion'') path"

lemma sugg_elem_id [simp]: "de_id (sugg_elem i) = Suc i"
  by (simp add: sugg_elem_def)

lemma live_inside:
  "no_sugg within \<Longrightarrow>
   live True ''autocomplete-suggestion'' cb 0 (within @ sugg_elem i # sc_elem # outer) s = cb (sugg_elem i) s"
  by (induction within) (simp_all add: no_sugg_def live_def live_cb_def heard_def hasClass_def sugg_elem_def sc_elem_def)

text \<open>The mouse over any part of a suggestion selects that suggestion, and pressing it there chooses it.\<close>

lemma mouse_inside:
  assumes "no_sugg within"
  shows "on_mouseover (within @ sugg_elem i # sc_elem # outer) b = ac_mouseover i b"
    and "on_mousedown (within @ sugg_elem i # sc_elem # outer) (b, []) = ac_mousedown i b"
  by (simp_all add: on_mouseover_def on_mousedown_def live_inside [OF assms] case_prod_unfold)

text \<open>
  That the mouse leaves is told to the element it leaves only: the listener of the container never finds a suggestion
  there, and a suggestion stays selected.
\<close>

lemma mouseleave_ignored:
  assumes "path = within @ sc_elem # outer" and "no_sugg outer" and "list_all (\<lambda>el. de_id el \<noteq> 0) within"
  shows "on_mouseleave path b = b"
  using assms
  by (cases within) (auto simp: on_mouseleave_def live_def live_cb_def heard_def no_sugg_def hasClass_def sc_elem_def list_all_iff
      find_None_iff split: option.splits dest!: find_Some_iff [THEN iffD1])

text \<open>\<open>destroy\<close> removes every listener that was added, in old browsers too.\<close>

lemma addEvent_new:
  "(el, ty, h) \<notin> set ls \<Longrightarrow> addEvent ie el ty h ls = ls @ [(el, if ie then ''on'' @ ty else ty, h)]"
  by (simp add: addEvent_def)

lemma ac_listen_unlisten:
  assumes "\<And>ty h. (TInput i, ty, h) \<notin> set ls" and "\<And>ty. (TWindow, ty, UpdateSC i) \<notin> set ls"
  shows "ac_unlisten ie i (ac_listen ie n i ls) = ls"
proof -
  let ?n = "\<lambda>ty. if ie then ''on'' @ ty else ty"
  let ?all = "ls @ [(TWindow, ?n ''resize'', UpdateSC i), (TInput i, ?n ''blur'', BlurHandler i),
      (TInput i, ?n ''keydown'', KeydownHandler i), (TInput i, ?n ''keyup'', KeyupHandler i)]"
  have "ac_listen ie n i ls = (if n = 0 then ?all @ [(TInput i, ?n ''focus'', FocusHandler i)] else ?all)"
    using assms by (simp add: ac_listen_def addEvent_new Let_def)
  then show ?thesis
    using assms by (simp add: ac_unlisten_def removeEvent_def remove1_append remove1_idem)
qed

text \<open>With several inputs every handler works on the last one.\<close>

lemma that_after_last: "es \<noteq> [] \<Longrightarrow> that_after es x = Some (last es)"
  by (induction es x rule: that_after.induct) auto

lemma acts_on_last: "e \<in> set elems \<Longrightarrow> acts_on elems e = Some (last elems)"
  by (auto simp: acts_on_def intro: that_after_last)

section \<open>Lemmas on the sticky plugin\<close>

lemma filter_other_elements:
  "el \<notin> sk_element ` set xs \<Longrightarrow>
   filter (\<lambda>s. sk_element s \<noteq> el) (map (\<lambda>s. if sk_element s = el then s\<lparr>wrapperHeight := h\<rparr> else s) xs) = xs"
  by (induction xs) auto

text \<open>\<open>unstick\<close> takes back what \<open>sticky\<close> did, whichever of the two plugins is called by that name.\<close>

lemma sticky_then_unstick:
  assumes "el \<notin> sk_element ` set (sticked pg)" and "fn_sticky w el (ObjectArg opts) pg = Inr pg1"
  shows "fn_unstick w el NoArg pg1 = Inr pg" and "fn_sticky w el (NameArg ''unstick'') pg1 = fn_unstick w el NoArg pg1"
proof -
  have "pg1 = sticky_init opts (win_measures w) el pg"
    using assms(2) by (simp add: fn_sticky_def plugin_apply_def plugin_call_def)
  then have "sticked (fst (sticky_unstick el pg1)) = sticked pg"
    by (simp add: unstick_removes filter_other_elements [OF assms(1)] sticky_init_def setWrapperHeight_def Let_def)
  moreover have "windowHeight (fst (sticky_unstick el pg1)) = windowHeight pg"
    using \<open>pg1 = _\<close> by (simp add: sticky_unstick_def sticky_init_def setWrapperHeight_def Let_def case_prod_unfold)
  ultimately show "fn_unstick w el NoArg pg1 = Inr pg"
    by (simp add: fn_unstick_def plugin_apply_def plugin_call_def)
  show "fn_sticky w el (NameArg ''unstick'') pg1 = fn_unstick w el NoArg pg1"
    by (simp add: fn_sticky_def fn_unstick_def plugin_apply_def plugin_call_def sticky_methods_def)
qed

lemma setWrapperHeight_twice: "setWrapperHeight ms el (setWrapperHeight ms el pg) = setWrapperHeight ms el pg"
  by (simp add: setWrapperHeight_def comp_def cong: map_cong)

text \<open>Observers and listeners agree on every change of the children.\<close>

lemma children_changed_agree:
  assumes "list_all (\<lambda>(added, removed). added + removed > 0) mutations"
  shows "children_changed Observes ms el mutations pg = children_changed Listens ms el mutations pg"
proof (cases mutations)
  case (Cons m muts)
  have again: "(setWrapperHeight ms el ^^ Suc n) pg = setWrapperHeight ms el pg" for n
    by (induction n) (simp_all add: setWrapperHeight_twice)
  obtain n where "sum_list (map (\<lambda>(added, removed). added + removed) mutations) = Suc n"
    using assms Cons by (cases m) (auto simp: gr0_conv_Suc)
  with again assms Cons show ?thesis
    by (cases m) (auto simp: children_changed_def mutation_seen_def simp del: funpow.simps)
qed (simp add: children_changed_def mutation_seen_def)


section \<open>Lemmas on the page\<close>

lemma overlay_is_toggle: "overlay_click d = toggle_sidebar d"
  by (simp add: overlay_click_def toggle_sidebar_def)

lemma occurs_in_iff: "occurs_in xs ys \<longleftrightarrow> (\<exists>a b. ys = a @ xs @ b)"
proof
  assume "occurs_in xs ys"
  then obtain i where "take (length xs) (drop i ys) = xs" by (auto simp: occurs_in_def list_ex_iff)
  then show "\<exists>a b. ys = a @ xs @ b" by (metis append_take_drop_id)
next
  assume "\<exists>a b. ys = a @ xs @ b"
  then obtain a b where "ys = a @ xs @ b" by blast
  then have "take (length xs) (drop (length a) ys) = xs" "length a < Suc (length ys)" by simp_all
  then show "occurs_in xs ys" unfolding occurs_in_def list_ex_iff by (intro bexI [of _ "length a"]) auto
qed

lemma below_text:
  "m \<in> set (below n) \<Longrightarrow> \<exists>a b. text_of n = a @ text_of m @ b"
  "m \<in> set (below_list ns) \<Longrightarrow> \<exists>a b. texts_of ns = a @ text_of m @ b"
proof (induction n and ns rule: below_below_list.induct)
  case (4 n ns)
  then consider "m = n" | "m \<in> set (below n)" | "m \<in> set (below_list ns)"
    by (auto split: node.splits)
  then show ?case
  proof cases
    case 2
    with 4(1) 4(3) obtain a b where "text_of n = a @ text_of m @ b" by (cases n) auto
    then show ?thesis by (metis append.assoc texts_of.simps(2))
  next
    case 3
    with 4(2) obtain a b where "texts_of ns = a @ text_of m @ b" by blast
    then show ?thesis by (metis append.assoc texts_of.simps(2))
  qed (metis append_Nil texts_of.simps(2))
qed auto

lemma contains_outer: "m \<in> set (below n) \<Longrightarrow> contains_pseudo arg m \<Longrightarrow> contains_pseudo arg n"
proof -
  assume m: "m \<in> set (below n)" "contains_pseudo arg m"
  obtain a b where n: "text_of n = a @ text_of m @ b" using below_text(1) [OF m(1)] by blast
  obtain c d where "toUpperCase (text_of m) = c @ toUpperCase arg @ d"
    using m(2) by (auto simp: contains_pseudo_def occurs_in_iff)
  then have "toUpperCase (text_of n) = (toUpperCase a @ c) @ toUpperCase arg @ (d @ toUpperCase b)"
    by (simp add: n toUpperCase_def)
  then show ?thesis unfolding contains_pseudo_def occurs_in_iff by blast
qed

text \<open>
  The element that a restored search scrolls to is always one of the outermost ones on the page, however deep the text
  stands in it, since an element contains what the elements in it contain.
\<close>

lemma restored_outermost: "find (contains_pseudo arg) (below_list ns) = Some el \<Longrightarrow> el \<in> set ns"
proof (induction ns)
  case (Cons n ns)
  show ?case
  proof (cases n)
    case (Text s)
    with Cons show ?thesis by simp
  next
    case (Element t c ch)
    show ?thesis
    proof (cases "contains_pseudo arg n")
      case True
      with Cons.prems Element show ?thesis by simp
    next
      case False
      then have "find (contains_pseudo arg) (n # below n) = None"
        using contains_outer by (auto simp: find_None_iff)
      with Cons Element show ?thesis by (auto simp: find_append split: if_splits option.splits)
    qed
  qed
qed simp

lemma each_code_exact:
  "each_code i codes =
     (i \<or> code_buttons codes \<noteq> [], if i \<or> code_buttons codes = [] then 0 else 1, map (\<lambda>t. length t > 5) codes)"
  by (induction codes arbitrary: i) (auto simp: code_buttons_def)

text \<open>A search text that the selector engine does not understand ends the handler: no button and no class is added.\<close>

lemma ready_fails:
  assumes "sp_stored st = Some v" and "v \<noteq> []" and "search_restore st = Inr st1" and "sizzle v = Inl e"
  shows "docs_ready sizzle inner scrollY codes links d st = Inl e"
  using assms by (simp add: docs_ready_def ready_search_def)

text \<open>A link of both regions gets its class once; one with an image or a button never does.\<close>

lemma highlight_links_once:
  "ln_classes (highlight_inner (highlight_topbar l)) =
     (if \<not> ln_has_img l \<and> ''btn'' \<notin> set (ln_classes l) \<and> (ln_topbar l \<or> ln_inner l \<and> ln_rel l \<noteq> Some ''footnote'')
      then add_class ''highlight'' (ln_classes l) else ln_classes l)"
  by (auto simp: highlight_inner_def highlight_topbar_def add_class_def)

text \<open>If fading twice has no effect, a visit of the mouse leaves the table of contents as it was; a touch device ignores it.\<close>

lemma toc_visit:
  "(\<And>p. fade (fade p) = p) \<Longrightarrow> toc_handle fade touch TocLeave (toc_handle fade touch TocEnter p) = p"
  by (simp add: toc_handle_def)

text \<open>Every call of the handler of resizing is 100 milliseconds after a resizing.\<close>

lemma smartresize_times: "t \<in> set (smartresize ts) \<Longrightarrow> \<exists>t0 \<in> set ts. t = t0 + 100"
proof -
  have after: "(t, ()) \<in> set (quiet_after d es) \<Longrightarrow> \<exists>t0 \<in> set (map fst es). t = t0 + d" for d and es :: "(nat \<times> unit) list"
    by (induction d es rule: quiet_after.induct) (auto split: if_splits)
  assume t: "t \<in> set (smartresize ts)"
  show ?thesis
  proof (cases ts)
    case Nil
    with t show ?thesis by (simp add: smartresize_def db_new_def)
  next
    case (Cons u us)
    let ?es = "map (\<lambda>t. (t, ())) us" and ?s = "fst (debounced 0 False u () db_new)"
    have idle: "db_idle (db_new :: unit debouncer)" by (simp add: db_idle_def db_new_def)
    have "delayed False u db_new = (db_new :: unit debouncer, [])" by (simp add: delayed_def db_new_def Let_def)
    then have "db_run 0 False (map (\<lambda>t. (t, ())) ts) db_new = db_run 0 False ?es ?s"
      using debounced_idle [OF idle, of 0 u "()" False] by (simp add: Cons case_prod_unfold)
    also have "\<dots> = quiet_after 100 ((u, ()) # ?es)"
      using db_run_waiting [of 0 u "()" ?s False ?es] debounced_idle [OF idle, of 0 u "()" False] by (simp add: db_delay_def)
    finally have "(t, ()) \<in> set (quiet_after 100 ((u, ()) # ?es))" using t by (auto simp: smartresize_def)
    then show ?thesis using after Cons by fastforce
  qed
qed

lemma link_tip_gone:
  "tip_label b = None \<Longrightarrow> set (tip_classes b) \<inter> {''tooltipped'', ''tooltipped-s'', ''tooltipped-w''} = {} \<Longrightarrow> link_leave (link_copied b) = b"
proof (rule tip.equality)
  assume "tip_label b = None"
  then show "tip_label (link_leave (link_copied b)) = tip_label b" by (simp add: link_leave_def)
next
  assume "set (tip_classes b) \<inter> {''tooltipped'', ''tooltipped-s'', ''tooltipped-w''} = {}"
  then have "filter (\<lambda>c. c \<notin> {''tooltipped'', ''tooltipped-s'', ''tooltipped-w''}) (tip_classes b) = tip_classes b"
    unfolding filter_id_conv by blast
  then show "tip_classes (link_leave (link_copied b)) = tip_classes b"
    by (simp add: link_leave_def link_copied_def show_tip_def add_class_def)
qed (simp add: link_leave_def link_copied_def show_tip_def)

text \<open>Without the index every search fails.\<close>

lemma search_without_index:
  "lunrIndex st = None \<Longrightarrow> docs_search (snd (initLunr_failed textStatus error st)) q = Inl (TypeError ''search'')"
  by (simp add: initLunr_failed_def docs_search_def)

end
