(* ===== verification/ServiceWorker.thy ===== *)
theory ServiceWorker
  imports JsBase
begin

text \<open>
  \<open>serviceWorker.js\<close>: registration of a service worker. The browser objects it talks to
  (\<open>navigator.serviceWorker\<close>, \<open>fetch\<close>, \<open>window.location\<close>) answer later, so a function returns what it
  asks for (\<open>sw_effect\<close>) and each callback is a function of the answer. The URL constructor is a
  parameter: \<open>url_origin p base\<close> is the origin of \<open>new URL(p, base)\<close>, \<open>None\<close> where it throws.
\<close>

section \<open>The page and its requests\<close>

record sw_page =
  NODE_ENV :: string
  PUBLIC_URL :: string
  has_serviceWorker :: bool
  loc_hostname :: string
  loc_href :: string
  loc_origin :: string

record sw_config =
  has_onUpdate :: bool
  has_onSuccess :: bool

datatype sw_ready = ReadyLog | ReadyUnregisterReload | ReadyUnregister

datatype sw_effect =
    AddLoadListener
  | RegisterWorker string
  | FetchWorker string
  | WhenReady sw_ready
  | WatchUpdateFound
  | WatchStateChange
  | UnregisterThenReload
  | UnregisterWorker
  | ReloadPage
  | CallOnUpdate
  | CallOnSuccess
  | Log string
  | LogError string
  | SwThrow js_error

section \<open>isLocalhost\<close>

definition octet_rx :: rx where
  "octet_rx =
     RAlt (RSeq (r_string ''25'') (r_between (CHR ''0'') (CHR ''5'')))
    (RAlt (RSeq (r_string ''2'') (RSeq (r_between (CHR ''0'') (CHR ''4'')) (r_between (CHR ''0'') (CHR ''9''))))
          (RSeq (ROpt (r_between (CHR ''0'') (CHR ''1'')))
             (RSeq (r_between (CHR ''0'') (CHR ''9'')) (ROpt (r_between (CHR ''0'') (CHR ''9''))))))"

definition loopback_rx :: rx where
  "loopback_rx = RSeq (r_string ''127'') (r_times 3 (RSeq (r_string ''.'') octet_rx))"

definition isLocalhost :: "string \<Rightarrow> bool" where
  "isLocalhost hostname \<longleftrightarrow>
     hostname = ''localhost'' \<or> hostname = ''[::1]'' \<or> r_full loopback_rx hostname"

section \<open>Registration\<close>

definition registerValidSW :: "string \<Rightarrow> sw_effect list" where
  "registerValidSW swUrl = [RegisterWorker swUrl]"

definition registered :: "bool \<Rightarrow> sw_effect list" where
  "registered ok = (if ok then [WatchUpdateFound] else [LogError ''Error during service worker registration:''])"

definition onupdatefound :: "bool \<Rightarrow> sw_effect list" where
  "onupdatefound installing = (if \<not> installing then [] else [WatchStateChange])"

definition onstatechange :: "string \<Rightarrow> bool \<Rightarrow> sw_config option \<Rightarrow> sw_effect list" where
  "onstatechange worker_state controller config =
     (if worker_state = ''installed'' then
        if controller then
          Log ''New content is available and will be used when all tabs for this page are closed. See https://bit.ly/CRA-PWA.''
          # (case config of Some c \<Rightarrow> if has_onUpdate c then [CallOnUpdate] else [] | None \<Rightarrow> [])
        else
          Log ''Content is cached for offline use.''
          # (case config of Some c \<Rightarrow> if has_onSuccess c then [CallOnSuccess] else [] | None \<Rightarrow> [])
      else [])"

definition checkValidServiceWorker :: "string \<Rightarrow> sw_effect list" where
  "checkValidServiceWorker swUrl = [FetchWorker swUrl]"

fun js_includes :: "string \<Rightarrow> string \<Rightarrow> bool" where
  "js_includes [] sub \<longleftrightarrow> sub = []"
| "js_includes (c # s) sub \<longleftrightarrow> take (length sub) (c # s) = sub \<or> js_includes s sub"

text \<open>The answer to the fetch: status and content type, or \<open>None\<close> when the fetch failed.\<close>

definition fetched :: "string \<Rightarrow> (nat \<times> string option) option \<Rightarrow> sw_effect list" where
  "fetched swUrl response =
     (case response of
        None \<Rightarrow> [Log ''No internet connection found. App is running in offline mode.'']
      | Some (status, contentType) \<Rightarrow>
          if status = 404 \<or> (case contentType of Some t \<Rightarrow> \<not> js_includes t ''javascript'' | None \<Rightarrow> False)
          then [WhenReady ReadyUnregisterReload]
          else registerValidSW swUrl)"

fun ready :: "sw_ready \<Rightarrow> sw_effect list" where
  "ready ReadyLog =
     [Log ''This web app is being served cache-first by a service worker. To learn more, visit https://bit.ly/CRA-PWA'']"
| "ready ReadyUnregisterReload = [UnregisterThenReload]"
| "ready ReadyUnregister = [UnregisterWorker]"

definition unregistered :: "sw_effect list" where
  "unregistered = [ReloadPage]"

definition onload :: "sw_page \<Rightarrow> sw_effect list" where
  "onload p =
     (let swUrl = PUBLIC_URL p @ ''/service-worker.js'' in
      if isLocalhost (loc_hostname p) then checkValidServiceWorker swUrl @ [WhenReady ReadyLog]
      else registerValidSW swUrl)"

definition register :: "(string \<Rightarrow> string \<Rightarrow> string option) \<Rightarrow> sw_page \<Rightarrow> sw_effect list" where
  "register url_origin p =
     (if NODE_ENV p = ''production'' \<and> has_serviceWorker p then
        (case url_origin (PUBLIC_URL p) (loc_href p) of
           None \<Rightarrow> [SwThrow (TypeError ''URL'')]
         | Some origin \<Rightarrow> if origin \<noteq> loc_origin p then [] else [AddLoadListener])
      else [])"

definition unregister :: "bool \<Rightarrow> sw_effect list" where
  "unregister has_sw = (if has_sw then [WhenReady ReadyUnregister] else [])"

section \<open>Loopback addresses\<close>

lemma rmatch_RClass: "t \<in> set (rmatch (RClass P) s) \<longleftrightarrow> (\<exists>c. s = c # t \<and> P c)"
  by (auto split: list.splits)

lemma rmatch_RSeq: "t \<in> set (rmatch (RSeq a b) s) \<longleftrightarrow> (\<exists>u. u \<in> set (rmatch a s) \<and> t \<in> set (rmatch b u))"
  by auto

lemma rmatch_r_between:
  "t \<in> set (rmatch (r_between lo hi) s) \<longleftrightarrow>
   (\<exists>c. s = c # t \<and> (of_char lo :: nat) \<le> of_char c \<and> (of_char c :: nat) \<le> of_char hi)"
  unfolding r_between_def rmatch_RClass ..

text \<open>An octet: one to three digits with a value of at most 255; leading zeros are allowed.\<close>

definition octet_text :: "string \<Rightarrow> bool" where
  "octet_text w \<longleftrightarrow> w \<noteq> [] \<and> length w \<le> 3 \<and> list_all is_digit w \<and> digits_val w \<le> 255"

lemma octet_texts:
  "octet_text [a] \<longleftrightarrow> is_digit a"
  "octet_text [a, b] \<longleftrightarrow> is_digit a \<and> is_digit b"
  "octet_text [a, b, c] \<longleftrightarrow> is_digit a \<and> is_digit b \<and> is_digit c \<and>
     100 * digit_val a + 10 * digit_val b + digit_val c \<le> 255"
  by (auto simp: octet_text_def digits_val_def is_digit_def digit_val_def)

lemma octet_text_cases:
  "octet_text w \<Longrightarrow> (\<exists>a. w = [a]) \<or> (\<exists>a b. w = [a, b]) \<or> (\<exists>a b c. w = [a, b, c])"
  by (auto simp: octet_text_def length_Suc_conv numeral_3_eq_3 le_Suc_eq)

lemma char_codes: "a = CHR ''2'' \<longleftrightarrow> (of_char a :: nat) = 50" "a = CHR ''5'' \<longleftrightarrow> (of_char a :: nat) = 53"
  using of_char_eq_iff [where 'a = nat, of a "CHR ''2''"] of_char_eq_iff [where 'a = nat, of a "CHR ''5''"] by auto

text \<open>The three alternatives of the expression.\<close>

lemma octet_alternatives:
  "t \<in> set (rmatch (RSeq (r_string ''25'') (r_between (CHR ''0'') (CHR ''5''))) s) \<longleftrightarrow>
     (\<exists>a b c. s = [a, b, c] @ t \<and> of_char a = (50 :: nat) \<and> of_char b = (53 :: nat) \<and>
       48 \<le> (of_char c :: nat) \<and> (of_char c :: nat) \<le> 53)"
  "t \<in> set (rmatch (RSeq (r_string ''2'')
       (RSeq (r_between (CHR ''0'') (CHR ''4'')) (r_between (CHR ''0'') (CHR ''9'')))) s) \<longleftrightarrow>
     (\<exists>a b c. s = [a, b, c] @ t \<and> of_char a = (50 :: nat) \<and> 48 \<le> (of_char b :: nat) \<and> (of_char b :: nat) \<le> 52 \<and>
       is_digit c)"
  "t \<in> set (rmatch (RSeq (ROpt (r_between (CHR ''0'') (CHR ''1'')))
       (RSeq (r_between (CHR ''0'') (CHR ''9'')) (ROpt (r_between (CHR ''0'') (CHR ''9''))))) s) \<longleftrightarrow>
     (\<exists>a b c. s = [a, b, c] @ t \<and> 48 \<le> (of_char a :: nat) \<and> (of_char a :: nat) \<le> 49 \<and> is_digit b \<and> is_digit c) \<or>
     (\<exists>a b. s = [a, b] @ t \<and> is_digit a \<and> is_digit b) \<or> (\<exists>a. s = [a] @ t \<and> is_digit a)"
proof -
  have lit: "of_char (CHR ''0'') = (48 :: nat)" "of_char (CHR ''1'') = (49 :: nat)" "of_char (CHR ''4'') = (52 :: nat)"
    "of_char (CHR ''5'') = (53 :: nat)" "of_char (CHR ''9'') = (57 :: nat)" by simp_all
  have opt: "t \<in> set (rmatch (ROpt r) s) \<longleftrightarrow> t \<in> set (rmatch r s) \<or> s = t" for r t and s :: string by auto
  show "t \<in> set (rmatch (RSeq (r_string ''25'') (r_between (CHR ''0'') (CHR ''5''))) s) \<longleftrightarrow>
     (\<exists>a b c. s = [a, b, c] @ t \<and> of_char a = (50 :: nat) \<and> of_char b = (53 :: nat) \<and>
       48 \<le> (of_char c :: nat) \<and> (of_char c :: nat) \<le> 53)"
    unfolding rmatch_RSeq rmatch_r_string rmatch_r_between lit char_codes [symmetric] by auto
  show "t \<in> set (rmatch (RSeq (r_string ''2'')
       (RSeq (r_between (CHR ''0'') (CHR ''4'')) (r_between (CHR ''0'') (CHR ''9'')))) s) \<longleftrightarrow>
     (\<exists>a b c. s = [a, b, c] @ t \<and> of_char a = (50 :: nat) \<and> 48 \<le> (of_char b :: nat) \<and> (of_char b :: nat) \<le> 52 \<and>
       is_digit c)"
    unfolding rmatch_RSeq rmatch_r_string rmatch_r_between lit char_codes [symmetric] is_digit_def by auto
  show "t \<in> set (rmatch (RSeq (ROpt (r_between (CHR ''0'') (CHR ''1'')))
       (RSeq (r_between (CHR ''0'') (CHR ''9'')) (ROpt (r_between (CHR ''0'') (CHR ''9''))))) s) \<longleftrightarrow>
     (\<exists>a b c. s = [a, b, c] @ t \<and> 48 \<le> (of_char a :: nat) \<and> (of_char a :: nat) \<le> 49 \<and> is_digit b \<and> is_digit c) \<or>
     (\<exists>a b. s = [a, b] @ t \<and> is_digit a \<and> is_digit b) \<or> (\<exists>a. s = [a] @ t \<and> is_digit a)"
    unfolding rmatch_RSeq opt rmatch_r_between lit is_digit_def append.simps by (rule iffI) (auto 0 4)+
qed

lemma three_digits:
  "octet_text [a, b, c] \<longleftrightarrow>
     of_char a = (50 :: nat) \<and> of_char b = (53 :: nat) \<and> 48 \<le> (of_char c :: nat) \<and> (of_char c :: nat) \<le> 53 \<or>
     of_char a = (50 :: nat) \<and> 48 \<le> (of_char b :: nat) \<and> (of_char b :: nat) \<le> 52 \<and> is_digit c \<or>
     48 \<le> (of_char a :: nat) \<and> (of_char a :: nat) \<le> 49 \<and> is_digit b \<and> is_digit c"
  unfolding octet_texts is_digit_def digit_val_def by arith

lemma rmatch_octet: "t \<in> set (rmatch octet_rx s) \<longleftrightarrow> (\<exists>w. s = w @ t \<and> octet_text w)"
proof -
  have alt: "t \<in> set (rmatch (RAlt r q) s) \<longleftrightarrow> t \<in> set (rmatch r s) \<or> t \<in> set (rmatch q s)" for r q t and s :: string
    by auto
  have "t \<in> set (rmatch octet_rx s) \<longleftrightarrow>
      (\<exists>a b c. s = [a, b, c] @ t \<and> octet_text [a, b, c]) \<or>
      (\<exists>a b. s = [a, b] @ t \<and> octet_text [a, b]) \<or> (\<exists>a. s = [a] @ t \<and> octet_text [a])"
    unfolding octet_rx_def alt octet_alternatives three_digits octet_texts(1,2) by blast
  then show ?thesis using octet_text_cases by blast
qed

lemma loopback_full:
  "r_full loopback_rx s \<longleftrightarrow>
   (\<exists>a b c. s = ''127.'' @ a @ ''.'' @ b @ ''.'' @ c \<and> octet_text a \<and> octet_text b \<and> octet_text c)"
  unfolding r_full_def loopback_rx_def numeral_3_eq_3 r_times.simps rmatch_RSeq rmatch_octet rmatch_r_string
  by (auto; blast)

section \<open>The life of a registration\<close>

text \<open>
  What the page waits for (\<open>sw_waiting\<close>), what it has done (\<open>sw_done\<close>) and the answers its fetches
  had. The events come in any order; the two watches stay and may fire again.
\<close>

record sw_run =
  sw_waiting :: "sw_effect list"
  sw_done :: "sw_effect list"
  sw_answers :: "(nat \<times> string option) option list"

fun sw_now :: "sw_effect \<Rightarrow> bool" where
  "sw_now UnregisterWorker = True"
| "sw_now ReloadPage = True"
| "sw_now CallOnUpdate = True"
| "sw_now CallOnSuccess = True"
| "sw_now (Log _) = True"
| "sw_now (LogError _) = True"
| "sw_now (SwThrow _) = True"
| "sw_now _ = False"

definition sw_next :: "nat \<Rightarrow> sw_effect list \<Rightarrow> sw_run \<Rightarrow> sw_run" where
  "sw_next i es r = r\<lparr>sw_waiting := remove_nth i (sw_waiting r) @ es\<rparr>"

inductive sw_step :: "sw_page \<Rightarrow> sw_config option \<Rightarrow> sw_run \<Rightarrow> sw_run \<Rightarrow> bool"
  for p :: sw_page and config :: "sw_config option" where
  loaded: "\<lbrakk>i < length (sw_waiting r); sw_waiting r ! i = AddLoadListener\<rbrakk>
    \<Longrightarrow> sw_step p config r (sw_next i (onload p) r)"
| answered: "\<lbrakk>i < length (sw_waiting r); sw_waiting r ! i = RegisterWorker u\<rbrakk>
    \<Longrightarrow> sw_step p config r (sw_next i (registered ok) r)"
| fetched_worker: "\<lbrakk>i < length (sw_waiting r); sw_waiting r ! i = FetchWorker u\<rbrakk>
    \<Longrightarrow> sw_step p config r ((sw_next i (fetched u resp) r)\<lparr>sw_answers := sw_answers r @ [resp]\<rparr>)"
| became_ready: "\<lbrakk>i < length (sw_waiting r); sw_waiting r ! i = WhenReady k\<rbrakk>
    \<Longrightarrow> sw_step p config r (sw_next i (ready k) r)"
| update_found: "\<lbrakk>i < length (sw_waiting r); sw_waiting r ! i = WatchUpdateFound\<rbrakk>
    \<Longrightarrow> sw_step p config r (r\<lparr>sw_waiting := sw_waiting r @ onupdatefound installing\<rparr>)"
| state_changed: "\<lbrakk>i < length (sw_waiting r); sw_waiting r ! i = WatchStateChange\<rbrakk>
    \<Longrightarrow> sw_step p config r (r\<lparr>sw_waiting := sw_waiting r @ onstatechange st controller config\<rparr>)"
| was_unregistered: "\<lbrakk>i < length (sw_waiting r); sw_waiting r ! i = UnregisterThenReload\<rbrakk>
    \<Longrightarrow> sw_step p config r (sw_next i unregistered r)"
| perform_now: "\<lbrakk>i < length (sw_waiting r); sw_waiting r ! i = e; sw_now e\<rbrakk>
    \<Longrightarrow> sw_step p config r ((sw_next i [] r)\<lparr>sw_done := sw_done r @ [e]\<rparr>)"

inductive sw_reach :: "(string \<Rightarrow> string \<Rightarrow> string option) \<Rightarrow> sw_page \<Rightarrow> sw_config option \<Rightarrow> sw_run \<Rightarrow> bool"
  for url_origin p config where
  start: "sw_reach url_origin p config \<lparr>sw_waiting = register url_origin p, sw_done = [], sw_answers = []\<rparr>"
| further: "sw_reach url_origin p config r \<Longrightarrow> sw_step p config r r' \<Longrightarrow> sw_reach url_origin p config r'"

text \<open>The answers that mean that there is no worker at the URL.\<close>

definition sw_missing :: "(nat \<times> string option) option \<Rightarrow> bool" where
  "sw_missing resp =
     (case resp of None \<Rightarrow> False
      | Some (status, contentType) \<Rightarrow>
          status = 404 \<or> (case contentType of Some t \<Rightarrow> \<not> js_includes t ''javascript'' | None \<Rightarrow> False))"

definition sw_production :: "sw_page \<Rightarrow> bool" where
  "sw_production p \<longleftrightarrow> NODE_ENV p = ''production'' \<and> has_serviceWorker p"

fun sw_ok :: "sw_page \<Rightarrow> sw_config option \<Rightarrow> (nat \<times> string option) option list \<Rightarrow> sw_effect \<Rightarrow> bool" where
  "sw_ok p config as (FetchWorker u) \<longleftrightarrow> sw_production p \<and> isLocalhost (loc_hostname p)"
| "sw_ok p config as (WhenReady k) \<longleftrightarrow> sw_production p \<and> isLocalhost (loc_hostname p) \<and>
     (k = ReadyLog \<or> k = ReadyUnregisterReload \<and> list_ex sw_missing as)"
| "sw_ok p config as UnregisterThenReload \<longleftrightarrow> sw_production p \<and> isLocalhost (loc_hostname p) \<and> list_ex sw_missing as"
| "sw_ok p config as ReloadPage \<longleftrightarrow> sw_production p \<and> isLocalhost (loc_hostname p) \<and> list_ex sw_missing as"
| "sw_ok p config as UnregisterWorker \<longleftrightarrow> False"
| "sw_ok p config as CallOnUpdate \<longleftrightarrow> (\<exists>c. config = Some c \<and> has_onUpdate c)"
| "sw_ok p config as CallOnSuccess \<longleftrightarrow> (\<exists>c. config = Some c \<and> has_onSuccess c)"
| "sw_ok p config as (SwThrow _) \<longleftrightarrow> sw_production p"
| "sw_ok p config as (Log _) \<longleftrightarrow> sw_production p"
| "sw_ok p config as _ \<longleftrightarrow> sw_production p"

definition sw_inv :: "sw_page \<Rightarrow> sw_config option \<Rightarrow> sw_run \<Rightarrow> bool" where
  "sw_inv p config r \<longleftrightarrow>
     list_all (sw_ok p config (sw_answers r)) (sw_waiting r) \<and> list_all (sw_ok p config (sw_answers r)) (sw_done r)"

lemma sw_ok_more: "sw_ok p config as e \<Longrightarrow> sw_ok p config (as @ bs) e"
  by (cases "(p, config, as, e)" rule: sw_ok.cases) auto

text \<open>What each callback asks for is allowed where the callback is.\<close>

lemma sw_follow_ok:
  "list_all (sw_ok p config []) (register url_origin p)"
  "sw_ok p config as AddLoadListener \<Longrightarrow> list_all (sw_ok p config as) (onload p)"
  "sw_ok p config as (RegisterWorker u) \<Longrightarrow> list_all (sw_ok p config as) (registered ok)"
  "sw_ok p config as (FetchWorker u) \<Longrightarrow> list_all (sw_ok p config (as @ [resp])) (fetched u resp)"
  "sw_ok p config as (WhenReady k) \<Longrightarrow> list_all (sw_ok p config as) (ready k)"
  "sw_ok p config as WatchUpdateFound \<Longrightarrow> list_all (sw_ok p config as) (onupdatefound b)"
  "sw_ok p config as WatchStateChange \<Longrightarrow> list_all (sw_ok p config as) (onstatechange st ctl config)"
  "sw_ok p config as UnregisterThenReload \<Longrightarrow> list_all (sw_ok p config as) unregistered"
  by (auto simp: register_def onload_def checkValidServiceWorker_def registerValidSW_def registered_def fetched_def
      onupdatefound_def onstatechange_def unregistered_def sw_production_def sw_missing_def Let_def split: option.splits)

lemma sw_step_inv: "sw_step p config r r' \<Longrightarrow> sw_inv p config r \<Longrightarrow> sw_inv p config r'"
proof (induction rule: sw_step.induct)
  case (fetched_worker i r u resp)
  then have "sw_ok p config (sw_answers r) (FetchWorker u)" by (auto simp: sw_inv_def list_all_length)
  from sw_follow_ok(4) [OF this] fetched_worker show ?case
    using set_remove_nth [of i "sw_waiting r"] by (auto simp: sw_inv_def sw_next_def list_all_iff sw_ok_more)
next
  case (perform_now i r e)
  then have "sw_ok p config (sw_answers r) e" by (auto simp: sw_inv_def list_all_length)
  with perform_now show ?case by (simp add: sw_inv_def sw_next_def list_all_remove_nth)
qed (auto simp: sw_inv_def sw_next_def list_all_remove_nth dest!: list_all_nth intro: sw_follow_ok)

lemma sw_reach_inv: "sw_reach url_origin p config r \<Longrightarrow> sw_inv p config r"
proof (induction rule: sw_reach.induct)
  case start
  then show ?case by (simp add: sw_inv_def sw_follow_ok(1))
qed (rule sw_step_inv)

section \<open>Properties\<close>

text \<open>
  \<open>isLocalhost\<close> accepts \<open>localhost\<close>, \<open>[::1]\<close> and exactly the addresses \<open>127.a.b.c\<close> whose last
  three parts have one to three digits and a value of at most 255.
\<close>

lemma localhost_names:
  "isLocalhost h \<longleftrightarrow> h = ''localhost'' \<or> h = ''[::1]'' \<or>
     (\<exists>a b c. h = ''127.'' @ a @ ''.'' @ b @ ''.'' @ c \<and> octet_text a \<and> octet_text b \<and> octet_text c)"
  by (simp add: isLocalhost_def loopback_full)

text \<open>
  C33. In every run of a registration, whatever the order of the browser's events, the page is reloaded
  only in a production build on a local host and after a fetch has shown that there is no worker; the
  worker is never unregistered on any other path, and the callbacks of the configuration are only
  called where they are given.
\<close>

theorem reload_only_if_missing:
  assumes "sw_reach url_origin p config r"
  shows "(ReloadPage \<in> set (sw_done r) \<longrightarrow>
      sw_production p \<and> isLocalhost (loc_hostname p) \<and> list_ex sw_missing (sw_answers r)) \<and>
    UnregisterWorker \<notin> set (sw_done r) \<and>
    (CallOnUpdate \<in> set (sw_done r) \<longrightarrow> (\<exists>c. config = Some c \<and> has_onUpdate c)) \<and>
    (CallOnSuccess \<in> set (sw_done r) \<longrightarrow> (\<exists>c. config = Some c \<and> has_onSuccess c))"
  using sw_reach_inv [OF assms] by (auto simp: sw_inv_def list_all_iff)

definition sample_page :: sw_page where
  "sample_page = \<lparr>NODE_ENV = ''production'', PUBLIC_URL = '''', has_serviceWorker = True, loc_hostname = ''localhost'',
     loc_href = ''http://localhost:5380/'', loc_origin = ''http://localhost:5380''\<rparr>"

lemma sample_reload:
  "sw_reach (\<lambda>_ _. Some ''http://localhost:5380'') sample_page None
     \<lparr>sw_waiting = [WhenReady ReadyLog], sw_done = [ReloadPage], sw_answers = [Some (404, None)]\<rparr>"
proof -
  let ?R = "sw_reach (\<lambda>_ _. Some ''http://localhost:5380'') sample_page None"
  have "?R \<lparr>sw_waiting = [AddLoadListener], sw_done = [], sw_answers = []\<rparr>"
    using sw_reach.start [of "\<lambda>_ _. Some ''http://localhost:5380''" sample_page None]
    by (simp add: register_def sample_page_def)
  from sw_reach.further [OF this sw_step.loaded [of 0]]
  have "?R \<lparr>sw_waiting = [FetchWorker ''/service-worker.js'', WhenReady ReadyLog], sw_done = [], sw_answers = []\<rparr>"
    by (simp add: sw_next_def remove_nth_def onload_def checkValidServiceWorker_def isLocalhost_def sample_page_def)
  from sw_reach.further [OF this sw_step.fetched_worker [of 0 _ "''/service-worker.js''" _ _ "Some (404, None)"]]
  have "?R \<lparr>sw_waiting = [WhenReady ReadyLog, WhenReady ReadyUnregisterReload], sw_done = [], sw_answers = [Some (404, None)]\<rparr>"
    by (simp add: sw_next_def remove_nth_def fetched_def)
  from sw_reach.further [OF this sw_step.became_ready [of 1 _ ReadyUnregisterReload]]
  have "?R \<lparr>sw_waiting = [WhenReady ReadyLog, UnregisterThenReload], sw_done = [], sw_answers = [Some (404, None)]\<rparr>"
    by (simp add: sw_next_def remove_nth_def)
  from sw_reach.further [OF this sw_step.was_unregistered [of 1]]
  have "?R \<lparr>sw_waiting = [WhenReady ReadyLog, ReloadPage], sw_done = [], sw_answers = [Some (404, None)]\<rparr>"
    by (simp add: sw_next_def remove_nth_def unregistered_def)
  from sw_reach.further [OF this sw_step.perform_now [of 1 _ ReloadPage]]
  show ?thesis by (simp add: sw_next_def remove_nth_def)
qed

theorem reload_only_if_missing_witness:
  "ReloadPage \<in> set [ReloadPage] \<and> sw_production sample_page \<and> isLocalhost (loc_hostname sample_page)"
  using reload_only_if_missing [OF sample_reload] by simp

end
