(* ===== verification/Quiet.thy ===== *)
theory Quiet
  imports World
begin

text \<open>
  Without the user the page comes to rest: every outcome starts less than it cost, so that after a bounded
  number of steps of the network no request is under way.
\<close>

section \<open>What is still to come\<close>

text \<open>
  The cost of a continuation is more than the cost of the requests it can start. The loads of the table and
  of the picker start nothing; the deletion of a row reloads the table; a saved record reloads both; the
  first answer mounts both; a switch of the environment may mount the picker, and reloads the table; a
  created or deleted environment is followed by a switch.
\<close>

fun cb_cost :: "callback \<Rightarrow> nat" where
  "cb_cost (CbPicker _ EnvListed) = 1"
| "cb_cost (CbTable TableLoaded) = 1"
| "cb_cost (CbTable RowUpdated) = 1"
| "cb_cost (CbTable (RowDeleted _)) = 3"
| "cb_cost (CbForm _) = 5"
| "cb_cost CbActive = 5"
| "cb_cost (CbActivate _) = 7"
| "cb_cost (CbEnvForm _) = 9"
| "cb_cost (CbPicker _ EnvDeleted) = 9"

fun flight_cost :: "flight \<Rightarrow> nat" where
  "flight_cost (Sent a cb) = Suc (cb_cost cb)"
| "flight_cost (Answered cb r) = cb_cost cb"

definition world_cost :: "'m world \<Rightarrow> nat" where
  "world_cost w = sum_list (map flight_cost (w_flight w))"

fun effect_cost :: "callback effect \<Rightarrow> nat" where
  "effect_cost (Ajax a cb) = Suc (cb_cost cb)"
| "effect_cost _ = 0"

definition eff_cost :: "callback effect list \<Rightarrow> nat" where
  "eff_cost es = sum_list (map effect_cost es)"

lemma cb_cost_le: "cb_cost cb \<le> 9"
  by (cases cb rule: cb_cost.cases) simp_all

lemma cb_cost_pos: "0 < cb_cost cb"
  by (cases cb rule: cb_cost.cases) simp_all

lemma world_cost_le: "world_cost w \<le> 10 * length (w_flight w)"
proof -
  have "flight_cost x \<le> 10" for x using cb_cost_le by (cases x) (auto intro: order_trans [OF cb_cost_le])
  then have "sum_list (map flight_cost xs) \<le> 10 * length xs" for xs
    by (induction xs) (auto intro: add_mono)
  then show ?thesis by (simp add: world_cost_def)
qed

lemma eff_cost_simps [simp]:
  "eff_cost [] = 0" "eff_cost (es @ fs) = eff_cost es + eff_cost fs"
  "eff_cost (Ajax a cb # es) = Suc (cb_cost cb) + eff_cost es" "eff_cost (Notify n # es) = eff_cost es"
  "eff_cost (Throw x # es) = eff_cost es" "eff_cost (notice ti m ty # es) = eff_cost es"
  by (simp_all add: eff_cost_def notice_def)

lemma reload_costs [simp]:
  "eff_cost (wrap_table (reloadTable env)) = 2" "eff_cost (wrap_picker i EnvPicker_reload) = 2"
  by (simp_all add: wrap_table_def reloadTable_def wrap_picker_def EnvPicker_reload_def)

lemma table_reload_cost: "eff_cost (table_reload h) \<le> 2"
  by (simp add: table_reload_def)

lemma picker_reload_cost: "eff_cost (picker_reload h) \<le> 2"
  by (simp add: picker_reload_def split: option.split)

lemma onUpdate_cost: "eff_cost (snd (onUpdate h)) \<le> 4"
  using table_reload_cost [of h] picker_reload_cost [of h] by (auto simp: onUpdate_def Let_def)

lemma did_mount_cost: "eff_cost (snd (did_mount old h)) \<le> 4"
  by (simp add: did_mount_def EnvPicker_componentDidMount_def RecordTable_componentDidMount_def split: option.split)

lemma setState_cost: "eff_cost (snd (setState f h)) \<le> 4"
  using did_mount_cost by (simp add: setState_def rerender_def split: sum.split)

lemma run_notice [simp]: "run w (notice ti m ty # es) h = (fst (run w es h), notice ti m ty # snd (run w es h))"
  by (simp add: notice_def case_prod_unfold Let_def)

section \<open>Each outcome starts less than it cost\<close>

lemma active_cost: "eff_cost (snd (Home_componentDidMount_settled r h)) \<le> 4"
  using setState_cost by (simp add: Home_componentDidMount_settled_def split: ajax_result.split sum.split)

lemma onChangeEnv_settled_cost: "eff_cost (snd (onChangeEnv_settled env r h)) \<le> 6"
proof -
  let ?f = "\<lambda>h. h\<lparr>home_env := env, createEnv := False\<rparr>"
  show ?thesis
    using setState_cost [of ?f h] table_reload_cost [of "fst (setState ?f h)"]
    by (simp add: onChangeEnv_settled_def case_prod_unfold Let_def)
qed

lemma onChangeEnv_cost [simp]:
  "eff_cost (snd (onChangeEnv env h)) = 8" "list_ex is_throw (snd (onChangeEnv env h)) = False"
  by (simp_all add: onChangeEnv_def is_throw_def)

lemma created_cost: "eff_cost (snd (run CbEnvForm (createEnvironment_settled name r) h)) \<le> 8"
  by (simp add: createEnvironment_settled_def home_prop_def onCreate_def case_prod_unfold)

lemma deleted_cost: "eff_cost (snd (run (CbPicker i) (deleteEnv_settled r) h)) \<le> 8"
  by (simp add: deleteEnv_settled_def home_prop_def onDelete_def case_prod_unfold)

lemma saved_cost: "eff_cost (snd (run CbForm (handleSubmit_settled r) h)) \<le> 4"
  using onUpdate_cost [of h]
  by (simp add: handleSubmit_settled_def home_prop_def case_prod_unfold Let_def split: ajax_result.split sum.split)

lemma updated_cost: "eff_cost (snd (run CbTable (updateRecord_settled r) h)) = 0"
  by (simp add: updateRecord_settled_def split: ajax_result.split)

lemma row_deleted_cost: "eff_cost (snd (run CbTable (deleteRecord_settled env a r t) h)) < 3"
  by (simp add: deleteRecord_settled_def reloadTable_def split: ajax_result.split)

lemma mounted_cost:
  assumes "home_table (f h) \<noteq> None" and "home_picker (f h) \<noteq> None \<or> createEnv (f h)"
  shows "eff_cost (snd (setState f h)) = 0"
proof (cases "isLoading (f h)")
  case True
  then show ?thesis by (simp add: setState_def rerender_def did_mount_def reconcile_def split: sum.split)
next
  case False
  then show ?thesis
    using assms by (auto simp: setState_def rerender_def did_mount_def reconcile_def Let_def split: sum.split option.split)
qed

lemma settle_cost:
  assumes h: "home_inv h" and f: "flight_ok h cb"
  shows "eff_cost (snd (settle cb r h)) < cb_cost cb"
proof (cases cb)
  case CbActive
  then show ?thesis using active_cost [of r h] by (simp add: settle_def)
next
  case (CbActivate env)
  then show ?thesis using onChangeEnv_settled_cost [of env r h] by (simp add: settle_def)
next
  case (CbEnvForm c)
  then show ?thesis using created_cost [of _ r h] by (cases c) (simp add: settle_def less_Suc_eq_le numeral_eq_Suc)
next
  case (CbPicker i c)
  have "home_table h \<noteq> None" using h f CbPicker loaded_table by (auto simp: flight_ok_def)
  then show ?thesis
    using CbPicker deleted_cost [of i r h] by (cases c) (simp_all add: settle_def mounted_cost split: option.split)
next
  case (CbForm c)
  then show ?thesis using saved_cost [of r h] by (cases c) (simp add: settle_def)
next
  case (CbTable c)
  then have "home_picker h \<noteq> None \<or> createEnv h"
    using h f by (auto simp: flight_ok_def home_inv_def layout_def)
  then show ?thesis
    using CbTable
    by (cases c) (simp_all add: settle_def mounted_cost updated_cost row_deleted_cost split: option.split)
qed

section \<open>Each step of the network\<close>

lemma emit_cost: "world_cost (emit res w) = world_cost w + eff_cost (snd res)"
proof -
  have "sum_list (map flight_cost (concat (map (\<lambda>e. case e of Ajax a cb \<Rightarrow> [Sent a cb] | _ \<Rightarrow> []) es))) = eff_cost es"
    for es
    by (induction es) (auto simp: eff_cost_def split: effect.split)
  then show ?thesis by (simp add: world_cost_def emit_def emit_fields)
qed

lemma sum_list_split: "i < length xs \<Longrightarrow> sum_list xs = sum_list (take i xs) + xs ! i + sum_list (drop (Suc i) xs)"
  for xs :: "nat list"
  by (metis add.assoc append_take_drop_id Cons_nth_drop_Suc sum_list.Cons sum_list.append)

lemma sum_list_put: "i < length xs \<Longrightarrow> sum_list (xs[i := y]) + xs ! i = sum_list xs + y" for y :: nat
  using sum_list_split [of i xs] by (simp add: upd_conv_take_nth_drop)

lemma net_step_cost:
  assumes w: "world_inv w" and "net_step jq re jt w w'"
  shows "world_cost w' < world_cost w"
  using assms(2)
proof cases
  case (serve i a cb r s')
  then show ?thesis
    using sum_list_put [of i "map flight_cost (w_flight w)" "cb_cost cb"] by (simp add: world_cost_def map_update)
next
  case (lost i a cb)
  then show ?thesis
    using sum_list_put [of i "map flight_cost (w_flight w)" "cb_cost cb"] by (simp add: world_cost_def map_update)
next
  case (unanswered i a cb r s')
  then show ?thesis
    using sum_list_put [of i "map flight_cost (w_flight w)" "cb_cost cb"] by (simp add: world_cost_def map_update)
next
  case (deliver i cb r)
  have "flight_inv (w_home w) (Answered cb r)" using w deliver by (auto simp: world_inv_def list_all_length)
  then have "eff_cost (snd (settle cb r (w_home w))) < cb_cost cb"
    using w by (intro settle_cost) (simp_all add: world_inv_def flight_inv_def)
  moreover have "world_cost w' = world_cost (w\<lparr>w_flight := remove_nth i (w_flight w)\<rparr>) + eff_cost (snd (settle cb r (w_home w)))"
    unfolding deliver(1) by (rule emit_cost)
  ultimately show ?thesis
    using sum_list_split [of i "map flight_cost (w_flight w)"] deliver(2,3)
    by (simp add: world_cost_def remove_nth_def take_map drop_map)
qed

lemma net_steps_cost:
  assumes jq: "jq_contract jq"
  shows "(net_step jq re jt ^^ n) w w' \<Longrightarrow> world_inv w \<Longrightarrow> world_inv w' \<and> n + world_cost w' \<le> world_cost w"
proof (induction n arbitrary: w')
  case (Suc n)
  then obtain v where v: "(net_step jq re jt ^^ n) w v" "net_step jq re jt v w'" by auto
  with Suc have "world_inv v" "n + world_cost v \<le> world_cost w" by auto
  with net_step_inv [OF jq _ v(2)] net_step_cost [OF _ v(2)] show ?case by force
qed simp

lemma net_progress: "w_flight w \<noteq> [] \<Longrightarrow> \<exists>w'. net_step jq re jt w w'"
proof -
  assume ne: "w_flight w \<noteq> []"
  then have "0 < length (w_flight w)" by simp
  then show ?thesis
    by (cases "w_flight w ! 0") (blast intro: net_step.lost net_step.deliver)+
qed

lemma comes_to_rest:
  assumes jq: "jq_contract jq" and "world_inv w"
  shows "\<exists>w'. (net_step jq re jt)\<^sup>*\<^sup>* w w' \<and> w_flight w' = []"
  using assms(2)
proof (induction "world_cost w" arbitrary: w rule: less_induct)
  case less
  show ?case
  proof (cases "w_flight w = []")
    case False
    then obtain v where v: "net_step jq re jt w v" using net_progress by blast
    with less net_step_cost net_step_inv [OF jq] obtain w' where "(net_step jq re jt)\<^sup>*\<^sup>* v w'" "w_flight w' = []"
      by blast
    with v show ?thesis by (blast intro: converse_rtranclp_into_rtranclp)
  qed blast
qed

end
