(* ===== verification/Spec2Isabelle.thy ===== *)
theory Spec2Isabelle
  imports MainProc Routes DocsReady ServiceWorker Quiet
begin

text \<open>
  DNS Proxy Server: a DNS server that answers from its own records, from Docker containers and from
  remote servers, and a web console on which the records are edited. This library models the console
  (JavaScript), the REST server it talks to, the handling of Docker's containers, the resolution of
  questions and the life of the process (Go), and the scripts of the documentation (JavaScript), and proves
  what the parts do alone and together.

  \<^bold>\<open>Parts and theories.\<close>

  \<^item> \<open>Prelude\<close>: results of fallible code, splitting and joining of strings, decimal notation, search in
    lists, and the locale \<open>dotted_quad\<close>, the contract of an address notation. \<open>IpUtils\<close>: Go's number
    parsing and \<open>utils/iputils/iputils.go\<close>.
  \<^item> \<open>Cache\<close>: \<open>cache/\<close>, the LRU cache with eviction (locale \<open>cache_contract\<close>), the timed cache on top of it
    and the registry through which all caches are emptied.
  \<^item> \<open>LocalVo\<close>: \<open>events/local/localvo/\<close>, the configuration with its environments and records, and every
    operation on it; the locale \<open>record_store\<close> is the contract of the records seen by name.
    \<open>Storage\<close>: the two file formats (locale \<open>conf_format\<close>) and \<open>events/local/local.go\<close>: loading,
    saving, ids for records without one, and the operations the controllers call. The state is the record
    \<open>server\<close>: the file, whether it can be written, the caches, and the clock.
  \<^item> \<open>Api\<close>, \<open>ApiSafe\<close>: \<open>controller/v1/hostname.go\<close>, \<open>env.go\<close> and \<open>vo/\<close>: JSON decoding as \<open>encoding/json\<close> does
    it, every handler, routing; \<open>served s c\<close> is the invariant of the server, and no handler panics under it.
    \<open>Routes\<close>: \<open>index.go\<close>, \<open>cache.go\<close>, \<open>network.go\<close> and \<open>statics.go\<close>, and the dispatch over all routes.
  \<^item> \<open>JsBase\<close>: the JavaScript values, numbers, \<open>parseInt\<close>, strings and regular expressions the console uses.
    \<open>Web\<close>: element trees, events, effects, and the way of a request from \<open>$.ajax\<close> to the server.
    \<open>EnvUi\<close>, \<open>RecordForm\<close>, \<open>RecordTable\<close>, \<open>Home\<close>: the components under \<open>app/src/components\<close>, one
    function per method and per continuation of a request.
  \<^item> \<open>Console\<close>, \<open>HomeInv\<close>, \<open>World\<close>, \<open>Quiet\<close>: the page and the server together; \<open>World.step\<close> interleaves the events of
    the user, the work of the server, lost connections and the delivery of answers in any order, and
    \<open>world_inv\<close> is its invariant; \<open>Quiet\<close> measures what is still to come. \<open>Flows\<close>: what one user action does to the stored configuration.
  \<^item> \<open>ServiceWorker\<close>: \<open>app/src/serviceWorker.js\<close>, with the life of a registration as a step relation.
  \<^item> \<open>ResolvConf\<close>: \<open>resolvconf/\<close>, the rewriting of \<open>/etc/resolv.conf\<close>. \<open>Conf\<close>: \<open>conf/conf.go\<close>, the settings.
    \<open>Solver\<close>: \<open>proxy/\<close> and \<open>handleQuestion\<close> of \<open>dns.go\<close>; the locale \<open>solver_contract\<close> is the interface
    \<open>DnsSolver\<close> as its callers rely on it. \<open>Resolution\<close>: what a DNS client gets.
  \<^item> \<open>DockerNetwork\<close>: \<open>docker/dockernetwork/dockernetwork.go\<close>, the networks of the containers and the choice of an
    address. \<open>DockerEvents\<close>: \<open>events/docker/docker.go\<close>, the names a container declares, the loop over the running
    containers and over the stream of events. The state is the record \<open>dock\<close>: the daemon, which is an arbitrary type,
    the client and the DNS server's state, whose cache of names the solver for containers reads. \<open>ResolvConf\<close> and
    \<open>Solver\<close> take Docker's answers as a \<open>docker_view\<close>; \<open>DockerNetwork.seen_addresses\<close> shows that this is what the calls give.
  \<^item> \<open>Service\<close>: \<open>service/\<close>, \<open>utils/exec.go\<close>, the paths of \<open>utils/utils.go\<close> and the locking of \<open>resolv.conf\<close>, over the
    operating system \<open>os_api\<close>. \<open>MainProc\<close>: \<open>main\<close> and \<open>serve\<close> of \<open>dns.go\<close> and \<open>utils/exitcodes\<close>: what precedes the
    servers, and the goroutines with the end of the process as the step relation \<open>proc_step\<close>.
  \<^item> \<open>AutoComplete\<close>, \<open>DocsSearch\<close>: \<open>auto-complete.js\<close> and \<open>search.js\<close> of the documentation's theme, the search box with
    its handlers and timeouts as a step relation (\<open>ac_step\<close>, invariant \<open>ac_inv\<close>), and the search over the index of
    pages. \<open>Highlight\<close>: marking of the search text in the tree of the page, and the search input (\<open>learn.js\<close>).
    \<open>Sticky\<close>: \<open>jquery.sticky.js\<close>, the bar that stays on the screen. \<open>DocsPage\<close>: the rest of \<open>learn.js\<close> and
    \<open>hugo-learn.js\<close>: debouncing, panes, visited pages, anchors, copy buttons, images. \<open>DocsReady\<close>: the listeners of the
    search box, the calls of the sticky plugin by name, and what happens when a page is ready and when it has loaded.
  \<^item> \<open>Demo\<close>: a concrete server and page for the witnesses.

  \<^bold>\<open>How code is modelled.\<close> A Go function with effects is a function of type \<open>('m, 'a) go\<close>: it maps the
  server's state to a panic (\<open>Inl\<close>) or to a value and the new state; a Go error is a value. A component of
  the page is a record; a method returns the new record and its effects in order (requests, notifications,
  calls of properties, exceptions). The rows of the table live in a heap, because the handlers mutate the
  row objects in place. Integers keep their width where it matters: bytes are \<open>8 word\<close>, times to live of
  DNS answers \<open>32 word\<close>, Go's \<open>int\<close> is an \<open>int\<close> with the range test written out, JavaScript's numbers are
  integers rounded to 53 bits, or \<open>NaN\<close>. No definition has a fuel or a bound: every recursion is shown to end.

  \<^bold>\<open>Parameters.\<close> jQuery is \<open>jq\<close> with its documented behaviour in \<open>jq_contract\<close>; \<open>re\<close> is Go's regular
  expression matching, used by the search; \<open>jt\<close> is the text of a JSON error; \<open>outside\<close> holds environment
  variables, flags, interface addresses, the gateway that Docker reports and the answers of remote DNS servers;
  the URL constructor is an argument of \<open>register\<close>. The Docker daemon is the record \<open>docker_api\<close> of the calls the
  client makes, with \<open>docker_contract\<close>: an inspection shows the container or fails, names are not empty, and the networks of a container
  can be looked up. The operating system is the record \<open>os_api\<close> of running a program and writing a file, \<open>files\<close> is
  Go's file server. In the documentation, lunr's index, \<open>String.match\<close>, jQuery's selector engine and what the browser
  measures are arguments. \<open>Web.jq_std\<close>, theory \<open>Demo\<close>, \<open>DockerNetwork.demo_api\<close> and the samples of each theory show that the hypotheses
  can hold.

  \<^bold>\<open>What is shown.\<close>

  \<^item> The console: safety under every interleaving (C1, C7, C8), the page that never starts (C19), rest (C29), the
    effect of each user action on the stored configuration (C3 to C6, C9, C10) up to the answer of the DNS
    server (C39), agreement of page and server on addresses (C34), bounds of their numbers (C36).
  \<^item> The server: its invariant under every route (C2), round trips of records and files (C25, C35, C37), resolution order (C40), the
    countdown of cached answers (C20). The process: \<open>resolv.conf\<close> is given back whatever happened before (C38), unless a
    panic ends the process (C23).
  \<^item> Docker: a container that starts is answered for, one that stops is forgotten (C12, C16), the choice of the
    address equals its specification (C26).
  \<^item> The service worker (C33). The documentation: the search box (C22, C28, C30, C31), the marks (C18, C21), the sticky
    bar (C32), debouncing (C24).
  \<^item> Where the code does not do what it means to: C11, C13, C14, C15, C16, C17, C23, C27, C31, C37.

  \<^bold>\<open>Not modelled.\<close> Sockets (a server listens or fails, questions and requests arrive), logging, the parsing of the
  command line, locks and goroutines within the server (requests and events are served one after another), the file
  server, and the minified browser libraries. Of the documentation's scripts: the wrappers of modules, the styles of
  menu entries during a search, the replacement of diagrams, and plugins that are only called.
\<close>

section \<open>The console as a whole\<close>

text \<open>
  C1. In every state the console can reach from a server that serves a configuration, whatever the
  user does on the rendered page and in whatever order requests are served, lost and answered, the
  page is mounted and renders, and the only exceptions that have reached the browser are the
  reload of an environment picker that is not there and the parsing of an empty error text.
\<close>

theorem console_safe:
  assumes "reachable jq re jt s w" and "jq_contract jq" and "served s c"
  shows "home_mounted (w_home w) \<and> (\<exists>ts. Home_render (w_home w) = Inr ts) \<and>
    set (w_errors w) \<subseteq> {TypeError ''reload'', SyntaxError}"
proof -
  have "world_inv w" using assms by (rule reachable_inv)
  then have "children_ok (w_home w)" "list_all benign (w_errors w)"
    by (simp_all add: world_inv_def home_inv_def)
  then show ?thesis
    using Home_render_ok by (fastforce simp: children_ok_def benign_def list_all_iff)
qed

theorem console_safe_witness:
  "\<exists>w. reachable jq_std demo_re demo_jt demo_server w \<and> home_env (w_home w) = JSStr '''' \<and>
    \<not> isLoading (w_home w) \<and> (\<exists>ts. Home_render (w_home w) = Inr ts)"
proof -
  obtain w where w: "reachable jq_std demo_re demo_jt demo_server w" "w_home w = demo_home"
    using demo_reachable by blast
  from console_safe [OF w(1) jq_std_contract demo_served] w show ?thesis
    by (intro exI [of _ w]) (simp add: demo_home_def)
qed

text \<open>
  C2. From a state that serves a configuration no request makes a handler of the web server panic, whatever its
  method, path, query and body are and whatever Docker answers: every request is answered, and the state
  after it again serves a configuration, with distinct environment names, well-formed addresses and an id for
  every record. Only the route that disconnects the containers of a network needs a client of Docker.
\<close>

theorem server_survives:
  assumes "served (dw_server (dk_world st)) c" and "dk_cli st \<or> rq_path r \<noteq> ''/network/disconnect-containers/''"
  shows "\<exists>res st' c'. route re jt api files r st = Inr (res, st') \<and> served (dw_server (dk_world st')) c' \<and>
    distinct (env_names c')"
  using route_stays [OF assms, of re jt api files] by (auto simp: web_stays_def served_def conf_wf_def)

theorem server_survives_witness:
  "\<exists>res st' c'. route demo_re demo_jt demo_api (\<lambda>r. not_found)
      \<lparr>rq_method = DELETE, rq_path = ''/env/'', rq_query = [], rq_body = Some (JObj [(''name'', JStr '''')])\<rparr>
      (demo_dock dns_demo) = Inr (res, st') \<and> served (dw_server (dk_world st')) c' \<and> distinct (env_names c')"
  by (rule server_survives [OF demo_dock_ok(2)]) (simp add: demo_dock_def)

text \<open>
  C3. Typing a name, an address and a TTL into a form of type \<open>A\<close> and submitting it stores exactly
  that record: the request succeeds, the record is appended to its environment with the clock as
  its id, no other environment changes, and every cache is emptied.
\<close>

theorem create_record:
  assumes "jq_contract jq" and "served s c" and "form_inv f" and "showIp f"
    and "js_get (fm_form f) ''target'' = JSStr t" and "records c e = Some rs"
    and "n \<notin> set (hostname_names rs)" and "quad ns" and "k \<le> 2 ^ 53"
    and "f' = form_handleNumberChange \<lparr>ev_name = ''ttl'', ev_value = show_nat k\<rparr>
      (form_handleIp \<lparr>ev_name = ''ip'', ev_value = dotted ns\<rparr>
      (form_handleChange \<lparr>ev_name = ''hostname'', ev_value = n\<rparr> f))"
    and "handleSubmit (JSStr e) f' = [Ajax req cb]"
  shows "\<exists>s' c'. perform jq re jt req s = Inr (AjaxDone (JSStr ''''), s') \<and> served s' c' \<and>
    store_empty (srv_store s') \<and>
    records c' = (records c)(e \<mapsto> rs @ [\<lparr>hId = srv_clock s (srv_ticks s), hHostname = n, hIp = dotted ns,
      hTarget = t, hTtl = int k, hType = ''A''\<rparr>])"
proof -
  have "form_inv f'"
    unfolding assms(10) using assms(3) by (intro form_typed_inv)
  moreover have "js_get (fm_form f') ''hostname'' = JSStr n" "js_get (fm_form f') ''ip'' = JSArr (num_ip ns)"
    "js_get (fm_form f') ''target'' = JSStr t" "js_get (fm_form f') ''type'' = JSStr ''A''"
    "js_get (fm_form f') ''ttl'' = JSNum (JInt (int k))"
    using assms(3-5,8,9)
    by (simp_all add: assms(10) form_handleNumberChange_def form_handleIp_def form_handleChange_def form_inv_def
        parse_ip_text_dotted js_parseInt_show_nat js_num_exact)
  moreover have "in_int64 (int k)"
    using assms(9) by (simp add: in_int64_def int64_min_def int64_max_def)
  moreover have "req = ajax_json POST ''/hostname/'' (form_body (JSStr e) f')"
    using assms(11) by (simp add: handleSubmit_def)
  ultimately show ?thesis
    using submit_record [of jq s c f' n ns t "''A''" "int k" e rs re jt] assms(1,2,6-8)
    by (auto simp: form_record_def stamp_id_def)
qed

theorem create_record_witness:
  "\<exists>req cb s' c'. handleSubmit (JSStr '''') (form_handleNumberChange \<lparr>ev_name = ''ttl'', ev_value = show_nat 30\<rparr>
      (form_handleIp \<lparr>ev_name = ''ip'', ev_value = dotted [10, 0, 0, 7]\<rparr>
      (form_handleChange \<lparr>ev_name = ''hostname'', ev_value = ''new.com''\<rparr>
        (RecordForm_componentDidMount RecordForm_new)))) = [Ajax req cb] \<and>
    perform jq_std demo_re demo_jt req demo_server = Inr (AjaxDone (JSStr ''''), s') \<and> served s' c' \<and>
    records c' '''' = Some (demo_hosts @ [\<lparr>hId = 1000, hHostname = ''new.com'', hIp = dotted [10, 0, 0, 7],
      hTarget = ''acme.com'', hTtl = 30, hType = ''A''\<rparr>])"
proof -
  let ?f = "RecordForm_componentDidMount RecordForm_new"
  let ?f' = "form_handleNumberChange \<lparr>ev_name = ''ttl'', ev_value = show_nat 30\<rparr>
      (form_handleIp \<lparr>ev_name = ''ip'', ev_value = dotted [10, 0, 0, 7]\<rparr>
      (form_handleChange \<lparr>ev_name = ''hostname'', ev_value = ''new.com''\<rparr> ?f))"
  have 1: "showIp ?f" "js_get (fm_form ?f) ''target'' = JSStr ''acme.com''"
    by (simp_all add: RecordForm_componentDidMount_def processValueLabel_def RecordForm_new_def js_get_def)
  have 2: "''new.com'' \<notin> set (hostname_names demo_hosts)" by (simp add: demo_hosts_def hostname_names_def)
  have 3: "quad [10, 0, 0, 7]" "(30 :: nat) \<le> 2 ^ 53" by (simp_all add: quad_def)
  have 4: "handleSubmit (JSStr '''') ?f' = [Ajax (ajax_json POST ''/hostname/'' (form_body (JSStr '''') ?f')) RecordSaved]"
    by (simp add: handleSubmit_def)
  from create_record [OF jq_std_contract demo_served RecordForm_new_inv 1 demo_records(1) 2 3 refl 4, of demo_re demo_jt]
  obtain s' c' where "perform jq_std demo_re demo_jt (ajax_json POST ''/hostname/'' (form_body (JSStr '''') ?f')) demo_server
      = Inr (AjaxDone (JSStr ''''), s')" "served s' c'"
    "records c' = (records demo_conf)('''' \<mapsto> demo_hosts @ [\<lparr>hId = srv_clock demo_server (srv_ticks demo_server),
      hHostname = ''new.com'', hIp = dotted [10, 0, 0, 7], hTarget = ''acme.com'', hTtl = int 30, hType = ''A''\<rparr>])"
    by blast
  with 4 show ?thesis
    by (intro exI [of _ "ajax_json POST ''/hostname/'' (form_body (JSStr '''') ?f')"] exI [of _ RecordSaved] exI [of _ s']
        exI [of _ c']) (simp add: demo_server_def)
qed

text \<open>
  C4. Reloading the table shows what the server stores: after the answer has been delivered, the
  table lists the records of the environment in their order, and the address printed for a record is
  the stored text. The server's state does not change.
\<close>

theorem table_shows_records:
  assumes "jq_contract jq" and "served s c" and "find_all re" and "url_safe e" and "records c e = Some rs"
    and "reloadTable (JSStr e) = [Ajax req cb]"
  shows "\<exists>r. perform jq re jt req s = Inr (r, s) \<and> shown_rows (reloadTable_settled r t) = map (row_of e) rs \<and>
    list_all (\<lambda>h. formatIp (js_get (row_of e h) ''ip'') = Inr (hIp h)) rs"
proof -
  let ?r = "AjaxDone (JSArr (map (JSObj \<circ> row_of e) rs))"
  have "shown_rows (reloadTable_settled ?r t) = map (row_of e) rs"
    using shown_rows_table_of [of "map (row_of e) rs" t] by (simp add: reloadTable_settled_def)
  moreover have "list_all (\<lambda>h. formatIp (js_get (row_of e h) ''ip'') = Inr (hIp h)) rs"
    using served_records [OF assms(2,5)] row_of_ip by (auto simp: list_all_iff host_served_def)
  ultimately show ?thesis using load_table [OF assms] by blast
qed

theorem table_shows_records_witness:
  "\<exists>req cb r. reloadTable (JSStr '''') = [Ajax req cb] \<and> perform jq_std demo_re demo_jt req demo_server = Inr (r, demo_server) \<and>
    shown_rows (reloadTable_settled r RecordTable_new) = map (row_of '''') demo_hosts"
proof -
  have "url_safe ''''" by (simp add: url_safe_def)
  from table_shows_records [OF jq_std_contract demo_served demo_find_all this demo_records(1), unfolded reloadTable_def, OF refl]
  show ?thesis unfolding reloadTable_def by blast
qed

text \<open>
  C5. Editing a row that came from the server and saving it changes the record with that row's id
  and nothing else: its name, address and TTL become what was typed, its type and target stay.
\<close>

theorem save_row:
  assumes "jq_contract jq" and "served s c" and "records c e = Some rs" and "h \<in> set rs"
    and "a < length (tb_heap t)" and "row_at t a = row_of e h" and "quad ns" and "k \<le> 2 ^ 53"
    and "t' = row_handleNumberChange \<lparr>ev_name = ''ttl'', ev_value = show_nat k\<rparr> a
      (handleIpChange \<lparr>ev_name = ''ip'', ev_value = dotted ns\<rparr> a
      (row_handleChange \<lparr>ev_name = ''hostname'', ev_value = n\<rparr> a t))"
    and "updateRecord (JSStr e) a t' = (t'', [Ajax req cb])"
  shows "\<exists>s' c'. perform jq re jt req s = Inr (AjaxDone (JSStr ''''), s') \<and> served s' c' \<and> store_empty (srv_store s') \<and>
    records c' = (records c)(e \<mapsto> update_first (\<lambda>r. hId r = hId h)
      (\<lambda>r. r\<lparr>hHostname := n, hTtl := int k, hIp := dotted ns, hTarget := hTarget h, hType := hType h\<rparr>) rs)"
proof -
  have v: "js_get (row_at t' a) ''id'' = JSStr (go_FormatInt (hId h))" "js_get (row_at t' a) ''type'' = JSStr (hType h)"
    "js_get (row_at t' a) ''hostname'' = JSStr n" "js_get (row_at t' a) ''ip'' = JSArr (num_ip ns)"
    "js_get (row_at t' a) ''target'' = JSStr (hTarget h)" "js_get (row_at t' a) ''ttl'' = JSNum (JInt (int k))"
    using assms(5-8)
    by (simp_all add: assms(9) row_handleNumberChange_def handleIpChange_def row_handleChange_def row_of_def js_get_def
        parse_row_dotted js_parseInt_show_nat js_num_exact map_of_js_set)
  have a: "a < length (tb_heap t')" using assms(5) by (simp add: assms(9) row_handleNumberChange_def handleIpChange_def row_handleChange_def)
  have "in_int64 (int k)" using assms(8) by (simp add: in_int64_def int64_min_def int64_max_def)
  moreover have "in_int64 (hId h)" using served_records [OF assms(2,3)] assms(4) by (auto simp: list_all_iff host_served_def)
  moreover have "hId h \<in> hId ` set rs" using assms(4) by simp
  ultimately show ?thesis
    using update_row [OF assms(1,2) a v assms(7) _ _ assms(3) _ assms(10), of re jt] by (simp add: assign_fields_def form_record_def)
qed

theorem save_row_witness:
  "\<exists>t'' req cb s' c'. updateRecord (JSStr '''') 0 (row_handleNumberChange \<lparr>ev_name = ''ttl'', ev_value = show_nat 5\<rparr> 0
      (handleIpChange \<lparr>ev_name = ''ip'', ev_value = dotted [10, 0, 0, 9]\<rparr> 0
      (row_handleChange \<lparr>ev_name = ''hostname'', ev_value = ''x.com''\<rparr> 0 demo_table))) = (t'', [Ajax req cb]) \<and>
    perform jq_std demo_re demo_jt req demo_server = Inr (AjaxDone (JSStr ''''), s') \<and> served s' c' \<and>
    records c' '''' = Some [\<lparr>hId = 7, hHostname = ''x.com'', hIp = dotted [10, 0, 0, 9], hTarget = '''', hTtl = 5, hType = ''A''\<rparr>,
      demo_hosts ! 1]"
proof -
  let ?t = "row_handleNumberChange \<lparr>ev_name = ''ttl'', ev_value = show_nat 5\<rparr> 0
      (handleIpChange \<lparr>ev_name = ''ip'', ev_value = dotted [10, 0, 0, 9]\<rparr> 0
      (row_handleChange \<lparr>ev_name = ''hostname'', ev_value = ''x.com''\<rparr> 0 demo_table))"
  obtain t'' req cb where u: "updateRecord (JSStr '''') 0 ?t = (t'', [Ajax req cb])"
    by (simp add: updateRecord_def Let_def)
  have 1: "0 < length (tb_heap demo_table)" "quad [10, 0, 0, 9]" "(5 :: nat) \<le> 2 ^ 53"
    by (simp_all add: demo_table_rows quad_def)
  from save_row [OF jq_std_contract demo_served demo_records(1) demo_hosts_nth(1) 1(1) demo_table_rows(2) 1(2,3) refl u,
      of demo_re demo_jt] obtain s' c' where s': "perform jq_std demo_re demo_jt req demo_server = Inr (AjaxDone (JSStr ''''), s')" "served s' c'"
    "records c' = (records demo_conf)('''' \<mapsto> update_first (\<lambda>r. hId r = hId (demo_hosts ! 0))
      (\<lambda>r. r\<lparr>hHostname := ''x.com'', hTtl := int 5, hIp := dotted [10, 0, 0, 9], hTarget := hTarget (demo_hosts ! 0),
        hType := hType (demo_hosts ! 0)\<rparr>) demo_hosts)" by blast
  then have "records c' '''' = Some [\<lparr>hId = 7, hHostname = ''x.com'', hIp = dotted [10, 0, 0, 9], hTarget = '''', hTtl = 5, hType = ''A''\<rparr>,
      demo_hosts ! 1]" by (simp add: update_first_def demo_hosts_def)
  with s' u show ?thesis by blast
qed

text \<open>
  C6. Deleting a row removes from its environment the first record that has the row's host name, and
  leaves every other environment as it was.
\<close>

theorem delete_row_removes:
  assumes "jq_contract jq" and "served s c" and "js_get (row_at t a) ''hostname'' = JSStr n"
    and "records c e = Some rs" and "n \<in> set (hostname_names rs)"
    and "deleteRecord (JSStr e) a t = [Ajax req cb]"
  shows "\<exists>s' c'. perform jq re jt req s = Inr (AjaxDone (JSStr ''''), s') \<and> served s' c' \<and> store_empty (srv_store s') \<and>
    records c' = (records c)(e \<mapsto> remove_first (\<lambda>r. hHostname r = n) rs)"
  using assms by (rule delete_row)

theorem delete_row_removes_witness:
  "\<exists>req cb s' c'. deleteRecord (JSStr '''') 1 demo_table = [Ajax req cb] \<and>
    perform jq_std demo_re demo_jt req demo_server = Inr (AjaxDone (JSStr ''''), s') \<and> served s' c' \<and>
    records c' '''' = Some [demo_hosts ! 0]"
proof -
  have n: "js_get (row_at demo_table 1) ''hostname'' = JSStr ''b.com''" "''b.com'' \<in> set (hostname_names demo_hosts)"
    unfolding demo_table_rows by (simp_all add: demo_hosts_def row_of_def js_get_def hostname_names_def)
  obtain req cb where u: "deleteRecord (JSStr '''') 1 demo_table = [Ajax req cb]" by (simp add: deleteRecord_def)
  from delete_row_removes [OF jq_std_contract demo_served n(1) demo_records(1) n(2) u, of demo_re demo_jt]
  obtain s' c' where "perform jq_std demo_re demo_jt req demo_server = Inr (AjaxDone (JSStr ''''), s')" "served s' c'"
    "records c' = (records demo_conf)('''' \<mapsto> remove_first (\<lambda>r. hHostname r = ''b.com'') demo_hosts)" by blast
  moreover have "remove_first (\<lambda>r. hHostname r = ''b.com'') demo_hosts = [demo_hosts ! 0]"
    by (simp add: remove_first_def demo_hosts_def remove_nth_def)
  ultimately show ?thesis using u by (auto simp del: One_nat_def)
qed

text \<open>
  C7. In every reachable state the fields of the record form keep their types, whatever was typed: host
  name, target and type are strings and the time to live is a number. The form shows exactly one value
  field, the address for type \<open>A\<close> and the target otherwise, and React never skips an update of it.
\<close>

theorem form_fields_follow_type:
  assumes "reachable jq re jt s w" and "jq_contract jq" and "served s c" and "home_form (w_home w) = Some f"
  shows "map fst (fm_form f) = [''hostname'', ''ip'', ''target'', ''type'', ''ttl''] \<and>
    is_str (js_get (fm_form f) ''hostname'') \<and> is_str (js_get (fm_form f) ''target'') \<and>
    is_str (js_get (fm_form f) ''type'') \<and> is_num (js_get (fm_form f) ''ttl'') \<and>
    showIp f = (js_get (fm_form f) ''type'' = JSStr ''A'') \<and> showTarget f = (\<not> showIp f) \<and>
    shouldComponentUpdate (home_env (w_home w)) f"
proof -
  have "home_inv (w_home w)" using reachable_inv [OF assms(1-3)] by (simp add: world_inv_def)
  then have "form_inv f" "is_str (home_env (w_home w))" using assms(4) by (simp_all add: home_inv_def children_ok_def)
  then show ?thesis using form_inv_updates by (simp add: form_inv_def)
qed

theorem form_fields_follow_type_witness:
  "\<exists>w f. reachable jq_std demo_re demo_jt demo_server w \<and> home_form (w_home w) = Some f \<and> showIp f \<and> \<not> showTarget f"
proof -
  obtain w where w: "reachable jq_std demo_re demo_jt demo_server w" "w_home w = demo_home" using demo_reachable by blast
  let ?f = "RecordForm_componentDidMount RecordForm_new"
  have f: "home_form (w_home w) = Some ?f" using w(2) by (simp add: demo_home_def)
  have "js_get (fm_form ?f) ''type'' = JSStr ''A''"
    by (simp add: RecordForm_componentDidMount_def processValueLabel_def RecordForm_new_def js_get_def)
  with form_fields_follow_type [OF w(1) jq_std_contract demo_served f] w(1) f show ?thesis by auto
qed



section \<open>Environments on the page\<close>

text \<open>
  C9. Creating an environment from the page: when the typed name, cleaned, is new, the request of the
  form succeeds although jQuery reports it as a parse error, the page then asks to activate the new
  environment, and that request too succeeds. Afterwards the environment exists, is empty and is
  the active one, and the records of the others are unchanged.
\<close>

theorem create_environment:
  assumes "jq_contract jq" and "served s c" and "home_inv h" and "\<not> isLoading h"
    and "sanitize text \<noteq> ''''" and "sanitize text \<notin> set (env_names c)"
    and "createEnvironment text = [Ajax req (EnvCreated name)]"
  shows "\<exists>r s1 req2 r2 s2 c2. perform jq re jt req s = Inr (r, s1) \<and>
    snd (settle (CbEnvForm (EnvCreated name)) r h) =
      [notice None (''Environment '' @ [CHR 0x27] @ name @ [CHR 0x27] @ '' created successfully'') (Some ''success''),
       Ajax req2 (CbActivate (JSStr name))] \<and>
    perform jq re jt req2 s1 = Inr (r2, s2) \<and> resolved r2 \<and> served s2 c2 \<and>
    ActiveEnv c2 = name \<and> records c2 = (records c)(name \<mapsto> [])"
proof -
  have n: "name = sanitize text" "req = ajax_json POST ''/env/'' [(''name'', JSStr name)]"
    using assms(5,7) by (auto simp: createEnvironment_def Let_def)
  obtain s1 c1 where 1: "perform jq re jt req s = Inr (AjaxFail 200 NoBody, s1)" "served s1 c1"
    "records c1 = (records c)(name \<mapsto> [])" "env_names c1 = env_names c @ [name]"
    using create_env [OF assms(1,2), of name] assms(6) n by blast
  obtain s2 c2 where 2: "perform jq re jt (activate (JSStr name)) s1 = Inr (AjaxFail 200 NoBody, s2)" "served s2 c2"
    "records c2 = records c1" "ActiveEnv c2 = name"
    using activate_env [OF assms(1) 1(2), of name re jt] 1(4) by auto
  have "snd (settle (CbEnvForm (EnvCreated name)) (AjaxFail 200 NoBody) h) =
      [notice None (''Environment '' @ [CHR 0x27] @ name @ [CHR 0x27] @ '' created successfully'') (Some ''success''),
       Ajax (activate (JSStr name)) (CbActivate (JSStr name))]"
    by (simp add: settle_def createEnvironment_settled_def resolved_def notice_def home_prop_def onCreate_def
        onChangeEnv_def is_throw_def Let_def)
  with 1 2 show ?thesis
    by (intro exI [of _ "AjaxFail 200 NoBody"] exI [of _ s1] exI [of _ "activate (JSStr name)"] exI [of _ s2] exI [of _ c2])
      (simp add: resolved_def)
qed

theorem create_environment_witness:
  "\<exists>req name r s1 req2 r2 s2 c2. createEnvironment ''dev!'' = [Ajax req (EnvCreated name)] \<and> name = ''dev'' \<and>
    perform jq_std demo_re demo_jt req demo_server = Inr (r, s1) \<and>
    perform jq_std demo_re demo_jt req2 s1 = Inr (r2, s2) \<and> served s2 c2 \<and> ActiveEnv c2 = ''dev'' \<and> records c2 ''dev'' = Some []"
proof -
  have s: "sanitize ''dev!'' = ''dev''" by (simp add: sanitize_filter env_name_char_def js_space_def js_trim_def)
  then have 1: "sanitize ''dev!'' \<noteq> ''''" "sanitize ''dev!'' \<notin> set (env_names demo_conf)"
    by (simp_all add: demo_records)
  have u: "createEnvironment ''dev!'' = [Ajax (ajax_json POST ''/env/'' [(''name'', JSStr ''dev'')]) (EnvCreated ''dev'')]"
    by (simp add: createEnvironment_def s Let_def)
  from create_environment [OF jq_std_contract demo_served demo_home_inv demo_home_loaded(1) 1 u, of demo_re demo_jt]
  obtain r s1 req2 r2 s2 c2 where "perform jq_std demo_re demo_jt (ajax_json POST ''/env/'' [(''name'', JSStr ''dev'')]) demo_server = Inr (r, s1)"
    "perform jq_std demo_re demo_jt req2 s1 = Inr (r2, s2)" "served s2 c2" "ActiveEnv c2 = ''dev''"
    "records c2 = (records demo_conf)(''dev'' \<mapsto> [])" by blast
  with u show ?thesis by fastforce
qed

text \<open>
  C10. Switching the environment: when the server has accepted it, the page takes the environment
  over, closes the form for a new one, and the last thing it does is to ask for the records of that
  environment; when the server has refused, the page keeps its state and says so.
\<close>

theorem switch_environment:
  assumes "home_inv h" and "\<not> isLoading h"
  shows "if resolved r
    then (\<exists>h' es. settle (CbActivate (JSStr e)) r h =
            (h', es @ [Ajax (ajax_get (''/hostname/find/?env='' @ e @ ''&hostname='')) (CbTable TableLoaded)]) \<and>
          home_env h' = JSStr e \<and> \<not> createEnv h' \<and> home_inv h')
    else settle (CbActivate (JSStr e)) r h = (h, [notice None ''Could not activate environment'' (Some ''danger'')])"
proof (cases "resolved r")
  case True
  let ?f = "\<lambda>h :: home. h\<lparr>home_env := JSStr e, createEnv := False\<rparr>"
  have ok: "home_mounted h" "children_ok (?f h)" using assms by (simp_all add: home_inv_def children_ok_def)
  have g: "good_step h (setState ?f h)" "\<not> isLoading (fst (setState ?f h))" "home_env (fst (setState ?f h)) = JSStr e"
    using setState_good [OF assms(1), of ?f] ok assms(2) by simp_all
  then have i: "home_inv (fst (setState ?f h))" by (simp add: good_step_def)
  have "settle (CbActivate (JSStr e)) r h = (fst (setState ?f h), snd (setState ?f h) @
      [Ajax (ajax_get (''/hostname/find/?env='' @ e @ ''&hostname='')) (CbTable TableLoaded)])"
    using True g(2,3) i
    by (simp add: settle_def onChangeEnv_settled_def case_prod_unfold Let_def table_reload_loaded loaded_table
        wrap_table_def reloadTable_def)
  moreover have "\<not> createEnv (fst (setState ?f h))"
    unfolding setState_mount [where f = ?f and h = h, OF ok] using assms(2) by (simp add: did_mount_def reconcile_def Let_def)
  ultimately show ?thesis using True g(3) i by auto
next
  case False
  then show ?thesis by (simp add: settle_def onChangeEnv_settled_def)
qed

theorem switch_environment_witness:
  "home_env (fst (settle (CbActivate (JSStr ''qa'')) (AjaxFail 200 NoBody) demo_home)) = JSStr ''qa'' \<and>
   settle (CbActivate (JSStr ''zz'')) (AjaxFail 400 NoBody) demo_home =
     (demo_home, [notice None ''Could not activate environment'' (Some ''danger'')])"
  using switch_environment [OF demo_home_inv demo_home_loaded(1), of "AjaxFail 200 NoBody" "''qa''"]
    switch_environment [OF demo_home_inv demo_home_loaded(1), of "AjaxFail 400 NoBody" "''zz''"]
  by (auto simp: resolved_def)

text \<open>
  C11. A record saved while the form for a new environment is open: the confirmation is shown and
  the table is reloaded, and then the handler throws, exactly because the picker it wants to reload
  is not mounted.
\<close>

theorem saved_while_creating_env:
  assumes "home_inv h" and "\<not> isLoading h"
  shows "settle (CbForm RecordSaved) (AjaxDone v) h =
    (h, notice None ''Saved'' None # wrap_table (reloadTable (home_env h)) @ picker_reload h) \<and>
    (Throw (TypeError ''reload'') \<in> set (snd (settle (CbForm RecordSaved) (AjaxDone v) h))) = createEnv h"
proof -
  have "home_prop ''onUpdate'' [] h = (h, wrap_table (reloadTable (home_env h)) @ picker_reload h)"
    using onUpdate_loaded [OF assms] by (simp add: home_prop_def)
  then have s: "settle (CbForm RecordSaved) (AjaxDone v) h =
      (h, notice None ''Saved'' None # wrap_table (reloadTable (home_env h)) @ picker_reload h)"
    by (simp add: settle_def handleSubmit_settled_def notice_def)
  have "(home_picker h = None) = createEnv h" "home_mounted h"
    using assms by (simp_all add: home_inv_def layout_def children_ok_def)
  then show ?thesis
    by (auto simp: s notice_def wrap_table_def wrap_picker_def reloadTable_def EnvPicker_reload_def picker_reload_def
        split: option.splits)
qed

theorem saved_while_creating_env_witness:
  "Throw (TypeError ''reload'') \<in>
     set (snd (settle (CbForm RecordSaved) (AjaxDone (JSStr '''')) (demo_home\<lparr>createEnv := True, home_picker := None\<rparr>)))"
proof -
  let ?h = "demo_home\<lparr>createEnv := True, home_picker := None\<rparr>"
  have "home_inv ?h" "\<not> isLoading ?h"
    using demo_home_inv by (simp_all add: home_inv_def children_ok_def layout_def demo_home_def)
  then have "(Throw (TypeError ''reload'') \<in> set (snd (settle (CbForm RecordSaved) (AjaxDone (JSStr '''')) ?h))) = createEnv ?h"
    by (rule saved_while_creating_env [THEN conjunct2])
  moreover have "createEnv ?h" by simp
  ultimately show ?thesis by blast
qed

text \<open>
  Deleting the environment that the picker has selected, once the server has removed it and
  activated the default one, leaves the picker as it was: the page works on the default environment
  while the picker still offers and still has selected the environment that is gone.
\<close>

lemma picker_stale_after_delete:
  assumes "home_inv h" and "\<not> isLoading h" and "home_picker h = Some (i, p)" and "resolved r" and "resolved r'"
  shows "settle (CbPicker i EnvDeleted) r h = (h, [Ajax (activate (JSStr DEFAULT_ENV)) (CbActivate (JSStr DEFAULT_ENV))]) \<and>
    settle (CbActivate (JSStr DEFAULT_ENV)) r' h =
      (h\<lparr>home_env := JSStr DEFAULT_ENV\<rparr>, wrap_table (reloadTable (JSStr DEFAULT_ENV)))"
proof -
  have c: "createEnv h = False" using assms(1-3) by (simp add: home_inv_def layout_def)
  have "home_inv (h\<lparr>home_env := JSStr DEFAULT_ENV, createEnv := False\<rparr>)"
    using assms(1) c by (simp add: home_inv_def children_ok_def layout_def)
  moreover have "home_mounted h" using assms(1) by (simp add: home_inv_def children_ok_def)
  ultimately have "setState (\<lambda>h. h\<lparr>home_env := JSStr DEFAULT_ENV, createEnv := False\<rparr>) h = (h\<lparr>home_env := JSStr DEFAULT_ENV\<rparr>, [])"
    using c by (subst setState_id) (cases h, simp_all)
  moreover have "table_reload (h\<lparr>home_env := JSStr DEFAULT_ENV\<rparr>) = wrap_table (reloadTable (JSStr DEFAULT_ENV))"
    using loaded_table [OF assms(1,2)] by (simp add: table_reload_def)
  ultimately show ?thesis
    using assms(4,5) loaded_table [OF assms(1,2)]
    by (simp add: settle_def deleteEnv_settled_def home_prop_def onDelete_def onChangeEnv_def is_throw_def
        onChangeEnv_settled_def)
qed



section \<open>Where the page and the server disagree\<close>



text \<open>
  Leaving the edit mode of a row with the cancel button does not bring back what the row
  held: the table goes on showing the typed host name, which is also the name that the delete
  button of the row sends.
\<close>

lemma cancel_keeps_edit:
  assumes "a < length (tb_heap t)"
    and "t' = swapEditionMode a (row_handleChange \<lparr>ev_name = ''hostname'', ev_value = n\<rparr> a (swapEditionMode a t))"
  shows "js_get (row_at t' a) ''hostname'' = JSStr n \<and>
    js_truthy (js_get (row_at t' a) ''editing'') = js_truthy (js_get (row_at t a) ''editing'') \<and>
    deleteRecord env a t' = [Ajax (ajax_json DELETE ''/hostname'' [(''env'', env), (''hostname'', JSStr n)]) (RowDeleted a)]"
  using assms(1) by (simp add: assms(2) row_handleChange_def deleteRecord_def)

text \<open>
  The name of an environment is pasted into the query as it is. The request for the records of
  an environment whose name holds a tab is the request for the name without it, although the form
  for a new environment lets a tab through.
\<close>

lemma reload_drops_tab:
  assumes "reloadTable (JSStr (x @ [CHR 0x09] @ y)) = [Ajax req cb]" and "reloadTable (JSStr (x @ y)) = [Ajax req' cb']"
  shows "request_of req = request_of req' \<and> env_name_char (CHR 0x09)"
proof -
  have "url_clean (ax_url req) = url_clean (ax_url req')"
    using assms by (auto simp: reloadTable_def ajax_get_def url_clean_def)
  moreover have "ax_method req = ax_method req'" "ax_data req = ax_data req'"
    using assms by (auto simp: reloadTable_def ajax_get_def)
  moreover have "env_name_char (CHR 0x09)" by (simp add: env_name_char_def js_space_def)
  ultimately show ?thesis by (simp add: request_of_def)
qed

section \<open>Progress\<close>

text \<open>
  No request gets stuck. In every reachable state each request that is under way can be served,
  which answers it, and each answer can be delivered, which takes it off the list of what is under
  way.
\<close>

lemma requests_progress:
  assumes "reachable jq re jt s w" and "jq_contract jq" and "served s c" and "i < length (w_flight w)"
  shows "case w_flight w ! i of
      Sent a cb \<Rightarrow> \<exists>w' r. step jq re jt w w' \<and> w_flight w' = (w_flight w)[i := Answered cb r] \<and> good_answer cb r
    | Answered cb r \<Rightarrow> \<exists>w' new. step jq re jt w w' \<and> w_flight w' = remove_nth i (w_flight w) @ new"
proof (cases "w_flight w ! i")
  case (Sent a cb)
  have inv: "world_inv w" using assms(1-3) by (rule reachable_inv)
  then obtain c' where c': "served (w_server w) c'" by (auto simp: world_inv_def)
  obtain r s' where p: "perform jq re jt a (w_server w) = Inr (r, s')"
    using perform_stays [OF c', of jq re jt a] by (auto simp: stays_def)
  have "asks a cb" using inv assms(4) Sent by (auto simp: world_inv_def list_all_length flight_inv_def)
  then have "good_answer cb r" using perform_good [OF assms(2) c' _ p] by blast
  moreover have "step jq re jt w (w\<lparr>w_flight := (w_flight w)[i := Answered cb r], w_server := s'\<rparr>)"
    by (rule step.net [OF net_step.serve [OF assms(4) Sent p]])
  ultimately show ?thesis using Sent by fastforce
next
  case (Answered cb r)
  let ?w = "emit (settle cb r (w_home w)) (w\<lparr>w_flight := remove_nth i (w_flight w)\<rparr>)"
  have "step jq re jt w ?w" by (rule step.net [OF net_step.deliver [OF assms(4) Answered]])
  moreover have "\<exists>new. w_flight ?w = remove_nth i (w_flight w) @ new" by (simp add: emit_def emit_fields)
  ultimately show ?thesis using Answered by auto
qed

text \<open>
  C19. When the request for the active environment fails, the page says so and stays on its spinner for
  good: nothing is under way and the page accepts no event, so no step is possible any more.
\<close>

theorem failed_start_is_final:
  assumes "w = emit (settle CbActive (AjaxFail st b) Home_new)
      ((app_start s)\<lparr>w_flight := [], w_server := s'\<rparr>)"
  shows "w_notes w = [\<lparr>n_title = None, n_message = MsgVal (JSStr ''Failed to fetch current environment''),
      n_type = Some ''danger''\<rparr>] \<and> (\<nexists>w'. step jq re jt w w')"
proof -
  have r: "settle CbActive (AjaxFail st b) Home_new =
      (Home_new, [notice None ''Failed to fetch current environment'' (Some ''danger'')])"
    by (simp add: settle_def Home_componentDidMount_settled_def)
  have w: "w_home w = Home_new" "w_flight w = []" "w_notes w = [\<lparr>n_title = None,
      n_message = MsgVal (JSStr ''Failed to fetch current environment''), n_type = Some ''danger''\<rparr>]"
    by (simp_all add: assms r emit_def notice_def app_start_def Home_componentDidMount_def)
  have "handlers ts = []" if "Home_render Home_new = Inr ts" for ts
    using that by (auto simp: Home_render_def Home_new_def js_simps NavBar_handlers renderLoading_handlers target_name_def)
  then have "\<not> step jq re jt w w'" for w'
    by (auto simp: w elim!: stepE net_stepE)
  with w(3) show ?thesis by blast
qed

theorem failed_start_is_final_witness:
  "\<nexists>w'. step jq_std demo_re demo_jt (emit (settle CbActive (AjaxFail 0 NoBody) Home_new)
      ((app_start demo_server)\<lparr>w_flight := [], w_server := demo_server\<rparr>)) w'"
  using failed_start_is_final [OF refl, of 0 NoBody demo_server demo_server jq_std demo_re demo_jt] by blast

text \<open>
  C29. Without the user the page comes to rest. From a reachable state the server, the connections and the
  outcomes can make at most ten steps per request under way, whatever is lost and in whatever order, although
  outcomes start further requests; and from wherever they get, a state without a request under way can be
  reached.
\<close>

theorem network_quiesces:
  assumes "reachable jq re jt s w" and "jq_contract jq" and "served s c" and "(net_step jq re jt ^^ n) w w'"
  shows "n \<le> 10 * length (w_flight w) \<and> (\<exists>w''. (net_step jq re jt)\<^sup>*\<^sup>* w' w'' \<and> w_flight w'' = [])"
proof -
  have "world_inv w" using assms(1-3) by (rule reachable_inv)
  with net_steps_cost [OF assms(2,4)] have "world_inv w'" "n \<le> world_cost w" by auto
  then show ?thesis using comes_to_rest [OF assms(2)] world_cost_le [of w] by (blast intro: order_trans)
qed

theorem network_quiesces_witness:
  "(\<nexists>w'. (net_step jq_std demo_re demo_jt ^^ 11) (app_start demo_server) w') \<and>
   (\<exists>w''. (net_step jq_std demo_re demo_jt)\<^sup>*\<^sup>* (app_start demo_server) w'' \<and> w_flight w'' = [])"
proof -
  have "length (w_flight (app_start demo_server)) = 1"
    by (simp add: app_start_def emit_def Home_componentDidMount_def)
  then have "\<not> (net_step jq_std demo_re demo_jt ^^ 11) (app_start demo_server) w'" for w'
    using network_quiesces [OF reachable.start jq_std_contract demo_served, of 11 demo_re demo_jt w'] by auto
  moreover have "(net_step jq_std demo_re demo_jt ^^ 0) (app_start demo_server) (app_start demo_server)" by simp
  ultimately show ?thesis
    using network_quiesces [OF reachable.start jq_std_contract demo_served] by blast
qed

section \<open>Bounds\<close>



end
